theory Spec2Isabelle
  imports Main "HOL-Library.AList"
begin

section \<open>Data model\<close>

text \<open>
  The session object of \<^verbatim>\<open>REPL.cpp\<close> drives three external services: the Swift frontend
  (parsing, name binding, type checking, mangling), code generation (SIL and LLVM IR) and
  the JIT linker. What these services answer during one input line is data of the model:
  a \<open>turn\<close> carries the line and the answers the services give while it is processed.
  Everything \<^verbatim>\<open>REPL.cpp\<close> itself does with those answers is translated function by
  function.
\<close>

subsection \<open>Declarations and generated code\<close>

text \<open>
  A top-level declaration as the loop of \<^verbatim>\<open>ExecuteSwift\<close> sees it. A \<open>FuncDecl\<close> carries
  \<^verbatim>\<open>getName()\<close> and the result of \<^verbatim>\<open>mangleEntity\<close>; any other \<^verbatim>\<open>ValueDecl\<close> carries its
  base name; an \<open>ImportDecl\<close> names the imported module; \<open>OtherDecl\<close> is any declaration
  that is not a \<^verbatim>\<open>ValueDecl\<close>.
\<close>

datatype decl =
    FuncDecl string string
  | ValueDecl string
  | ImportDecl string
  | OtherDecl

fun isa_FuncDecl :: "decl \<Rightarrow> bool" where
  "isa_FuncDecl (FuncDecl u m) = True"
| "isa_FuncDecl d = False"

fun isa_ValueDecl :: "decl \<Rightarrow> bool" where
  "isa_ValueDecl (FuncDecl u m) = True"
| "isa_ValueDecl (ValueDecl n) = True"
| "isa_ValueDecl d = False"

text \<open>
  Instructions of a function body, as far as the session cares: a direct call of a symbol,
  a call through the address loaded from a named pointer global, anything else.
\<close>

datatype instr =
    CallDirect string
  | CallViaSlot string
  | Opaque nat

record llvm_function =
  getName :: string
  isDeclaration :: bool
  hasExternalLinkage :: bool
  body :: "instr list"

text \<open>
  An LLVM module: its functions and the names of the global variables it defines (the
  indirection slots are added to them while the unit is prepared).
\<close>

record llvm_module =
  mod_functions :: "llvm_function list"
  mod_globals :: "string list"

subsection \<open>The JIT session\<close>

text \<open>
  Linked code: a direct call is bound when the unit is linked (\<open>None\<close>: the symbol is not
  bound in the session); a call through a slot reads the slot's cell each time it runs.
\<close>

datatype linked_instr =
    JumpTo "nat option"
  | JumpThrough "nat option"
  | Plain nat

record jit =
  jit_symbols :: "string \<rightharpoonup> nat"
  jit_code :: "nat \<rightharpoonup> linked_instr list"
  jit_memory :: "nat \<rightharpoonup> nat"
  jit_next :: nat
  jit_unremovable :: "string list"
  jit_dylibs :: "string list"
  jit_search_paths :: "string list"

datatype remove_error = SymbolsNotFound | SymbolsCouldNotBeRemoved

text \<open>
  Modelled from the spec: \<^verbatim>\<open>JIT::Create\<close> (\<^verbatim>\<open>JIT.cpp\<close> is not among the sources). A fresh
  session binds nothing.
\<close>

definition JIT_Create :: jit where
  "JIT_Create = \<lparr>jit_symbols = Map.empty, jit_code = Map.empty, jit_memory = Map.empty,
     jit_next = 0, jit_unremovable = [], jit_dylibs = [], jit_search_paths = []\<rparr>"

text \<open>
  Modelled from the spec: \<^verbatim>\<open>JIT::LookupSymbol\<close>, the contract
  \<^verbatim>\<open>lookupSymbol(name) -> Address | NotFound\<close>.
\<close>

definition JIT_LookupSymbol :: "string \<Rightarrow> jit \<Rightarrow> nat option" where
  "JIT_LookupSymbol name j = jit_symbols j name"

text \<open>
  Modelled from the spec: \<^verbatim>\<open>JIT::RemoveSymbol\<close>, the contract \<^verbatim>\<open>removeSymbol(name)\<close>, which
  unbinds a previously linked symbol and has two kinds of failure: the symbol is not
  bound, or the linker refuses the removal. Which bound symbols the linker refuses to
  remove is the session's \<open>jit_unremovable\<close> list.
\<close>

definition JIT_RemoveSymbol :: "string \<Rightarrow> jit \<Rightarrow> remove_error option \<times> jit" where
  "JIT_RemoveSymbol name j =
     (if jit_symbols j name = None then (Some SymbolsNotFound, j)
      else if name \<in> set (jit_unremovable j) then (Some SymbolsCouldNotBeRemoved, j)
      else (None, j\<lparr>jit_symbols := (jit_symbols j)(name := None)\<rparr>))"

text \<open>The functions a module defines with external linkage (the test of line 43).\<close>

definition defines_external :: "llvm_function \<Rightarrow> bool" where
  "defines_external fn = (\<not> (isDeclaration fn \<or> \<not> hasExternalLinkage fn))"

definition external_definitions :: "llvm_module \<Rightarrow> llvm_function list" where
  "external_definitions m = filter defines_external (mod_functions m)"

definition defined_symbols :: "llvm_module \<Rightarrow> string list" where
  "defined_symbols m = map getName (external_definitions m) @ mod_globals m"

fun bind_symbols :: "string list \<Rightarrow> nat \<Rightarrow> (string \<rightharpoonup> nat) \<Rightarrow> (string \<rightharpoonup> nat)" where
  "bind_symbols [] a tab = tab"
| "bind_symbols (n # ns) a tab = bind_symbols ns (Suc a) (tab(n \<mapsto> a))"

fun link_instr :: "(string \<rightharpoonup> nat) \<Rightarrow> instr \<Rightarrow> linked_instr" where
  "link_instr tab (CallDirect t) = JumpTo (tab t)"
| "link_instr tab (CallViaSlot s) = JumpThrough (tab s)"
| "link_instr tab (Opaque k) = Plain k"

fun place_code :: "(string \<rightharpoonup> nat) \<Rightarrow> llvm_function list \<Rightarrow> nat
    \<Rightarrow> (nat \<rightharpoonup> linked_instr list) \<Rightarrow> (nat \<rightharpoonup> linked_instr list)" where
  "place_code tab [] a c = c"
| "place_code tab (fn # fns) a c = place_code tab fns (Suc a) (c(a \<mapsto> map (link_instr tab) (body fn)))"

text \<open>
  Modelled from the spec: the linker reports a duplicate-definition conflict when a symbol
  the unit defines is already bound (or is defined twice by the unit).
\<close>

definition link_conflict :: "llvm_module \<Rightarrow> jit \<Rightarrow> bool" where
  "link_conflict m j =
     (\<not> distinct (defined_symbols m) \<or> list_ex (\<lambda>n. jit_symbols j n \<noteq> None) (defined_symbols m))"

text \<open>
  Modelled from the spec: \<^verbatim>\<open>JIT::AddModule\<close>, the contract \<^verbatim>\<open>addUnit(executableUnit)\<close>, which
  links the unit into the process image and merges its symbols into the live symbol
  table. Every externally visible function definition and every pointer global gets a
  fresh address; a pointer global's cell starts unset. Module-private functions are
  invisible to the session's interface and are left out. On a conflict nothing is linked.
  The spec names the duplicate symbol as the one failure of \<^verbatim>\<open>addUnit\<close>, so a unit that
  refers to a symbol bound nowhere is linked all the same, and such a reference stays
  unresolved (\<open>None\<close>, see \<open>link_instr\<close>). No statement below says what a call with an
  unresolved target does.
\<close>

definition JIT_AddModule :: "llvm_module \<Rightarrow> jit \<Rightarrow> jit" where
  "JIT_AddModule m j =
     (if link_conflict m j then j
      else let tab = bind_symbols (defined_symbols m) (jit_next j) (jit_symbols j)
           in j\<lparr>jit_symbols := tab,
                jit_code := place_code tab (external_definitions m) (jit_next j) (jit_code j),
                jit_next := jit_next j + length (defined_symbols m)\<rparr>)"

text \<open>Modelled from the spec: \<^verbatim>\<open>JIT::AddDylib\<close> and \<^verbatim>\<open>JIT::AddSearchPath\<close> record their argument.\<close>

definition JIT_AddDylib :: "string \<Rightarrow> jit \<Rightarrow> jit" where
  "JIT_AddDylib name j = j\<lparr>jit_dylibs := jit_dylibs j @ [name]\<rparr>"

definition JIT_AddSearchPath :: "string \<Rightarrow> jit \<Rightarrow> jit" where
  "JIT_AddSearchPath path j = j\<lparr>jit_search_paths := jit_search_paths j @ [path]\<rparr>"


subsection \<open>The session state\<close>

text \<open>
  What the session does to the linker and to the process, in the order it does it. The
  trace is not a member of the class: it records the calls of \<^verbatim>\<open>REPL.cpp\<close> so that claims
  about their order can be stated.
\<close>

datatype event =
    EvRemoveSymbol string
  | EvAddModule "string list"
  | EvPatch string nat nat
  | EvInvoke string nat

text \<open>
  The members of \<^verbatim>\<open>class REPL\<close> that \<^verbatim>\<open>REPL.cpp\<close> uses. \<open>m_decl_map\<close> maps a name to a
  \<^verbatim>\<open>SourceFile *\<close>: the pointer is a handle, \<open>src_files\<close> gives the \<^verbatim>\<open>Decls\<close> of the file
  behind each handle, so that two names registered for one file see one object.
  \<open>m_fn_ptr_map\<close> is listed in iteration order. \<open>cout\<close> is what was written to standard
  output, \<open>error_log\<close> the messages logged with priority \<^verbatim>\<open>Error\<close>.
\<close>

record repl =
  m_is_playground :: bool
  m_curr_input_number :: nat
  hadAnyError :: bool
  m_decl_map :: "string \<rightharpoonup> nat"
  src_files :: "nat \<Rightarrow> decl list"
  next_src_file :: nat
  m_imports :: "string list"
  m_fn_ptr_map :: "(string \<times> string) list"
  m_jit :: jit
  cout :: string
  error_log :: "string list"
  trace :: "event list"

text \<open>The constructor and \<^verbatim>\<open>REPL::Create\<close> (lines 63 to 103).\<close>

definition REPL_Create :: "bool \<Rightarrow> repl" where
  "REPL_Create is_playground =
     \<lparr>m_is_playground = is_playground, m_curr_input_number = 1, hadAnyError = False,
      m_decl_map = Map.empty, src_files = (\<lambda>h. []), next_src_file = 0, m_imports = [],
      m_fn_ptr_map = [], m_jit = JIT_Create, cout = [], error_log = [], trace = []\<rparr>"

subsection \<open>What the external services answer\<close>

text \<open>
  Code generation for one declaration unit: whether \<^verbatim>\<open>performSILGeneration\<close> and
  \<^verbatim>\<open>runSILDiagnosticPasses\<close> raise a diagnostic, and the module \<^verbatim>\<open>performIRGeneration\<close>
  returns.
\<close>

record codegen =
  diag_SILGeneration :: bool
  diag_SILDiagnosticPasses :: bool
  ir_module :: llvm_module

text \<open>
  One input line and the frontend's answers to it: a diagnostic flag for every call that
  is followed by \<^verbatim>\<open>CHECK_ERROR\<close> (one flag per call of \<^verbatim>\<open>parseIntoSourceFile\<close>, until the
  parser is done), whether the allocation of the \<^verbatim>\<open>SourceFile\<close> yields null, the link
  libraries of the module, and the declarations of the checked and reshaped source file,
  each with what code generation makes of it.
\<close>

record turn =
  line :: string
  diag_ModuleDecl_create :: bool
  src_file_is_null :: bool
  diag_addFile :: bool
  diag_parseIntoSourceFile :: "bool list"
  diag_performNameBinding :: bool
  diag_performTypeChecking :: bool
  diag_typeCheckExternalDefinitions :: bool
  link_libraries :: "string list"
  decls :: "(decl \<times> codegen) list"

section \<open>The operations of the session\<close>

subsection \<open>Small helpers\<close>

text \<open>An external call raises a diagnostic: the engine's flag is sticky.\<close>

definition diagnose :: "bool \<Rightarrow> repl \<Rightarrow> repl" where
  "diagnose d r = r\<lparr>hadAnyError := (hadAnyError r \<or> d)\<rparr>"

definition Log_Error :: "string \<Rightarrow> repl \<Rightarrow> repl" where
  "Log_Error msg r = r\<lparr>error_log := error_log r @ [msg]\<rparr>"

definition print :: "string \<Rightarrow> repl \<Rightarrow> repl" where
  "print s r = r\<lparr>cout := cout r @ s\<rparr>"

definition record_event :: "event \<Rightarrow> repl \<Rightarrow> repl" where
  "record_event e r = r\<lparr>trace := trace r @ [e]\<rparr>"

text \<open>Decimal output of the input number, as the stream operator writes it.\<close>

definition digit_char :: "nat \<Rightarrow> char" where
  "digit_char d = ''0123456789'' ! d"

function to_string :: "nat \<Rightarrow> string" where
  "to_string n = (if n < 10 then [digit_char n] else to_string (n div 10) @ [digit_char (n mod 10)])"
  by pat_completeness auto
termination
  by (relation "measure id") auto

declare to_string.simps [simp del]

subsection \<open>Exit tokens (lines 132 to 135)\<close>

definition IsExitString :: "string \<Rightarrow> bool" where
  "IsExitString ln = (ln = ''e'' \<or> ln = ''exit'')"

subsection \<open>Removing redeclared symbols (lines 37 to 61)\<close>

text \<open>
  The handlers of \<^verbatim>\<open>handleAllErrors\<close>: a symbol that could not be removed is logged, a
  symbol that was not found is passed over. Neither leaves the loop.
\<close>

fun handle_remove_error :: "string \<Rightarrow> remove_error option \<Rightarrow> repl \<Rightarrow> repl" where
  "handle_remove_error name None r = r"
| "handle_remove_error name (Some SymbolsCouldNotBeRemoved) r =
     Log_Error (''Could not remove symbol'' @ name) r"
| "handle_remove_error name (Some SymbolsNotFound) r = r"

text \<open>
  \<^verbatim>\<open>m_fn_ptr_map[name] = ""\<close> for a name the table does not have. The container's type is
  declared in \<^verbatim>\<open>REPL.h\<close>, which is not among the sources, and with it the place a new key
  takes in the iteration order of line 317; here the new entry is put at the end. The
  statements below do not depend on that place: they speak of all entries of the table,
  or of the entries a pass has reached, whichever these are.
\<close>

fun RemoveRedeclarationsFromJIT_loop :: "llvm_function list \<Rightarrow> repl \<Rightarrow> repl" where
  "RemoveRedeclarationsFromJIT_loop [] r = r"
| "RemoveRedeclarationsFromJIT_loop (fn # fns) r =
     (if isDeclaration fn \<or> \<not> hasExternalLinkage fn then RemoveRedeclarationsFromJIT_loop fns r
      else
        let name = getName fn;
            (err, j) = JIT_RemoveSymbol name (m_jit r);
            r1 = record_event (EvRemoveSymbol name) (r\<lparr>m_jit := j\<rparr>);
            r2 = handle_remove_error name err r1;
            r3 = (if map_of (m_fn_ptr_map r2) name = None
                  then r2\<lparr>m_fn_ptr_map := AList.update name [] (m_fn_ptr_map r2)\<rparr>
                  else r2)
        in RemoveRedeclarationsFromJIT_loop fns r3)"

definition RemoveRedeclarationsFromJIT :: "llvm_module \<Rightarrow> repl \<Rightarrow> repl" where
  "RemoveRedeclarationsFromJIT llvm_module r =
     RemoveRedeclarationsFromJIT_loop (mod_functions llvm_module) r"

subsection \<open>Indirection slots and call rewriting\<close>

text \<open>
  Modelled from the spec: the name of a function's slot. \<^verbatim>\<open>TransformIR.cpp\<close> is not among
  the sources; the spec says that the slot is named deterministically from the symbol.
\<close>

definition slot_name :: "string \<Rightarrow> string" where
  "slot_name symbol = symbol @ ''_ptr''"

definition has_slot :: "(string \<times> string) list \<Rightarrow> string \<Rightarrow> bool" where
  "has_slot tbl symbol = (case map_of tbl symbol of None \<Rightarrow> False | Some s \<Rightarrow> s \<noteq> [])"

text \<open>
  Modelled from the spec: \<^verbatim>\<open>AddFunctionPointers\<close>, step 1 of the indirection contract. For
  every externally visible function the unit defines that has no slot yet (its entry is
  the empty placeholder that \<^verbatim>\<open>RemoveRedeclarationsFromJIT\<close> has just written), the unit
  gets an uninitialised pointer global and the table records its name.
\<close>

fun AddFunctionPointers_loop :: "llvm_function list \<Rightarrow> string list \<times> (string \<times> string) list
    \<Rightarrow> string list \<times> (string \<times> string) list" where
  "AddFunctionPointers_loop [] (gs, tbl) = (gs, tbl)"
| "AddFunctionPointers_loop (fn # fns) (gs, tbl) =
     (if defines_external fn \<and> \<not> has_slot tbl (getName fn)
      then AddFunctionPointers_loop fns
             (gs @ [slot_name (getName fn)], AList.update (getName fn) (slot_name (getName fn)) tbl)
      else AddFunctionPointers_loop fns (gs, tbl))"

definition AddFunctionPointers :: "llvm_module \<Rightarrow> (string \<times> string) list
    \<Rightarrow> llvm_module \<times> (string \<times> string) list" where
  "AddFunctionPointers llvm_module tbl =
     (let (gs, tbl') = AddFunctionPointers_loop (mod_functions llvm_module) (mod_globals llvm_module, tbl)
      in (llvm_module\<lparr>mod_globals := gs\<rparr>, tbl'))"

text \<open>
  Modelled from the spec: \<^verbatim>\<open>ReplaceFunctionCallsWithIndirectFunctionCalls\<close>, step 2 of the
  contract. Every call whose target is a symbol present in the table becomes a load of
  the symbol's slot and a call through the loaded address, whether the callee is defined
  in this unit or in an earlier one.
\<close>

fun rewrite_instr :: "(string \<times> string) list \<Rightarrow> instr \<Rightarrow> instr" where
  "rewrite_instr tbl (CallDirect t) =
     (case map_of tbl t of None \<Rightarrow> CallDirect t | Some s \<Rightarrow> CallViaSlot s)"
| "rewrite_instr tbl (CallViaSlot s) = CallViaSlot s"
| "rewrite_instr tbl (Opaque k) = Opaque k"

definition rewrite_function :: "(string \<times> string) list \<Rightarrow> llvm_function \<Rightarrow> llvm_function" where
  "rewrite_function tbl fn = fn\<lparr>body := map (rewrite_instr tbl) (body fn)\<rparr>"

definition ReplaceFunctionCallsWithIndirectFunctionCalls ::
    "llvm_module \<Rightarrow> (string \<times> string) list \<Rightarrow> llvm_module" where
  "ReplaceFunctionCallsWithIndirectFunctionCalls llvm_module tbl =
     llvm_module\<lparr>mod_functions := map (rewrite_function tbl) (mod_functions llvm_module)\<rparr>"

subsection \<open>Patching the slots (lines 315 to 335)\<close>

datatype lookup_error = LookupFailed string

definition write_slot :: "nat \<Rightarrow> nat \<Rightarrow> jit \<Rightarrow> jit" where
  "write_slot ptr fn j = j\<lparr>jit_memory := (jit_memory j)(ptr \<mapsto> fn)\<rparr>"

fun UpdateFunctionPointers_loop :: "(string \<times> string) list \<Rightarrow> repl \<Rightarrow> lookup_error option \<times> repl" where
  "UpdateFunctionPointers_loop [] r = (None, r)"
| "UpdateFunctionPointers_loop (name # rest) r =
     (case JIT_LookupSymbol (fst name) (m_jit r) of
        Some fn \<Rightarrow>
          (case JIT_LookupSymbol (snd name) (m_jit r) of
             Some ptr \<Rightarrow>
               UpdateFunctionPointers_loop rest
                 (record_event (EvPatch (fst name) ptr fn) (r\<lparr>m_jit := write_slot ptr fn (m_jit r)\<rparr>))
           | None \<Rightarrow> (Some (LookupFailed (snd name)), r))
      | None \<Rightarrow> (Some (LookupFailed (fst name)), r))"

definition UpdateFunctionPointers :: "repl \<Rightarrow> lookup_error option \<times> repl" where
  "UpdateFunctionPointers r = UpdateFunctionPointers_loop (m_fn_ptr_map r) r"

subsection \<open>Compiling and linking one unit (lines 338 to 402)\<close>

text \<open>
  \<^verbatim>\<open>CHECK_ERROR\<close> returns \<^verbatim>\<open>true\<close> from the enclosing function, here too. The result of
  \<^verbatim>\<open>AddModule\<close> is not looked at.
\<close>

definition prepare_and_link :: "llvm_module \<Rightarrow> repl \<Rightarrow> repl" where
  "prepare_and_link llvm_module r =
     (let r3 = RemoveRedeclarationsFromJIT llvm_module r;
          (m1, tbl) = AddFunctionPointers llvm_module (m_fn_ptr_map r3);
          r4 = r3\<lparr>m_fn_ptr_map := tbl\<rparr>;
          m2 = ReplaceFunctionCallsWithIndirectFunctionCalls m1 (m_fn_ptr_map r4)
      in record_event (EvAddModule (defined_symbols m2)) (r4\<lparr>m_jit := JIT_AddModule m2 (m_jit r4)\<rparr>))"

definition CompileSourceFileToIRAndAddToJIT :: "codegen \<Rightarrow> repl \<Rightarrow> bool \<times> repl" where
  "CompileSourceFileToIRAndAddToJIT cg r =
     (let r1 = diagnose (diag_SILGeneration cg) r in
      if hadAnyError r1 then (True, r1)
      else
        let r2 = diagnose (diag_SILDiagnosticPasses cg) r1 in
        if hadAnyError r2 then (True, r2)
        else if hadAnyError r2 then (True, r2)
        else
          (case UpdateFunctionPointers (prepare_and_link (ir_module cg) r2) of
             (Some e, r6) \<Rightarrow> (False, Log_Error ''Unable to update function pointers'' r6)
           | (None, r6) \<Rightarrow> (True, r6)))"

subsection \<open>One input line (lines 143 to 313)\<close>

text \<open>The loop of \<^verbatim>\<open>parseIntoSourceFile\<close> with its \<^verbatim>\<open>CHECK_ERROR\<close> (lines 176 to 185).\<close>

fun parseIntoSourceFile :: "bool list \<Rightarrow> repl \<Rightarrow> repl" where
  "parseIntoSourceFile [] r = r"
| "parseIntoSourceFile (d # ds) r =
     (let r' = diagnose d r in if hadAnyError r' then r' else parseIntoSourceFile ds r')"

text \<open>\<^verbatim>\<open>LoadImportedModules\<close> (lines 404 to 411).\<close>

fun LoadImportedModules :: "decl list \<Rightarrow> repl \<Rightarrow> repl" where
  "LoadImportedModules [] r = r"
| "LoadImportedModules (ImportDecl m # ds) r = LoadImportedModules ds (r\<lparr>m_imports := m_imports r @ [m]\<rparr>)"
| "LoadImportedModules (d # ds) r = LoadImportedModules ds r"

text \<open>
  The redeclaration checks of lines 230 to 253. For a function: the file registered under
  the unmangled name must hold exactly one declaration (the assertion of line 239), and
  that declaration must be a function; in a playground the mangled name must be new. For
  any other value declaration the name must be new.
\<close>

datatype verdict = Accepted | InvalidRedeclaration string | AssertionViolated

definition validate :: "repl \<Rightarrow> decl \<Rightarrow> verdict" where
  "validate r d =
     (case d of
        FuncDecl unmangled_name name \<Rightarrow>
          (case m_decl_map r unmangled_name of
             Some h \<Rightarrow>
               (case src_files r h of
                  [d0] \<Rightarrow>
                    if \<not> isa_FuncDecl d0 then InvalidRedeclaration unmangled_name
                    else if m_is_playground r \<and> m_decl_map r name \<noteq> None
                    then InvalidRedeclaration unmangled_name
                    else Accepted
                | _ \<Rightarrow> AssertionViolated)
           | None \<Rightarrow>
               if m_is_playground r \<and> m_decl_map r name \<noteq> None
               then InvalidRedeclaration unmangled_name
               else Accepted)
      | ValueDecl name \<Rightarrow>
          if m_decl_map r name \<noteq> None then InvalidRedeclaration name else Accepted
      | _ \<Rightarrow> Accepted)"

fun unmangled_name_of :: "decl \<Rightarrow> string" where
  "unmangled_name_of (FuncDecl unmangled_name name) = unmangled_name"
| "unmangled_name_of (ValueDecl name) = name"
| "unmangled_name_of d = []"

fun name_of :: "decl \<Rightarrow> string" where
  "name_of (FuncDecl unmangled_name name) = name"
| "name_of (ValueDecl name) = name"
| "name_of d = []"

text \<open>
  Lines 254 to 281: the file of the unit is a new one when \<open>name\<close> is not registered (its
  module is then imported by later lines), the registered one otherwise; both names are
  registered for it and it holds the one declaration.
\<close>

definition register_decl :: "decl \<Rightarrow> repl \<Rightarrow> repl" where
  "register_decl d r =
     (let unmangled_name = unmangled_name_of d;
          name = name_of d;
          (src_file, r1) =
            (case m_decl_map r name of
               None \<Rightarrow> (next_src_file r,
                         r\<lparr>next_src_file := Suc (next_src_file r), m_imports := m_imports r @ [name]\<rparr>)
             | Some h \<Rightarrow> (h, r));
          r2 = r1\<lparr>m_decl_map := (m_decl_map r1)(unmangled_name \<mapsto> src_file)\<rparr>;
          r3 = r2\<lparr>m_decl_map := (m_decl_map r2)(name \<mapsto> src_file)\<rparr>
      in r3\<lparr>src_files := (src_files r3)(src_file := [d])\<rparr>)"

text \<open>
  How the loop over the declarations ends: it runs through (with the mangled name of the
  entry function, if one was seen), or the function returns from inside it, or the
  assertion fails.
\<close>

datatype loop_end = RanThrough "string option" | ReturnedEarly bool | AssertionFailure

fun entry_function :: "string \<Rightarrow> decl \<Rightarrow> string option \<Rightarrow> string option" where
  "entry_function module_name (FuncDecl unmangled_name name) res_fn =
     (if unmangled_name = module_name then Some name else res_fn)"
| "entry_function module_name d res_fn = res_fn"

definition PRINT_INVALID_REDECLARATION :: "string \<Rightarrow> repl \<Rightarrow> loop_end \<times> repl" where
  "PRINT_INVALID_REDECLARATION name r =
     (ReturnedEarly True, print (''Invalid redeclaration of '' @ name @ [CHR 0x0A]) r)"

fun ExecuteSwift_loop :: "string \<Rightarrow> (decl \<times> codegen) list \<Rightarrow> string option \<Rightarrow> repl
    \<Rightarrow> loop_end \<times> repl" where
  "ExecuteSwift_loop module_name [] res_fn r = (RanThrough res_fn, r)"
| "ExecuteSwift_loop module_name (dc # rest) res_fn r =
     (if \<not> isa_ValueDecl (fst dc) then ExecuteSwift_loop module_name rest res_fn r
      else
        (case validate r (fst dc) of
           AssertionViolated \<Rightarrow> (AssertionFailure, r)
         | InvalidRedeclaration name \<Rightarrow> PRINT_INVALID_REDECLARATION name r
         | Accepted \<Rightarrow>
             (case CompileSourceFileToIRAndAddToJIT (snd dc) (register_decl (fst dc) r) of
                (False, r') \<Rightarrow> (ReturnedEarly True, r')
              | (True, r') \<Rightarrow>
                  ExecuteSwift_loop module_name rest (entry_function module_name (fst dc) res_fn) r')))"

text \<open>Lines 293 to 312: the entry function of the line is looked up and called.\<close>

fun invoke_entry :: "string option \<Rightarrow> repl \<Rightarrow> bool \<times> repl" where
  "invoke_entry None r = (True, r)"
| "invoke_entry (Some mangled_fn_name) r =
     (case JIT_LookupSymbol mangled_fn_name (m_jit r) of
        Some a \<Rightarrow> (True, record_event (EvInvoke mangled_fn_name a) r)
      | None \<Rightarrow> (False, Log_Error (''Failed to load function '' @ mangled_fn_name) r))"

datatype retval = Returned bool | Aborted

definition AddToSrcMgr_module_name :: "repl \<Rightarrow> string" where
  "AddToSrcMgr_module_name r = ''__repl_'' @ to_string (m_curr_input_number r)"

definition declare_and_run :: "turn \<Rightarrow> repl \<Rightarrow> retval \<times> repl" where
  "declare_and_run t r =
     (let r1 = LoadImportedModules (map fst (decls t)) r;
          r2 = r1\<lparr>m_jit := fold JIT_AddDylib (link_libraries t) (m_jit r1)\<rparr>
      in case ExecuteSwift_loop (AddToSrcMgr_module_name r2) (decls t) None r2 of
           (AssertionFailure, r') \<Rightarrow> (Aborted, r')
         | (ReturnedEarly b, r') \<Rightarrow> (Returned b, r')
         | (RanThrough res_fn, r') \<Rightarrow> (case invoke_entry res_fn r' of (b, r'') \<Rightarrow> (Returned b, r'')))"

text \<open>
  Lines 151 to 204: the frontend's stages, each followed by \<^verbatim>\<open>CHECK_ERROR\<close>. \<open>None\<close>: all
  stages passed; \<open>Some b\<close>: \<^verbatim>\<open>ExecuteSwift\<close> returns \<open>b\<close> at once.
\<close>

definition frontend :: "turn \<Rightarrow> repl \<Rightarrow> bool option \<times> repl" where
  "frontend t r =
     (let r1 = diagnose (diag_ModuleDecl_create t) r in
      if hadAnyError r1 then (Some True, r1)
      else if src_file_is_null t then (Some False, Log_Error ''Unable to create SourceFile!'' r1)
      else
        let r2 = diagnose (diag_addFile t) r1 in
        if hadAnyError r2 then (Some True, r2)
        else
          let r3 = parseIntoSourceFile (diag_parseIntoSourceFile t) r2 in
          if hadAnyError r3 then (Some True, r3)
          else
            let r4 = diagnose (diag_performNameBinding t) r3 in
            if hadAnyError r4 then (Some True, r4)
            else
              let r5 = diagnose (diag_performTypeChecking t) r4 in
              if hadAnyError r5 then (Some True, r5)
              else
                let r6 = diagnose (diag_typeCheckExternalDefinitions t) r5 in
                if hadAnyError r6 then (Some True, r6) else (None, r6))"

definition ExecuteSwift :: "turn \<Rightarrow> repl \<Rightarrow> retval \<times> repl" where
  "ExecuteSwift t r =
     (let r0 = r\<lparr>m_curr_input_number := m_curr_input_number r + 1, hadAnyError := False\<rparr> in
      if IsExitString (line t) then (Returned False, r0)
      else
        (case frontend t r0 of
           (Some b, r') \<Rightarrow> (Returned b, r')
         | (None, r') \<Rightarrow> declare_and_run t r'))"

subsection \<open>Reading a line (lines 105 to 115) and the outer loop\<close>

text \<open>
  The input is the list of lines still to come. At the end of the input \<^verbatim>\<open>std::getline\<close>
  keeps yielding the empty string, so the loop of \<^verbatim>\<open>GetLine\<close> never ends: \<open>None\<close>.
\<close>

definition prompt :: "repl \<Rightarrow> repl" where
  "prompt r = print (to_string (m_curr_input_number r) @ ''> '') r"

fun GetLine_loop :: "turn list \<Rightarrow> repl \<Rightarrow> (turn \<times> turn list) option \<times> repl" where
  "GetLine_loop [] r = (None, r)"
| "GetLine_loop (t # ts) r =
     (if line t = [] then GetLine_loop ts (prompt r) else (Some (t, ts), prompt r))"

definition GetLine :: "turn list \<Rightarrow> repl \<Rightarrow> (turn \<times> turn list) option \<times> repl" where
  "GetLine input r = GetLine_loop input (print [CHR 0x0A] r)"

text \<open>
  Modelled from the spec: the Turn Controller's \<^verbatim>\<open>runLoop\<close> (the file with \<^verbatim>\<open>main\<close> is not
  among the sources). It reads a line with \<^verbatim>\<open>GetLine\<close> and hands it to \<^verbatim>\<open>ExecuteSwift\<close>, which
  is where the source keeps the turn counter and the test for the exit tokens (lines 145
  to 149). The loop ends when the line was an exit token; after any other line it prompts
  again, whatever \<^verbatim>\<open>ExecuteSwift\<close> returned.
\<close>

datatype loop_result = Exited "turn list" | Starved | Crashed

function runLoop :: "turn list \<Rightarrow> repl \<Rightarrow> loop_result \<times> repl" where
  "runLoop input r =
     (case GetLine input r of
        (None, r') \<Rightarrow> (Starved, r')
      | (Some (t, ts), r') \<Rightarrow>
          (case ExecuteSwift t r' of
             (Aborted, r'') \<Rightarrow> (Crashed, r'')
           | (Returned b, r'') \<Rightarrow>
               if IsExitString (line t) then (Exited ts, r'') else runLoop ts r''))"
  by pat_completeness auto
termination
proof -
  have shorter: "length ts < length input"
    if "GetLine_loop input r = (Some (t, ts), r')" for input r t ts r'
    using that
  proof (induction input arbitrary: r)
    case Nil
    then show ?case by simp
  next
    case (Cons a input)
    show ?case
    proof (cases "line a = []")
      case True
      with Cons.prems have "GetLine_loop input (prompt r) = (Some (t, ts), r')" by simp
      from Cons.IH [OF this] show ?thesis by simp
    next
      case False
      with Cons.prems show ?thesis by simp
    qed
  qed
  show ?thesis
    by (relation "measure (\<lambda>(input, r). length input)")
       (auto simp: GetLine_def dest: shorter [OF sym])
qed

declare runLoop.simps [simp del]

section \<open>Concrete inputs\<close>

text \<open>
  Builders for the inputs at which the theorems below are instantiated: a function a unit
  defines with external linkage, a function it only declares, code generation that raises
  no diagnostic, and an input line the frontend accepts without a diagnostic.
\<close>

definition defined_function :: "string \<Rightarrow> instr list \<Rightarrow> llvm_function" where
  "defined_function n b = \<lparr>getName = n, isDeclaration = False, hasExternalLinkage = True, body = b\<rparr>"

definition declared_function :: "string \<Rightarrow> llvm_function" where
  "declared_function n = \<lparr>getName = n, isDeclaration = True, hasExternalLinkage = True, body = []\<rparr>"

definition unit_of :: "llvm_function list \<Rightarrow> codegen" where
  "unit_of fs = \<lparr>diag_SILGeneration = False, diag_SILDiagnosticPasses = False,
     ir_module = \<lparr>mod_functions = fs, mod_globals = []\<rparr>\<rparr>"

definition accepted_line :: "string \<Rightarrow> (decl \<times> codegen) list \<Rightarrow> turn" where
  "accepted_line ln ds = \<lparr>line = ln, diag_ModuleDecl_create = False, src_file_is_null = False,
     diag_addFile = False, diag_parseIntoSourceFile = [False], diag_performNameBinding = False,
     diag_performTypeChecking = False, diag_typeCheckExternalDefinitions = False,
     link_libraries = [], decls = ds\<rparr>"

definition exit_line :: turn where
  "exit_line = accepted_line ''exit'' []"

text \<open>A line that declares a variable, and a later line that declares it again before a function.\<close>

definition variable_line :: turn where
  "variable_line = accepted_line ''var x = 1'' [(ValueDecl ''x'', unit_of [])]"

definition redeclaring_line :: turn where
  "redeclaring_line = accepted_line ''var x = 2; func h() {}''
     [(ValueDecl ''x'', unit_of []),
      (FuncDecl ''h'' ''$h'', unit_of [defined_function ''$h'' [Opaque 0]])]"

text \<open>A line that declares a function, and a line the type checker rejects.\<close>

definition function_unit :: codegen where
  "function_unit = unit_of [defined_function ''$f'' [Opaque 1]]"

definition function_line :: turn where
  "function_line = accepted_line ''func f() {}'' [(FuncDecl ''f'' ''$f'', function_unit)]"

definition ill_typed_line :: turn where
  "ill_typed_line = (accepted_line ''let n: Int = true'' [])\<lparr>diag_performTypeChecking := True\<rparr>"

text \<open>
  A line that declares a variable whose name is the link symbol of a function \<^verbatim>\<open>f\<close> (dollar
  identifiers are enabled, line 449).
\<close>

definition dollar_variable_line :: turn where
  "dollar_variable_line = accepted_line ''var $s8__REPL__1fyyF = 0''
     [(ValueDecl ''$s8__REPL__1fyyF'', unit_of [])]"

text \<open>
  A session whose linker refuses to remove the symbol \<^verbatim>\<open>$h\<close>, a line that declares a function
  \<^verbatim>\<open>f\<close> whose unit defines the two symbols \<^verbatim>\<open>$f\<close> and \<^verbatim>\<open>$h\<close> (the number tells the bodies
  of different lines apart), and a line that declares an unrelated function \<^verbatim>\<open>k\<close>.
\<close>

definition stubborn_session :: repl where
  "stubborn_session = (REPL_Create False)\<lparr>m_jit := JIT_Create\<lparr>jit_unremovable := [''$h'']\<rparr>\<rparr>"

definition pair_unit :: "nat \<Rightarrow> codegen" where
  "pair_unit k = unit_of [defined_function ''$f'' [Opaque k], defined_function ''$h'' [Opaque k]]"

definition pair_line :: "nat \<Rightarrow> turn" where
  "pair_line k = accepted_line ''func f() { h() }'' [(FuncDecl ''f'' ''$f'', pair_unit k)]"

definition other_function_line :: turn where
  "other_function_line = accepted_line ''func k() {}''
     [(FuncDecl ''k'' ''$k'', unit_of [defined_function ''$k'' [Opaque 3]])]"

text \<open>A line that calls \<^verbatim>\<open>f\<close>: its only declaration is the entry function of the third line.\<close>

definition calling_unit :: codegen where
  "calling_unit = unit_of [defined_function ''$r3'' [CallDirect ''$f''], declared_function ''$f'']"

definition calling_line :: turn where
  "calling_line = accepted_line ''f()'' [(FuncDecl ''__repl_3'' ''$r3'', calling_unit)]"

text \<open>
  A session whose linker refuses to remove the symbol \<^verbatim>\<open>$f\<close>, and a line that declares
  \<^verbatim>\<open>f\<close> again and has an entry function.
\<close>

definition pinned_session :: repl where
  "pinned_session = (REPL_Create False)\<lparr>m_jit := JIT_Create\<lparr>jit_unremovable := [''$f'']\<rparr>\<rparr>"

definition redefining_unit :: codegen where
  "redefining_unit = unit_of [defined_function ''$f'' [Opaque 2]]"

definition redefining_line :: turn where
  "redefining_line = accepted_line ''func f() {}; f()''
     [(FuncDecl ''f'' ''$f'', redefining_unit), (FuncDecl ''__repl_3'' ''$r3'', calling_unit)]"

text \<open>
  A line that type checks but whose entry function fails the SIL diagnostic passes (a
  constant is read before it is initialised).
\<close>

definition uninitialised_line :: turn where
  "uninitialised_line = accepted_line ''let n: Int; print(n)''
     [(FuncDecl ''__repl_2'' ''$r2'',
       (unit_of [defined_function ''$r2'' [Opaque 0]])\<lparr>diag_SILDiagnosticPasses := True\<rparr>)]"





text \<open>
  A line that declares a function \<^verbatim>\<open>f\<close> whose unit also defines a global variable \<^verbatim>\<open>$n\<close>
  (the storage of a static property); the number tells the bodies of different lines
  apart.
\<close>

definition static_unit :: "nat \<Rightarrow> codegen" where
  "static_unit k = \<lparr>diag_SILGeneration = False, diag_SILDiagnosticPasses = False,
     ir_module = \<lparr>mod_functions = [defined_function ''$f'' [Opaque k]], mod_globals = [''$n'']\<rparr>\<rparr>"

definition static_line :: "nat \<Rightarrow> turn" where
  "static_line k = accepted_line ''func f() { struct S { static var n = 0 } }''
     [(FuncDecl ''f'' ''$f'', static_unit k)]"


section \<open>Notions used in the statements\<close>

text \<open>The frontend raises a diagnostic at one of its stages.\<close>

definition frontend_diagnostic :: "turn \<Rightarrow> bool" where
  "frontend_diagnostic t =
     (diag_ModuleDecl_create t \<or> diag_addFile t \<or> list_ex id (diag_parseIntoSourceFile t)
      \<or> diag_performNameBinding t \<or> diag_performTypeChecking t
      \<or> diag_typeCheckExternalDefinitions t)"

text \<open>Every registered source file holds exactly one declaration (what line 239 asserts).\<close>

definition registry_ok :: "repl \<Rightarrow> bool" where
  "registry_ok r = (\<forall>n h. m_decl_map r n = Some h \<longrightarrow> length (src_files r h) = 1)"

text \<open>An entry of the indirection table whose function symbol and slot symbol are both bound.\<close>

definition resolvable :: "(string \<rightharpoonup> nat) \<Rightarrow> string \<times> string \<Rightarrow> bool" where
  "resolvable syms e = (syms (fst e) \<noteq> None \<and> syms (snd e) \<noteq> None)"

text \<open>The write that the patching pass performs for an entry, as an event and as a change of memory.\<close>

definition patch_event :: "(string \<rightharpoonup> nat) \<Rightarrow> string \<times> string \<Rightarrow> event" where
  "patch_event syms e = EvPatch (fst e) (the (syms (snd e))) (the (syms (fst e)))"

definition patch_memory :: "(string \<rightharpoonup> nat) \<Rightarrow> string \<times> string \<Rightarrow> (nat \<rightharpoonup> nat) \<Rightarrow> (nat \<rightharpoonup> nat)" where
  "patch_memory syms e mem = mem(the (syms (snd e)) \<mapsto> the (syms (fst e)))"

text \<open>The names of the functions a unit defines with external linkage, in the order of the module.\<close>

definition external_names :: "llvm_function list \<Rightarrow> string list" where
  "external_names fns = map getName (filter defines_external fns)"

text \<open>Lines 58 and 59 on the table alone, and one iteration of the loop of lines 41 to 60.\<close>

definition ensure_entry :: "string \<Rightarrow> (string \<times> string) list \<Rightarrow> (string \<times> string) list" where
  "ensure_entry name tbl = (if map_of tbl name = None then AList.update name [] tbl else tbl)"

definition remove_one :: "string \<Rightarrow> repl \<Rightarrow> repl" where
  "remove_one name r =
     (let (err, j) = JIT_RemoveSymbol name (m_jit r);
          r1 = record_event (EvRemoveSymbol name) (r\<lparr>m_jit := j\<rparr>);
          r2 = handle_remove_error name err r1
      in if map_of (m_fn_ptr_map r2) name = None
         then r2\<lparr>m_fn_ptr_map := AList.update name [] (m_fn_ptr_map r2)\<rparr>
         else r2)"

text \<open>The linker refuses to remove a bound symbol.\<close>

definition refused :: "jit \<Rightarrow> string \<Rightarrow> bool" where
  "refused j name = (jit_symbols j name \<noteq> None \<and> name \<in> set (jit_unremovable j))"

text \<open>The table and the module as they are when the unit is handed to \<^verbatim>\<open>AddModule\<close> (lines 377 to 381).\<close>

definition prepared_table :: "llvm_module \<Rightarrow> repl \<Rightarrow> (string \<times> string) list" where
  "prepared_table llvm_module r =
     snd (AddFunctionPointers llvm_module (m_fn_ptr_map (RemoveRedeclarationsFromJIT llvm_module r)))"

definition prepared_module :: "llvm_module \<Rightarrow> repl \<Rightarrow> llvm_module" where
  "prepared_module llvm_module r =
     ReplaceFunctionCallsWithIndirectFunctionCalls
       (fst (AddFunctionPointers llvm_module (m_fn_ptr_map (RemoveRedeclarationsFromJIT llvm_module r))))
       (prepared_table llvm_module r)"

text \<open>
  The events of one unit, in the order the claims ask for: removal requests, then the one
  call of \<^verbatim>\<open>AddModule\<close>, then slot patches.
\<close>

fun is_remove :: "event \<Rightarrow> bool" where
  "is_remove (EvRemoveSymbol n) = True"
| "is_remove e = False"

fun is_patch :: "event \<Rightarrow> bool" where
  "is_patch (EvPatch n c a) = True"
| "is_patch e = False"

definition unit_shaped :: "event list \<Rightarrow> bool" where
  "unit_shaped evs =
     (case dropWhile is_remove evs of
        EvAddModule syms # ps \<Rightarrow> list_all is_patch ps
      | _ \<Rightarrow> False)"

text \<open>
  No entry of the table but those of the symbol \<open>n\<close> has its slot in the cell \<open>c\<close>.
\<close>

definition sole_slot :: "repl \<Rightarrow> string \<Rightarrow> nat \<Rightarrow> bool" where
  "sole_slot r n c =
     list_all (\<lambda>e. jit_symbols (m_jit r) (snd e) = Some c \<longrightarrow> fst e = n) (m_fn_ptr_map r)"

text \<open>
  What holds of the table and of the linker in every state a session can reach: the table
  has one entry per symbol, every entry's slot is the one named after its symbol,
  different bound symbols have different addresses, and every bound address lies below
  the next free one.
\<close>

definition session_inv :: "repl \<Rightarrow> bool" where
  "session_inv r =
     (distinct (map fst (m_fn_ptr_map r))
      \<and> list_all (\<lambda>e. snd e = slot_name (fst e)) (m_fn_ptr_map r)
      \<and> inj_on (jit_symbols (m_jit r)) (dom (jit_symbols (m_jit r)))
      \<and> (\<forall>n a. jit_symbols (m_jit r) n = Some a \<longrightarrow> a < jit_next (m_jit r))
      \<and> (\<forall>a. jit_code (m_jit r) a \<noteq> None \<longrightarrow> a < jit_next (m_jit r))
      \<and> (\<forall>n a. jit_symbols (m_jit r) n = Some a \<and> jit_code (m_jit r) a \<noteq> None \<longrightarrow>
            n \<in> fst ` set (m_fn_ptr_map r)))"

text \<open>
  The table while a unit is prepared: the symbols in \<open>pending\<close> may still have the empty
  placeholder of line 59.
\<close>

definition table_ok :: "string set \<Rightarrow> (string \<times> string) list \<Rightarrow> bool" where
  "table_ok pending tbl =
     (distinct (map fst tbl)
      \<and> (\<forall>e \<in> set tbl. snd e = slot_name (fst e) \<or> (snd e = [] \<and> fst e \<in> pending)))"

definition symbols_ok :: "(string \<rightharpoonup> nat) \<Rightarrow> nat \<Rightarrow> bool" where
  "symbols_ok tab a = (inj_on tab (dom tab) \<and> (\<forall>n b. tab n = Some b \<longrightarrow> b < a))"

definition code_ok :: "(string \<times> string) list \<Rightarrow> jit \<Rightarrow> bool" where
  "code_ok tbl j =
     ((\<forall>a. jit_code j a \<noteq> None \<longrightarrow> a < jit_next j)
      \<and> (\<forall>n a. jit_symbols j n = Some a \<and> jit_code j a \<noteq> None \<longrightarrow> n \<in> fst ` set tbl))"

text \<open>
  The part of the state that the indirection table and the linked image make up: the
  table, the bindings, the linked code, the memory cells and the next free address.
\<close>

definition link_view :: "repl \<Rightarrow>
    (string \<times> string) list \<times> (string \<rightharpoonup> nat) \<times> (nat \<rightharpoonup> linked_instr list) \<times> (nat \<rightharpoonup> nat) \<times> nat" where
  "link_view r =
     (m_fn_ptr_map r, jit_symbols (m_jit r), jit_code (m_jit r), jit_memory (m_jit r),
      jit_next (m_jit r))"

text \<open>
  The state in which the loop over the declarations of a line starts (line 218), when the
  frontend has raised no diagnostic, and the name of the line's module.
\<close>

definition at_declarations :: "turn \<Rightarrow> repl \<Rightarrow> repl" where
  "at_declarations t r =
     (let r0 = r\<lparr>m_curr_input_number := m_curr_input_number r + 1, hadAnyError := False\<rparr>;
          r1 = LoadImportedModules (map fst (decls t)) (snd (frontend t r0))
      in r1\<lparr>m_jit := fold JIT_AddDylib (link_libraries t) (m_jit r1)\<rparr>)"

definition line_module :: "turn \<Rightarrow> repl \<Rightarrow> string" where
  "line_module t r = AddToSrcMgr_module_name (at_declarations t r)"

text \<open>The state after a sequence of input lines, executed one after the other.\<close>

definition run :: "turn list \<Rightarrow> repl \<Rightarrow> repl" where
  "run ts r = fold (\<lambda>t r. snd (ExecuteSwift t r)) ts r"

text \<open>
  The symbols a unit can bind or unbind: the functions it defines with external linkage,
  its pointer globals, and the slots of its functions. The same for all units of a line,
  and the functions alone.
\<close>

definition unit_symbols :: "llvm_module \<Rightarrow> string list" where
  "unit_symbols m =
     external_names (mod_functions m) @ mod_globals m
       @ map slot_name (external_names (mod_functions m))"

definition turn_symbols :: "turn \<Rightarrow> string list" where
  "turn_symbols t = concat (map (\<lambda>dc. unit_symbols (ir_module (snd dc))) (decls t))"


text \<open>
  What a patch event does to the memory, and an event that is the patch of an entry of
  the table whose two symbols resolve.
\<close>

fun apply_patch :: "event \<Rightarrow> (nat \<rightharpoonup> nat) \<Rightarrow> (nat \<rightharpoonup> nat)" where
  "apply_patch (EvPatch n c a) mem = mem(c \<mapsto> a)"
| "apply_patch e mem = mem"

definition patch_of :: "(string \<rightharpoonup> nat) \<Rightarrow> (string \<times> string) list \<Rightarrow> event \<Rightarrow> bool" where
  "patch_of syms tbl ev = list_ex (\<lambda>e. resolvable syms e \<and> ev = patch_event syms e) tbl"








section \<open>Evaluation and frame lemmas\<close>

lemmas run_defs = ExecuteSwift_def frontend_def declare_and_run_def validate_def register_decl_def
  CompileSourceFileToIRAndAddToJIT_def prepare_and_link_def RemoveRedeclarationsFromJIT_def
  AddFunctionPointers_def ReplaceFunctionCallsWithIndirectFunctionCalls_def UpdateFunctionPointers_def
  JIT_RemoveSymbol_def JIT_LookupSymbol_def JIT_AddModule_def JIT_AddDylib_def JIT_Create_def
  REPL_Create_def link_conflict_def defined_symbols_def external_definitions_def
  defines_external_def diagnose_def Log_Error_def print_def record_event_def write_slot_def
  IsExitString_def AddToSrcMgr_module_name_def PRINT_INVALID_REDECLARATION_def
  has_slot_def slot_name_def rewrite_function_def
  accepted_line_def unit_of_def defined_function_def declared_function_def function_unit_def
  Let_def

lemmas notion_defs = resolvable_def patch_event_def patch_memory_def external_names_def
  ensure_entry_def refused_def prepared_table_def prepared_module_def

lemma to_string_small: "to_string 2 = ''2''" "to_string 3 = ''3''" "to_string 4 = ''4''"
  by (simp_all add: to_string.simps digit_char_def)

lemma parseIntoSourceFile_flag:
  "parseIntoSourceFile ds r = r\<lparr>hadAnyError := (hadAnyError r \<or> list_ex id ds)\<rparr>"
  by (induction ds arbitrary: r) (auto simp: diagnose_def Let_def)

lemma frontend_diagnosed:
  assumes "frontend_diagnostic t" "\<not> hadAnyError r"
  shows "frontend t r =
           (if src_file_is_null t \<and> \<not> diag_ModuleDecl_create t
            then (Some False, Log_Error ''Unable to create SourceFile!'' r)
            else (Some True, r\<lparr>hadAnyError := True\<rparr>))"
proof -
  from assms(2) have same: "r\<lparr>hadAnyError := False\<rparr> = r" by simp
  from assms show ?thesis
    by (auto simp: frontend_def frontend_diagnostic_def diagnose_def Let_def
        parseIntoSourceFile_flag same)
qed

lemma ExecuteSwift_loop_append:
  "ExecuteSwift_loop mn (pre @ rest) res r =
     (case ExecuteSwift_loop mn pre res r of
        (RanThrough res', r') \<Rightarrow> ExecuteSwift_loop mn rest res' r'
      | (ReturnedEarly b, r') \<Rightarrow> (ReturnedEarly b, r')
      | (AssertionFailure, r') \<Rightarrow> (AssertionFailure, r'))"
proof (induction pre arbitrary: res r)
  case Nil
  then show ?case by simp
next
  case (Cons dc pre)
  then show ?case
    by (simp add: PRINT_INVALID_REDECLARATION_def split: verdict.splits prod.splits bool.splits)
qed

lemma validate_rejects_values:
  "validate r d = InvalidRedeclaration n \<Longrightarrow> isa_ValueDecl d \<and> n = unmangled_name_of d"
  by (cases d) (auto simp: validate_def split: option.splits list.splits if_splits)

lemma Update_loop_state:
  "snd (UpdateFunctionPointers_loop tbl r) =
     r\<lparr>m_jit := (m_jit r)\<lparr>jit_memory :=
            fold (patch_memory (jit_symbols (m_jit r)))
              (takeWhile (resolvable (jit_symbols (m_jit r))) tbl) (jit_memory (m_jit r))\<rparr>,
       trace := trace r @ map (patch_event (jit_symbols (m_jit r)))
                  (takeWhile (resolvable (jit_symbols (m_jit r))) tbl)\<rparr>"
proof (induction tbl arbitrary: r)
  case Nil
  then show ?case by simp
next
  case (Cons e tbl)
  show ?case
  proof (cases "resolvable (jit_symbols (m_jit r)) e")
    case False
    then show ?thesis
      by (auto simp: resolvable_def JIT_LookupSymbol_def split: option.splits)
  next
    case True
    then obtain fn ptr where b: "jit_symbols (m_jit r) (fst e) = Some fn"
        "jit_symbols (m_jit r) (snd e) = Some ptr"
      by (auto simp: resolvable_def)
    let ?r1 = "record_event (EvPatch (fst e) ptr fn) (r\<lparr>m_jit := write_slot ptr fn (m_jit r)\<rparr>)"
    have same: "jit_symbols (m_jit ?r1) = jit_symbols (m_jit r)"
      by (simp add: record_event_def write_slot_def)
    have step: "UpdateFunctionPointers_loop (e # tbl) r = UpdateFunctionPointers_loop tbl ?r1"
      using b by (simp add: JIT_LookupSymbol_def)
    have pm: "patch_memory (jit_symbols (m_jit r)) e (jit_memory (m_jit r)) = (jit_memory (m_jit r))(ptr \<mapsto> fn)"
      by (simp add: patch_memory_def b)
    have pe: "patch_event (jit_symbols (m_jit r)) e = EvPatch (fst e) ptr fn"
      by (simp add: patch_event_def b)
    show ?thesis
      unfolding step Cons.IH same using True
      by (simp add: record_event_def write_slot_def pm pe)
  qed
qed

lemma Update_loop_error:
  "fst (UpdateFunctionPointers_loop tbl r) =
     (case dropWhile (resolvable (jit_symbols (m_jit r))) tbl of
        [] \<Rightarrow> None
      | e # rest \<Rightarrow> Some (LookupFailed (if jit_symbols (m_jit r) (fst e) = None then fst e else snd e)))"
proof (induction tbl arbitrary: r)
  case Nil
  then show ?case by simp
next
  case (Cons e tbl)
  show ?case
  proof (cases "resolvable (jit_symbols (m_jit r)) e")
    case False
    then show ?thesis
      by (auto simp: resolvable_def JIT_LookupSymbol_def split: option.splits)
  next
    case True
    then obtain fn ptr where b: "jit_symbols (m_jit r) (fst e) = Some fn"
        "jit_symbols (m_jit r) (snd e) = Some ptr"
      by (auto simp: resolvable_def)
    let ?r1 = "record_event (EvPatch (fst e) ptr fn) (r\<lparr>m_jit := write_slot ptr fn (m_jit r)\<rparr>)"
    have same: "jit_symbols (m_jit ?r1) = jit_symbols (m_jit r)"
      by (simp add: record_event_def write_slot_def)
    have step: "UpdateFunctionPointers_loop (e # tbl) r = UpdateFunctionPointers_loop tbl ?r1"
      using b by (simp add: JIT_LookupSymbol_def)
    show ?thesis
      unfolding step Cons.IH same using True by simp
  qed
qed

lemma Update_loop_ok_iff:
  "fst (UpdateFunctionPointers_loop tbl r) = None \<longleftrightarrow> list_all (resolvable (jit_symbols (m_jit r))) tbl"
proof (cases "dropWhile (resolvable (jit_symbols (m_jit r))) tbl")
  case Nil
  then have "list_all (resolvable (jit_symbols (m_jit r))) tbl"
    by (simp add: list_all_iff)
  then show ?thesis unfolding Update_loop_error Nil by simp
next
  case (Cons e rest)
  then have "dropWhile (resolvable (jit_symbols (m_jit r))) tbl \<noteq> []" by simp
  then have "\<not> list_all (resolvable (jit_symbols (m_jit r))) tbl"
    by (simp add: list_all_iff)
  then show ?thesis unfolding Update_loop_error Cons by simp
qed

lemma Remove_loop_fold:
  "RemoveRedeclarationsFromJIT_loop fns r = fold remove_one (external_names fns) r"
proof (induction fns arbitrary: r)
  case Nil
  then show ?case by (simp add: external_names_def)
next
  case (Cons fn fns)
  show ?case
  proof (cases "defines_external fn")
    case False
    then show ?thesis using Cons.IH by (simp add: defines_external_def external_names_def)
  next
    case True
    then have "RemoveRedeclarationsFromJIT_loop (fn # fns) r =
        RemoveRedeclarationsFromJIT_loop fns (remove_one (getName fn) r)"
      by (simp add: defines_external_def remove_one_def Let_def split: prod.splits)
    with True show ?thesis by (simp add: Cons.IH external_names_def)
  qed
qed

lemma remove_one_eq:
  "remove_one name r =
     r\<lparr>m_jit := snd (JIT_RemoveSymbol name (m_jit r)),
       trace := trace r @ [EvRemoveSymbol name],
       error_log := error_log r @
         (if fst (JIT_RemoveSymbol name (m_jit r)) = Some SymbolsCouldNotBeRemoved
          then [''Could not remove symbol'' @ name] else []),
       m_fn_ptr_map := ensure_entry name (m_fn_ptr_map r)\<rparr>"
proof -
  obtain err j where rm: "JIT_RemoveSymbol name (m_jit r) = (err, j)"
    by (cases "JIT_RemoveSymbol name (m_jit r)")
  show ?thesis
  proof (cases err)
    case None
    with rm show ?thesis
      by (simp add: remove_one_def record_event_def ensure_entry_def Let_def)
  next
    case (Some e)
    with rm show ?thesis
      by (cases e) (simp_all add: remove_one_def record_event_def Log_Error_def ensure_entry_def Let_def)
  qed
qed

lemma JIT_RemoveSymbol_snd:
  "snd (JIT_RemoveSymbol name j) =
     j\<lparr>jit_symbols := (if name \<in> set (jit_unremovable j) then jit_symbols j
                        else (jit_symbols j)(name := None))\<rparr>"
  by (auto simp: JIT_RemoveSymbol_def fun_eq_iff)

lemma JIT_RemoveSymbol_fst:
  "fst (JIT_RemoveSymbol name j) =
     (if jit_symbols j name = None then Some SymbolsNotFound
      else if name \<in> set (jit_unremovable j) then Some SymbolsCouldNotBeRemoved else None)"
  by (simp add: JIT_RemoveSymbol_def)

lemma fold_remove_one:
  "fold remove_one names r =
     r\<lparr>m_jit := (m_jit r)\<lparr>jit_symbols :=
           (\<lambda>n. if n \<in> set names \<and> n \<notin> set (jit_unremovable (m_jit r)) then None
                else jit_symbols (m_jit r) n)\<rparr>,
       trace := trace r @ map EvRemoveSymbol names,
       error_log := error_log r @
         map (\<lambda>n. ''Could not remove symbol'' @ n) (filter (refused (m_jit r)) names),
       m_fn_ptr_map := fold ensure_entry names (m_fn_ptr_map r)\<rparr>"
proof (induction names arbitrary: r)
  case Nil
  then show ?case by simp
next
  case (Cons name names)
  let ?r1 = "remove_one name r"
  have j1: "m_jit ?r1 = (m_jit r)\<lparr>jit_symbols :=
      (if name \<in> set (jit_unremovable (m_jit r)) then jit_symbols (m_jit r)
       else (jit_symbols (m_jit r))(name := None))\<rparr>"
    by (simp add: remove_one_eq JIT_RemoveSymbol_snd)
  have ref: "refused (m_jit ?r1) n = refused (m_jit r) n" for n
    by (auto simp: j1 refused_def)
  have syms: "(\<lambda>n. if n \<in> set names \<and> n \<notin> set (jit_unremovable (m_jit ?r1)) then None
                else jit_symbols (m_jit ?r1) n) =
      (\<lambda>n. if n \<in> set (name # names) \<and> n \<notin> set (jit_unremovable (m_jit r)) then None
                else jit_symbols (m_jit r) n)"
    by (auto simp: j1 fun_eq_iff)
  have "fold remove_one (name # names) r = fold remove_one names ?r1" by simp
  also have "\<dots> = ?r1\<lparr>m_jit := (m_jit ?r1)\<lparr>jit_symbols :=
           (\<lambda>n. if n \<in> set names \<and> n \<notin> set (jit_unremovable (m_jit ?r1)) then None
                else jit_symbols (m_jit ?r1) n)\<rparr>,
       trace := trace ?r1 @ map EvRemoveSymbol names,
       error_log := error_log ?r1 @
         map (\<lambda>n. ''Could not remove symbol'' @ n) (filter (refused (m_jit ?r1)) names),
       m_fn_ptr_map := fold ensure_entry names (m_fn_ptr_map ?r1)\<rparr>"
    by (rule Cons.IH)
  also have "\<dots> = r\<lparr>m_jit := (m_jit r)\<lparr>jit_symbols :=
           (\<lambda>n. if n \<in> set (name # names) \<and> n \<notin> set (jit_unremovable (m_jit r)) then None
                else jit_symbols (m_jit r) n)\<rparr>,
       trace := trace r @ map EvRemoveSymbol (name # names),
       error_log := error_log r @
         map (\<lambda>n. ''Could not remove symbol'' @ n) (filter (refused (m_jit r)) (name # names)),
       m_fn_ptr_map := fold ensure_entry (name # names) (m_fn_ptr_map r)\<rparr>"
  proof -
    have t1: "trace ?r1 = trace r @ [EvRemoveSymbol name]"
      and l1: "error_log ?r1 = error_log r @
         (if refused (m_jit r) name then [''Could not remove symbol'' @ name] else [])"
      and tb1: "m_fn_ptr_map ?r1 = ensure_entry name (m_fn_ptr_map r)"
      by (simp_all add: remove_one_eq JIT_RemoveSymbol_fst refused_def)
    have frame: "?r1 = r\<lparr>m_jit := m_jit ?r1, trace := trace ?r1, error_log := error_log ?r1,
        m_fn_ptr_map := m_fn_ptr_map ?r1\<rparr>"
      by (simp add: remove_one_eq)
    have ref': "refused (m_jit ?r1) = refused (m_jit r)"
      using ref by (simp add: fun_eq_iff)
    have js: "(m_jit ?r1)\<lparr>jit_symbols := S\<rparr> = (m_jit r)\<lparr>jit_symbols := S\<rparr>" for S
      by (simp add: j1)
    show ?thesis
      unfolding syms ref' js
      by (subst frame) (simp add: t1 l1 tb1)
  qed
  finally show ?case .
qed

lemma prepare_and_link_eq:
  "prepare_and_link m r =
     (RemoveRedeclarationsFromJIT m r)
       \<lparr>m_fn_ptr_map := prepared_table m r,
        m_jit := JIT_AddModule (prepared_module m r) (m_jit (RemoveRedeclarationsFromJIT m r)),
        trace := trace (RemoveRedeclarationsFromJIT m r) @ [EvAddModule (defined_symbols (prepared_module m r))]\<rparr>"
  by (simp add: prepare_and_link_def prepared_module_def prepared_table_def record_event_def Let_def
      split: prod.splits)

lemma Remove_closed:
  "RemoveRedeclarationsFromJIT m r =
     r\<lparr>m_jit := (m_jit r)\<lparr>jit_symbols :=
           (\<lambda>n. if n \<in> set (external_names (mod_functions m)) \<and> n \<notin> set (jit_unremovable (m_jit r))
                then None else jit_symbols (m_jit r) n)\<rparr>,
       trace := trace r @ map EvRemoveSymbol (external_names (mod_functions m)),
       error_log := error_log r @
         map (\<lambda>n. ''Could not remove symbol'' @ n)
           (filter (refused (m_jit r)) (external_names (mod_functions m))),
       m_fn_ptr_map := fold ensure_entry (external_names (mod_functions m)) (m_fn_ptr_map r)\<rparr>"
  by (simp add: RemoveRedeclarationsFromJIT_def Remove_loop_fold fold_remove_one)

lemma keys_ensure_entry: "fst ` set (ensure_entry n tbl) = insert n (fst ` set tbl)"
  by (auto simp: ensure_entry_def dom_update map_of_eq_None_iff)

lemma keys_fold_ensure_entry:
  "fst ` set (fold ensure_entry ns tbl) = set ns \<union> fst ` set tbl"
  by (induction ns arbitrary: tbl) (auto simp: keys_ensure_entry)

lemma map_of_ensure_entry:
  "map_of (ensure_entry n tbl) k = (if k = n \<and> map_of tbl n = None then Some [] else map_of tbl k)"
  by (auto simp: ensure_entry_def update_conv')

lemma map_of_fold_ensure_entry_old:
  "map_of tbl k = Some s \<Longrightarrow> map_of (fold ensure_entry ns tbl) k = Some s"
proof (induction ns arbitrary: tbl)
  case Nil
  then show ?case by simp
next
  case (Cons a ns)
  from Cons.prems have "map_of (ensure_entry a tbl) k = Some s"
    by (auto simp: map_of_ensure_entry)
  from Cons.IH [OF this] show ?case by simp
qed

lemma AFP_loop_keys:
  "fst ` set tbl \<subseteq> fst ` set (snd (AddFunctionPointers_loop fns (gs, tbl)))"
proof (induction fns arbitrary: gs tbl)
  case Nil
  then show ?case by simp
next
  case (Cons fn fns)
  let ?tbl = "AList.update (getName fn) (slot_name (getName fn)) tbl"
  have sub: "fst ` set tbl \<subseteq> fst ` set ?tbl"
    unfolding dom_update by blast
  show ?case
  proof (cases "defines_external fn \<and> \<not> has_slot tbl (getName fn)")
    case False
    then have "AddFunctionPointers_loop (fn # fns) (gs, tbl) = AddFunctionPointers_loop fns (gs, tbl)"
      by auto
    with Cons.IH [where gs=gs and tbl=tbl] show ?thesis by simp
  next
    case True
    then have eq: "AddFunctionPointers_loop (fn # fns) (gs, tbl) =
        AddFunctionPointers_loop fns (gs @ [slot_name (getName fn)], ?tbl)"
      by simp
    have "fst ` set ?tbl \<subseteq> fst ` set (snd (AddFunctionPointers_loop fns (gs @ [slot_name (getName fn)], ?tbl)))"
      by (rule Cons.IH)
    with sub have "fst ` set tbl \<subseteq> fst ` set (snd (AddFunctionPointers_loop fns (gs @ [slot_name (getName fn)], ?tbl)))"
      by (rule subset_trans)
    then show ?thesis unfolding eq .
  qed
qed

lemma AFP_loop_slot_kept:
  "has_slot tbl k \<Longrightarrow> map_of (snd (AddFunctionPointers_loop fns (gs, tbl))) k = map_of tbl k"
proof (induction fns arbitrary: gs tbl)
  case Nil
  then show ?case by simp
next
  case (Cons fn fns)
  show ?case
  proof (cases "defines_external fn \<and> \<not> has_slot tbl (getName fn)")
    case False
    with Cons show ?thesis by auto
  next
    case True
    with Cons.prems have ne: "getName fn \<noteq> k" by auto
    let ?tbl = "AList.update (getName fn) (slot_name (getName fn)) tbl"
    from ne have same: "map_of ?tbl k = map_of tbl k" by (simp add: update_conv')
    with Cons.prems have "has_slot ?tbl k" by (simp add: has_slot_def)
    from Cons.IH [OF this] True same show ?thesis by simp
  qed
qed

lemma AFP_loop_globals:
  "\<exists>new. fst (AddFunctionPointers_loop fns (gs, tbl)) = gs @ map slot_name new
         \<and> set new \<subseteq> set (external_names fns)"
proof (induction fns arbitrary: gs tbl)
  case Nil
  then show ?case by (simp add: external_names_def)
next
  case (Cons fn fns)
  show ?case
  proof (cases "defines_external fn \<and> \<not> has_slot tbl (getName fn)")
    case False
    from Cons.IH [where gs=gs and tbl=tbl] obtain new where
      "fst (AddFunctionPointers_loop fns (gs, tbl)) = gs @ map slot_name new"
      "set new \<subseteq> set (external_names fns)" by blast
    with False show ?thesis by (auto simp: external_names_def)
  next
    case True
    from Cons.IH [where gs="gs @ [slot_name (getName fn)]"
        and tbl="AList.update (getName fn) (slot_name (getName fn)) tbl"]
    obtain new where n: "fst (AddFunctionPointers_loop fns (gs @ [slot_name (getName fn)],
        AList.update (getName fn) (slot_name (getName fn)) tbl)) = (gs @ [slot_name (getName fn)]) @ map slot_name new"
      "set new \<subseteq> set (external_names fns)" by blast
    have "fst (AddFunctionPointers_loop (fn # fns) (gs, tbl)) = gs @ map slot_name (getName fn # new)"
      using True n(1) by simp
    moreover have "set (getName fn # new) \<subseteq> set (external_names (fn # fns))"
      using True n(2) by (auto simp: external_names_def)
    ultimately show ?thesis by blast
  qed
qed

lemma bind_symbols_other: "n \<notin> set ns \<Longrightarrow> bind_symbols ns a tab n = tab n"
  by (induction ns a tab rule: bind_symbols.induct) auto

lemma bind_symbols_nth:
  "distinct ns \<Longrightarrow> i < length ns \<Longrightarrow> bind_symbols ns a tab (ns ! i) = Some (a + i)"
proof (induction ns a tab arbitrary: i rule: bind_symbols.induct)
  case (1 a tab)
  then show ?case by simp
next
  case (2 n ns a tab)
  show ?case
  proof (cases i)
    case 0
    with "2.prems" show ?thesis by (simp add: bind_symbols_other)
  next
    case (Suc k)
    with "2.prems" have d: "distinct ns" and k: "k < length ns" by simp_all
    have "bind_symbols (n # ns) a tab ((n # ns) ! i) = bind_symbols ns (Suc a) (tab(n \<mapsto> a)) (ns ! k)"
      unfolding Suc by simp
    also have "\<dots> = Some (Suc a + k)" by (rule "2.IH" [OF d k])
    finally show ?thesis unfolding Suc by simp
  qed
qed

lemma place_code_at:
  "place_code tab fns a c x =
     (if a \<le> x \<and> x < a + length fns then Some (map (link_instr tab) (body (fns ! (x - a)))) else c x)"
proof (induction tab fns a c rule: place_code.induct)
  case (1 tab a c)
  then show ?case by auto
next
  case (2 tab fn fns a c)
  let ?c = "c(a \<mapsto> map (link_instr tab) (body fn))"
  have step: "place_code tab (fn # fns) a c x = place_code tab fns (Suc a) ?c x" by simp
  show ?case
  proof (cases "Suc a \<le> x \<and> x < Suc a + length fns")
    case True
    then have "x - a = Suc (x - Suc a)" by arith
    with True show ?thesis unfolding step "2.IH" by simp
  next
    case False
    show ?thesis
    proof (cases "x = a")
      case True
      with False show ?thesis unfolding step "2.IH" by simp
    next
      case ne: False
      with False have "\<not> (a \<le> x \<and> x < a + length (fn # fns))" by auto
      with False ne show ?thesis unfolding step "2.IH" by auto
    qed
  qed
qed

lemma AddModule_symbols_other:
  "n \<notin> set (defined_symbols m) \<Longrightarrow> jit_symbols (JIT_AddModule m j) n = jit_symbols j n"
  by (simp add: JIT_AddModule_def Let_def bind_symbols_other)

lemma AddModule_frame:
  "jit_memory (JIT_AddModule m j) = jit_memory j"
  "jit_unremovable (JIT_AddModule m j) = jit_unremovable j"
  by (simp_all add: JIT_AddModule_def Let_def)

lemma AddModule_linked:
  assumes "\<not> link_conflict m j"
  shows "jit_symbols (JIT_AddModule m j) = bind_symbols (defined_symbols m) (jit_next j) (jit_symbols j)"
    and "jit_code (JIT_AddModule m j) =
           place_code (bind_symbols (defined_symbols m) (jit_next j) (jit_symbols j))
             (external_definitions m) (jit_next j) (jit_code j)"
    and "jit_next (JIT_AddModule m j) = jit_next j + length (defined_symbols m)"
  using assms by (simp_all add: JIT_AddModule_def Let_def)

lemma defines_external_rewrite [simp]:
  "defines_external (rewrite_function tbl fn) = defines_external fn"
  "getName (rewrite_function tbl fn) = getName fn"
  by (simp_all add: defines_external_def rewrite_function_def)

lemma external_names_rewrite:
  "external_names (map (rewrite_function tbl) fns) = external_names fns"
  by (induction fns) (simp_all add: external_names_def)

lemma external_definitions_Replace:
  "external_definitions (ReplaceFunctionCallsWithIndirectFunctionCalls m tbl) =
     map (rewrite_function tbl) (external_definitions m)"
  by (simp add: external_definitions_def ReplaceFunctionCallsWithIndirectFunctionCalls_def filter_map o_def)

lemma AddFunctionPointers_eq:
  "AddFunctionPointers m tbl =
     (m\<lparr>mod_globals := fst (AddFunctionPointers_loop (mod_functions m) (mod_globals m, tbl))\<rparr>,
      snd (AddFunctionPointers_loop (mod_functions m) (mod_globals m, tbl)))"
  by (simp add: AddFunctionPointers_def split: prod.splits)

lemma prepared_module_functions:
  "mod_functions (prepared_module m r) = map (rewrite_function (prepared_table m r)) (mod_functions m)"
  by (simp add: prepared_module_def AddFunctionPointers_eq ReplaceFunctionCallsWithIndirectFunctionCalls_def)

lemma prepared_module_symbols:
  "\<exists>new. defined_symbols (prepared_module m r) =
           external_names (mod_functions m) @ mod_globals m @ map slot_name new
         \<and> set new \<subseteq> set (external_names (mod_functions m))"
proof -
  let ?tbl = "m_fn_ptr_map (RemoveRedeclarationsFromJIT m r)"
  from AFP_loop_globals [of "mod_functions m" "mod_globals m" ?tbl]
  obtain new where n: "fst (AddFunctionPointers_loop (mod_functions m) (mod_globals m, ?tbl))
      = mod_globals m @ map slot_name new" "set new \<subseteq> set (external_names (mod_functions m))"
    by blast
  have "defined_symbols (prepared_module m r) =
      external_names (mod_functions m) @ mod_globals m @ map slot_name new"
  proof -
    have g: "mod_globals (prepared_module m r) = mod_globals m @ map slot_name new"
      using n(1)
      by (simp add: prepared_module_def AddFunctionPointers_eq
          ReplaceFunctionCallsWithIndirectFunctionCalls_def)
    have e: "map getName (external_definitions (prepared_module m r)) = external_names (mod_functions m)"
      using external_names_rewrite [of "prepared_table m r" "mod_functions m"]
      by (simp add: external_definitions_def prepared_module_functions external_names_def)
    show ?thesis by (simp add: defined_symbols_def g e)
  qed
  with n(2) show ?thesis by blast
qed

lemma prepared_table_keys:
  "fst ` set (m_fn_ptr_map r) \<subseteq> fst ` set (prepared_table m r)"
proof -
  let ?t1 = "fold ensure_entry (external_names (mod_functions m)) (m_fn_ptr_map r)"
  have a: "fst ` set (m_fn_ptr_map r) \<subseteq> fst ` set ?t1"
    unfolding keys_fold_ensure_entry by blast
  have b: "fst ` set ?t1 \<subseteq> fst ` set (snd (AddFunctionPointers_loop (mod_functions m) (mod_globals m, ?t1)))"
    by (rule AFP_loop_keys)
  have "prepared_table m r = snd (AddFunctionPointers_loop (mod_functions m) (mod_globals m, ?t1))"
    by (simp add: prepared_table_def Remove_closed AddFunctionPointers_eq)
  with subset_trans [OF a b] show ?thesis by simp
qed

lemma Compile_diag:
  "hadAnyError r \<or> diag_SILGeneration cg \<or> diag_SILDiagnosticPasses cg \<Longrightarrow>
   CompileSourceFileToIRAndAddToJIT cg r = (True, r\<lparr>hadAnyError := True\<rparr>)"
  by (auto simp: CompileSourceFileToIRAndAddToJIT_def diagnose_def Let_def)

lemma Compile_clean:
  assumes "\<not> hadAnyError r" "\<not> diag_SILGeneration cg" "\<not> diag_SILDiagnosticPasses cg"
  shows "CompileSourceFileToIRAndAddToJIT cg r =
     (case UpdateFunctionPointers (prepare_and_link (ir_module cg) r) of
        (Some e, r6) \<Rightarrow> (False, Log_Error ''Unable to update function pointers'' r6)
      | (None, r6) \<Rightarrow> (True, r6))"
proof -
  from assms(1) have same: "r\<lparr>hadAnyError := False\<rparr> = r" by simp
  from assms show ?thesis
    by (simp add: CompileSourceFileToIRAndAddToJIT_def diagnose_def Let_def same)
qed

lemma Compile_clean_fst:
  assumes "\<not> hadAnyError r" "\<not> diag_SILGeneration cg" "\<not> diag_SILDiagnosticPasses cg"
  shows "fst (CompileSourceFileToIRAndAddToJIT cg r) =
           (fst (UpdateFunctionPointers (prepare_and_link (ir_module cg) r)) = None)"
  unfolding Compile_clean [OF assms]
  by (cases "UpdateFunctionPointers (prepare_and_link (ir_module cg) r)") (auto split: option.splits)

lemma Compile_clean_snd:
  assumes "\<not> hadAnyError r" "\<not> diag_SILGeneration cg" "\<not> diag_SILDiagnosticPasses cg"
  shows "snd (CompileSourceFileToIRAndAddToJIT cg r) =
           (let r6 = snd (UpdateFunctionPointers (prepare_and_link (ir_module cg) r)) in
            if fst (UpdateFunctionPointers (prepare_and_link (ir_module cg) r)) = None then r6
            else Log_Error ''Unable to update function pointers'' r6)"
  unfolding Compile_clean [OF assms]
  by (cases "UpdateFunctionPointers (prepare_and_link (ir_module cg) r)") (auto split: option.splits)

lemma prepare_and_link_fields:
  "trace (prepare_and_link m r) =
     trace r @ map EvRemoveSymbol (external_names (mod_functions m))
       @ [EvAddModule (defined_symbols (prepared_module m r))]"
  "m_fn_ptr_map (prepare_and_link m r) = prepared_table m r"
  "m_jit (prepare_and_link m r) =
     JIT_AddModule (prepared_module m r) (m_jit (RemoveRedeclarationsFromJIT m r))"
  "hadAnyError (prepare_and_link m r) = hadAnyError r"
  "m_decl_map (prepare_and_link m r) = m_decl_map r"
  "src_files (prepare_and_link m r) = src_files r"
  by (simp_all add: prepare_and_link_eq Remove_closed)

lemma Update_fields:
  "trace (snd (UpdateFunctionPointers r)) =
     trace r @ map (patch_event (jit_symbols (m_jit r)))
       (takeWhile (resolvable (jit_symbols (m_jit r))) (m_fn_ptr_map r))"
  "jit_memory (m_jit (snd (UpdateFunctionPointers r))) =
     fold (patch_memory (jit_symbols (m_jit r)))
       (takeWhile (resolvable (jit_symbols (m_jit r))) (m_fn_ptr_map r)) (jit_memory (m_jit r))"
  "jit_symbols (m_jit (snd (UpdateFunctionPointers r))) = jit_symbols (m_jit r)"
  "jit_code (m_jit (snd (UpdateFunctionPointers r))) = jit_code (m_jit r)"
  "jit_next (m_jit (snd (UpdateFunctionPointers r))) = jit_next (m_jit r)"
  "m_fn_ptr_map (snd (UpdateFunctionPointers r)) = m_fn_ptr_map r"
  "error_log (snd (UpdateFunctionPointers r)) = error_log r"
  "hadAnyError (snd (UpdateFunctionPointers r)) = hadAnyError r"
  "m_decl_map (snd (UpdateFunctionPointers r)) = m_decl_map r"
  "src_files (snd (UpdateFunctionPointers r)) = src_files r"
  by (simp_all add: UpdateFunctionPointers_def Update_loop_state)

lemma takeWhile_all: "list_all P xs \<Longrightarrow> takeWhile P xs = xs"
  by (induction xs) auto

lemma symbols_after_Remove:
  "jit_symbols (m_jit (RemoveRedeclarationsFromJIT m r)) n =
     (if n \<in> set (external_names (mod_functions m)) \<and> n \<notin> set (jit_unremovable (m_jit r))
      then None else jit_symbols (m_jit r) n)"
  by (simp add: Remove_closed)


lemma unit_shaped_intro:
  "unit_shaped (map EvRemoveSymbol ns @ [EvAddModule syms] @ map (patch_event tab) es)"
proof -
  have "dropWhile is_remove (map EvRemoveSymbol ns @ rest) = dropWhile is_remove rest" for rest
    by (induction ns) simp_all
  moreover have "list_all is_patch (map (patch_event tab) es)"
    by (induction es) (simp_all add: patch_event_def)
  ultimately show ?thesis by (simp add: unit_shaped_def)
qed

lemma Compile_trace_clean:
  assumes "\<not> hadAnyError r" "\<not> diag_SILGeneration cg" "\<not> diag_SILDiagnosticPasses cg"
  shows "trace (snd (CompileSourceFileToIRAndAddToJIT cg r)) =
     trace r @ map EvRemoveSymbol (external_names (mod_functions (ir_module cg)))
       @ [EvAddModule (defined_symbols (prepared_module (ir_module cg) r))]
       @ map (patch_event (jit_symbols (m_jit (prepare_and_link (ir_module cg) r))))
           (takeWhile (resolvable (jit_symbols (m_jit (prepare_and_link (ir_module cg) r))))
              (m_fn_ptr_map (prepare_and_link (ir_module cg) r)))"
  by (simp add: Compile_clean_snd [OF assms] Let_def Log_Error_def Update_fields
      prepare_and_link_fields)

lemma Compile_symbols_clean:
  assumes "\<not> hadAnyError r" "\<not> diag_SILGeneration cg" "\<not> diag_SILDiagnosticPasses cg"
  shows "jit_symbols (m_jit (snd (CompileSourceFileToIRAndAddToJIT cg r))) =
           jit_symbols (m_jit (prepare_and_link (ir_module cg) r))"
  by (simp add: Compile_clean_snd [OF assms] Let_def Log_Error_def Update_fields)

lemma Compile_trace_shape:
  "\<exists>u. trace (snd (CompileSourceFileToIRAndAddToJIT cg r)) = trace r @ u \<and> (u = [] \<or> unit_shaped u)"
proof (cases "hadAnyError r \<or> diag_SILGeneration cg \<or> diag_SILDiagnosticPasses cg")
  case True
  then show ?thesis by (simp add: Compile_diag)
next
  case False
  then have c: "\<not> hadAnyError r" "\<not> diag_SILGeneration cg" "\<not> diag_SILDiagnosticPasses cg"
    by simp_all
  show ?thesis
    unfolding Compile_trace_clean [OF c] using unit_shaped_intro by blast
qed

lemma register_decl_frame:
  "trace (register_decl d r) = trace r" "hadAnyError (register_decl d r) = hadAnyError r"
  "m_jit (register_decl d r) = m_jit r" "m_fn_ptr_map (register_decl d r) = m_fn_ptr_map r"
  "error_log (register_decl d r) = error_log r" "cout (register_decl d r) = cout r"
  by (simp_all add: register_decl_def Let_def split: option.splits)

lemma ExecuteSwift_loop_step:
  "ExecuteSwift_loop mn (dc # rest) res r =
     (if \<not> isa_ValueDecl (fst dc) then ExecuteSwift_loop mn rest res r
      else case validate r (fst dc) of
        AssertionViolated \<Rightarrow> (AssertionFailure, r)
      | InvalidRedeclaration name \<Rightarrow> PRINT_INVALID_REDECLARATION name r
      | Accepted \<Rightarrow>
          if fst (CompileSourceFileToIRAndAddToJIT (snd dc) (register_decl (fst dc) r))
          then ExecuteSwift_loop mn rest (entry_function mn (fst dc) res)
                 (snd (CompileSourceFileToIRAndAddToJIT (snd dc) (register_decl (fst dc) r)))
          else (ReturnedEarly True, snd (CompileSourceFileToIRAndAddToJIT (snd dc) (register_decl (fst dc) r))))"
  by (cases "CompileSourceFileToIRAndAddToJIT (snd dc) (register_decl (fst dc) r)")
     (simp split: verdict.splits)

lemma ExecuteSwift_loop_trace:
  "\<exists>units. trace (snd (ExecuteSwift_loop mn ds res r)) = trace r @ concat units
            \<and> list_all unit_shaped units"
proof (induction ds arbitrary: res r)
  case Nil
  have "trace r = trace r @ concat []" "list_all unit_shaped []" by simp_all
  then show ?case by (metis ExecuteSwift_loop.simps(1) snd_conv)
next
  case (Cons dc rest)
  let ?c = "CompileSourceFileToIRAndAddToJIT (snd dc) (register_decl (fst dc) r)"
  have nil: "\<exists>units. trace r = trace r @ concat units \<and> list_all unit_shaped units"
    by (rule exI [of _ "[]"]) simp
  from Compile_trace_shape [of "snd dc" "register_decl (fst dc) r"]
  obtain u where u: "trace (snd ?c) = trace r @ u" "u = [] \<or> unit_shaped u"
    by (auto simp: register_decl_frame)
  have one: "\<exists>units. trace (snd ?c) = trace r @ concat units \<and> list_all unit_shaped units"
  proof (cases "u = []")
    case True
    with u(1) show ?thesis by (intro exI [of _ "[]"]) simp
  next
    case False
    with u show ?thesis by (intro exI [of _ "[u]"]) simp
  qed
  have more: "\<exists>units. trace (snd (ExecuteSwift_loop mn rest res' (snd ?c))) = trace r @ concat units
      \<and> list_all unit_shaped units" for res'
  proof -
    from one obtain us where us: "trace (snd ?c) = trace r @ concat us" "list_all unit_shaped us"
      by blast
    from Cons.IH [of res' "snd ?c"] obtain vs where
      vs: "trace (snd (ExecuteSwift_loop mn rest res' (snd ?c))) = trace (snd ?c) @ concat vs"
        "list_all unit_shaped vs" by blast
    from us vs show ?thesis by (intro exI [of _ "us @ vs"]) simp
  qed
  show ?case
    unfolding ExecuteSwift_loop_step
    using Cons.IH [of res r] nil one more
    by (simp add: PRINT_INVALID_REDECLARATION_def print_def split: verdict.splits)
qed

lemma frontend_frame:
  "trace (snd (frontend t r)) = trace r" "m_jit (snd (frontend t r)) = m_jit r"
  "m_fn_ptr_map (snd (frontend t r)) = m_fn_ptr_map r" "m_decl_map (snd (frontend t r)) = m_decl_map r"
  "src_files (snd (frontend t r)) = src_files r"
  "m_curr_input_number (snd (frontend t r)) = m_curr_input_number r"
  by (simp_all add: frontend_def Let_def diagnose_def Log_Error_def parseIntoSourceFile_flag)

lemma LoadImportedModules_frame:
  "\<exists>imps. LoadImportedModules ds r = r\<lparr>m_imports := imps\<rparr>"
proof (induction ds r rule: LoadImportedModules.induct)
  case (1 r)
  have "r = r\<lparr>m_imports := m_imports r\<rparr>" by simp
  then show ?case by (metis LoadImportedModules.simps(1))
qed auto

lemma invoke_entry_trace:
  "\<exists>tail. trace (snd (invoke_entry res r)) = trace r @ tail
      \<and> (tail = [] \<or> (\<exists>n a. tail = [EvInvoke n a] \<and> jit_symbols (m_jit (snd (invoke_entry res r))) n = Some a))"
proof (cases res)
  case None
  then show ?thesis by simp
next
  case (Some n)
  show ?thesis
  proof (cases "jit_symbols (m_jit r) n")
    case None
    with Some show ?thesis by (simp add: JIT_LookupSymbol_def Log_Error_def)
  next
    case (Some a)
    with \<open>res = Some n\<close> show ?thesis
      by (simp add: JIT_LookupSymbol_def record_event_def)
  qed
qed

lemma declare_and_run_trace:
  "\<exists>units tail. trace (snd (declare_and_run t r)) = trace r @ concat units @ tail
      \<and> list_all unit_shaped units
      \<and> (tail = [] \<or> (\<exists>n a. tail = [EvInvoke n a]
            \<and> jit_symbols (m_jit (snd (declare_and_run t r))) n = Some a))"
proof -
  obtain imps where li: "LoadImportedModules (map fst (decls t)) r = r\<lparr>m_imports := imps\<rparr>"
    using LoadImportedModules_frame by blast
  let ?r2 = "r\<lparr>m_imports := imps, m_jit := fold JIT_AddDylib (link_libraries t) (m_jit r)\<rparr>"
  let ?l = "ExecuteSwift_loop (AddToSrcMgr_module_name ?r2) (decls t) None ?r2"
  have dr: "declare_and_run t r =
      (case ?l of
         (AssertionFailure, r') \<Rightarrow> (Aborted, r')
       | (ReturnedEarly b, r') \<Rightarrow> (Returned b, r')
       | (RanThrough res_fn, r') \<Rightarrow> (case invoke_entry res_fn r' of (b, r'') \<Rightarrow> (Returned b, r'')))"
    by (simp add: declare_and_run_def li Let_def)
  from ExecuteSwift_loop_trace [of "AddToSrcMgr_module_name ?r2" "decls t" None ?r2]
  obtain units where u: "trace (snd ?l) = trace r @ concat units" "list_all unit_shaped units"
    by auto
  obtain e r' where l: "?l = (e, r')" by (cases ?l)
  show ?thesis
  proof (cases e)
    case (RanThrough res_fn)
    from invoke_entry_trace [of res_fn r'] obtain tail where
      t: "trace (snd (invoke_entry res_fn r')) = trace r' @ tail"
        "tail = [] \<or> (\<exists>n a. tail = [EvInvoke n a]
            \<and> jit_symbols (m_jit (snd (invoke_entry res_fn r'))) n = Some a)" by blast
    have "snd (declare_and_run t r) = snd (invoke_entry res_fn r')"
      unfolding dr l RanThrough by (simp split: prod.splits)
    with t u l show ?thesis by (intro exI [of _ units] exI [of _ tail]) simp
  next
    case (ReturnedEarly b)
    then have "snd (declare_and_run t r) = r'" unfolding dr l by simp
    with u l show ?thesis by (intro exI [of _ units] exI [of _ "[]"]) simp
  next
    case AssertionFailure
    then have "snd (declare_and_run t r) = r'" unfolding dr l by simp
    with u l show ?thesis by (intro exI [of _ units] exI [of _ "[]"]) simp
  qed
qed

lemma ExecuteSwift_trace:
  "\<exists>units tail. trace (snd (ExecuteSwift t r)) = trace r @ concat units @ tail
      \<and> list_all unit_shaped units
      \<and> (tail = [] \<or> (\<exists>n a. tail = [EvInvoke n a]
            \<and> jit_symbols (m_jit (snd (ExecuteSwift t r))) n = Some a))"
proof -
  let ?r0 = "r\<lparr>m_curr_input_number := m_curr_input_number r + 1, hadAnyError := False\<rparr>"
  have nil: "\<exists>units tail. trace r = trace r @ concat units @ tail \<and> list_all unit_shaped units
      \<and> (tail = [] \<or> (\<exists>n a. tail = [EvInvoke n a] \<and> jit_symbols (m_jit r') n = Some a))" for r'
    by (intro exI [of _ "[]"]) simp
  show ?thesis
  proof (cases "IsExitString (line t)")
    case True
    then show ?thesis using nil by (simp add: ExecuteSwift_def)
  next
    case False
    obtain b r' where f: "frontend t ?r0 = (b, r')" by (cases "frontend t ?r0")
    from frontend_frame(1) [of t ?r0] f have tr: "trace r' = trace r" by simp
    show ?thesis
    proof (cases b)
      case (Some v)
      with False f tr nil show ?thesis by (simp add: ExecuteSwift_def)
    next
      case None
      with False f have "ExecuteSwift t r = declare_and_run t r'" by (simp add: ExecuteSwift_def)
      with declare_and_run_trace [of t r'] tr show ?thesis by simp
    qed
  qed
qed

lemma bind_symbols_bound: "n \<in> set ns \<Longrightarrow> bind_symbols ns a tab n \<noteq> None"
proof (induction ns a tab rule: bind_symbols.induct)
  case (1 a tab)
  then show ?case by simp
next
  case (2 k ns a tab)
  show ?case
  proof (cases "n \<in> set ns")
    case True
    show ?thesis unfolding bind_symbols.simps by (rule "2.IH" [OF True])
  next
    case False
    with "2.prems" have "n = k" by simp
    with False show ?thesis by (simp add: bind_symbols_other)
  qed
qed

lemma Compile_counter:
  "m_curr_input_number (snd (CompileSourceFileToIRAndAddToJIT cg r)) = m_curr_input_number r"
  by (cases "hadAnyError r \<or> diag_SILGeneration cg \<or> diag_SILDiagnosticPasses cg")
     (simp_all add: Compile_diag Compile_clean_snd Let_def Log_Error_def
        UpdateFunctionPointers_def Update_loop_state prepare_and_link_eq Remove_closed)

lemma register_decl_counter:
  "m_curr_input_number (register_decl d r) = m_curr_input_number r"
  by (simp add: register_decl_def Let_def split: option.splits)

lemma Compile_frame:
  "m_decl_map (snd (CompileSourceFileToIRAndAddToJIT cg r)) = m_decl_map r"
  "src_files (snd (CompileSourceFileToIRAndAddToJIT cg r)) = src_files r"
  "fst ` set (m_fn_ptr_map r) \<subseteq> fst ` set (m_fn_ptr_map (snd (CompileSourceFileToIRAndAddToJIT cg r)))"
proof -
  show "m_decl_map (snd (CompileSourceFileToIRAndAddToJIT cg r)) = m_decl_map r"
    "src_files (snd (CompileSourceFileToIRAndAddToJIT cg r)) = src_files r"
    by (cases "hadAnyError r \<or> diag_SILGeneration cg \<or> diag_SILDiagnosticPasses cg";
        simp add: Compile_diag Compile_clean_snd Let_def Log_Error_def Update_fields
          prepare_and_link_fields)+
  show "fst ` set (m_fn_ptr_map r) \<subseteq> fst ` set (m_fn_ptr_map (snd (CompileSourceFileToIRAndAddToJIT cg r)))"
    by (cases "hadAnyError r \<or> diag_SILGeneration cg \<or> diag_SILDiagnosticPasses cg")
       (simp_all add: Compile_diag Compile_clean_snd Let_def Log_Error_def Update_fields
          prepare_and_link_fields prepared_table_keys)
qed

lemma register_decl_registry:
  "dom (m_decl_map r) \<subseteq> dom (m_decl_map (register_decl d r))"
  by (auto simp: register_decl_def Let_def split: option.splits)

lemma register_decl_ok:
  assumes "registry_ok r"
  shows "registry_ok (register_decl d r)"
  using assms
  by (auto simp: registry_ok_def register_decl_def Let_def split: option.splits if_splits)

lemma validate_ok:
  "registry_ok r \<Longrightarrow> validate r d \<noteq> AssertionViolated"
proof (cases d)
  case (FuncDecl u m)
  assume ok: "registry_ok r"
  show ?thesis
  proof (cases "m_decl_map r u")
    case None
    with FuncDecl show ?thesis by (simp add: validate_def)
  next
    case (Some h)
    with ok have "length (src_files r h) = 1" by (simp add: registry_ok_def)
    then obtain d0 where "src_files r h = [d0]" by (cases "src_files r h") auto
    with FuncDecl Some show ?thesis by (simp add: validate_def)
  qed
qed (simp_all add: validate_def)

lemma ExecuteSwift_loop_local:
  "registry_ok r \<Longrightarrow>
   fst (ExecuteSwift_loop mn ds rf r) \<noteq> AssertionFailure
   \<and> fst (ExecuteSwift_loop mn ds rf r) \<noteq> ReturnedEarly False
   \<and> registry_ok (snd (ExecuteSwift_loop mn ds rf r))"
proof (induction ds arbitrary: rf r)
  case Nil
  then show ?case by simp
next
  case (Cons dc rest)
  let ?c = "CompileSourceFileToIRAndAddToJIT (snd dc) (register_decl (fst dc) r)"
  have ok_c: "registry_ok (snd ?c)"
    using register_decl_ok [OF Cons.prems, of "fst dc"]
    by (simp add: registry_ok_def Compile_frame)
  from Cons.IH [OF Cons.prems] Cons.IH [OF ok_c] validate_ok [OF Cons.prems, of "fst dc"] ok_c
    Cons.prems
  show ?case
    unfolding ExecuteSwift_loop_step
    by (simp add: PRINT_INVALID_REDECLARATION_def print_def registry_ok_def
        split: verdict.splits)
qed

lemma ExecuteSwift_loop_grows:
  "dom (m_decl_map r) \<subseteq> dom (m_decl_map (snd (ExecuteSwift_loop mn ds rf r)))
   \<and> fst ` set (m_fn_ptr_map r) \<subseteq> fst ` set (m_fn_ptr_map (snd (ExecuteSwift_loop mn ds rf r)))"
proof (induction ds arbitrary: rf r)
  case Nil
  show ?case by simp
next
  case (Cons dc rest)
  let ?c = "CompileSourceFileToIRAndAddToJIT (snd dc) (register_decl (fst dc) r)"
  have dom_c: "dom (m_decl_map r) \<subseteq> dom (m_decl_map (snd ?c))"
    using register_decl_registry [of r "fst dc"] by (simp add: Compile_frame)
  have keys_c: "fst ` set (m_fn_ptr_map r) \<subseteq> fst ` set (m_fn_ptr_map (snd ?c))"
    using Compile_frame(3) [of "register_decl (fst dc) r" "snd dc"]
    by (simp add: register_decl_frame)
  have a: "dom (m_decl_map r) \<subseteq> dom (m_decl_map (snd (ExecuteSwift_loop mn rest rf' (snd ?c))))" for rf'
    using dom_c Cons.IH [of "snd ?c" rf'] by blast
  have b: "fst ` set (m_fn_ptr_map r)
      \<subseteq> fst ` set (m_fn_ptr_map (snd (ExecuteSwift_loop mn rest rf' (snd ?c))))" for rf'
    using keys_c Cons.IH [of "snd ?c" rf'] by blast
  from a b dom_c keys_c Cons.IH [of r rf] show ?case
    unfolding ExecuteSwift_loop_step
    by (simp add: PRINT_INVALID_REDECLARATION_def print_def split: verdict.splits)
qed

lemma ExecuteSwift_loop_counter:
  "m_curr_input_number (snd (ExecuteSwift_loop mn ds rf r)) = m_curr_input_number r"
proof (induction ds arbitrary: rf r)
  case Nil
  show ?case by simp
next
  case (Cons dc rest)
  let ?c = "CompileSourceFileToIRAndAddToJIT (snd dc) (register_decl (fst dc) r)"
  have c: "m_curr_input_number (snd ?c) = m_curr_input_number r"
    by (simp add: Compile_counter register_decl_counter)
  from Cons.IH [of rf r] Cons.IH [of _ "snd ?c"] c show ?case
    unfolding ExecuteSwift_loop_step
    by (simp add: PRINT_INVALID_REDECLARATION_def print_def split: verdict.splits)
qed

lemma invoke_entry_local:
  "m_decl_map (snd (invoke_entry res r)) = m_decl_map r"
  "src_files (snd (invoke_entry res r)) = src_files r"
  "m_fn_ptr_map (snd (invoke_entry res r)) = m_fn_ptr_map r"
  "m_curr_input_number (snd (invoke_entry res r)) = m_curr_input_number r"
  by (cases res; cases "jit_symbols (m_jit r) (the res)";
      auto simp: JIT_LookupSymbol_def record_event_def Log_Error_def)+

lemma declare_and_run_local:
  assumes "registry_ok r"
  shows "(\<exists>b. fst (declare_and_run t r) = Returned b)"
    and "registry_ok (snd (declare_and_run t r))"
    and "dom (m_decl_map r) \<subseteq> dom (m_decl_map (snd (declare_and_run t r)))"
    and "fst ` set (m_fn_ptr_map r) \<subseteq> fst ` set (m_fn_ptr_map (snd (declare_and_run t r)))"
    and "m_curr_input_number (snd (declare_and_run t r)) = m_curr_input_number r"
proof -
  obtain imps where li: "LoadImportedModules (map fst (decls t)) r = r\<lparr>m_imports := imps\<rparr>"
    using LoadImportedModules_frame by blast
  let ?r2 = "r\<lparr>m_imports := imps, m_jit := fold JIT_AddDylib (link_libraries t) (m_jit r)\<rparr>"
  let ?l = "ExecuteSwift_loop (AddToSrcMgr_module_name ?r2) (decls t) None ?r2"
  have dr: "declare_and_run t r =
      (case ?l of
         (AssertionFailure, r') \<Rightarrow> (Aborted, r')
       | (ReturnedEarly b, r') \<Rightarrow> (Returned b, r')
       | (RanThrough res_fn, r') \<Rightarrow> (case invoke_entry res_fn r' of (b, r'') \<Rightarrow> (Returned b, r'')))"
    by (simp add: declare_and_run_def li Let_def)
  from assms have ok2: "registry_ok ?r2" by (simp add: registry_ok_def)
  note loc = ExecuteSwift_loop_local [OF ok2, of "AddToSrcMgr_module_name ?r2" "decls t" None]
  note gr = ExecuteSwift_loop_grows [of ?r2 "AddToSrcMgr_module_name ?r2" "decls t" None]
  note cn = ExecuteSwift_loop_counter [of "AddToSrcMgr_module_name ?r2" "decls t" None ?r2]
  obtain e r' where l: "?l = (e, r')" by (cases ?l)
  have f: "fst (declare_and_run t r) =
      (case e of AssertionFailure \<Rightarrow> Aborted | ReturnedEarly b \<Rightarrow> Returned b
       | RanThrough res_fn \<Rightarrow> Returned (fst (invoke_entry res_fn r')))"
    and s: "snd (declare_and_run t r) =
      (case e of RanThrough res_fn \<Rightarrow> snd (invoke_entry res_fn r') | _ \<Rightarrow> r')"
    unfolding dr l by (cases e; simp split: prod.splits)+
  from loc l have e: "e \<noteq> AssertionFailure" "e \<noteq> ReturnedEarly False" "registry_ok r'"
    by simp_all
  from gr l have g: "dom (m_decl_map r) \<subseteq> dom (m_decl_map r')"
    "fst ` set (m_fn_ptr_map r) \<subseteq> fst ` set (m_fn_ptr_map r')" by simp_all
  from cn l have c: "m_curr_input_number r' = m_curr_input_number r" by simp
  show "\<exists>b. fst (declare_and_run t r) = Returned b"
    using e unfolding f by (cases e) auto
  show "registry_ok (snd (declare_and_run t r))"
    using e unfolding s by (cases e) (simp_all add: registry_ok_def invoke_entry_local)
  show "dom (m_decl_map r) \<subseteq> dom (m_decl_map (snd (declare_and_run t r)))"
    using g unfolding s by (cases e) (simp_all add: invoke_entry_local)
  show "fst ` set (m_fn_ptr_map r) \<subseteq> fst ` set (m_fn_ptr_map (snd (declare_and_run t r)))"
    using g unfolding s by (cases e) (simp_all add: invoke_entry_local)
  show "m_curr_input_number (snd (declare_and_run t r)) = m_curr_input_number r"
    using c unfolding s by (cases e) (simp_all add: invoke_entry_local)
qed

lemma frontend_false:
  "\<not> hadAnyError r \<Longrightarrow> fst (frontend t r) = Some False \<Longrightarrow>
     src_file_is_null t \<and> \<not> diag_ModuleDecl_create t"
  by (auto simp: frontend_def Let_def diagnose_def split: if_splits)

lemma fold_patch_untouched:
  "\<forall>e \<in> set es. the (syms (snd e)) \<noteq> c \<Longrightarrow> fold (patch_memory syms) es mem c = mem c"
  by (induction es arbitrary: mem) (simp_all add: patch_memory_def)

lemma fold_patch_owner:
  assumes "\<exists>e \<in> set es. the (syms (snd e)) = c"
    and "\<forall>e \<in> set es. the (syms (snd e)) = c \<longrightarrow> syms (fst e) = syms n"
  shows "fold (patch_memory syms) es mem c = Some (the (syms n))"
  using assms
proof (induction es arbitrary: mem)
  case Nil
  then show ?case by simp
next
  case (Cons e es)
  show ?case
  proof (cases "\<exists>e' \<in> set es. the (syms (snd e')) = c")
    case True
    from Cons.prems(2) have "\<forall>e \<in> set es. the (syms (snd e)) = c \<longrightarrow> syms (fst e) = syms n"
      by simp
    from Cons.IH [OF True this] show ?thesis by simp
  next
    case False
    with Cons.prems(1) have here: "the (syms (snd e)) = c" by auto
    with Cons.prems(2) have "syms (fst e) = syms n" by simp
    with here have "patch_memory syms e mem c = Some (the (syms n))"
      by (simp add: patch_memory_def)
    moreover from False have "fold (patch_memory syms) es (patch_memory syms e mem) c
        = patch_memory syms e mem c"
      by (intro fold_patch_untouched) simp
    ultimately show ?thesis by simp
  qed
qed

lemma prepare_and_link_memory:
  "jit_memory (m_jit (prepare_and_link m r)) = jit_memory (m_jit r)"
  by (simp add: prepare_and_link_fields AddModule_frame Remove_closed)

lemma set_takeWhile_resolvable:
  "e \<in> set (takeWhile P xs) \<Longrightarrow> P e \<and> e \<in> set xs"
  by (induction xs) (auto split: if_splits)

lemma Update_unresolved:
  assumes "(n, s) \<in> set (m_fn_ptr_map r)" "jit_symbols (m_jit r) n = None"
  shows "fst (UpdateFunctionPointers r) \<noteq> None"
    and "jit_symbols (m_jit r) s = Some c \<Longrightarrow> sole_slot r n c \<Longrightarrow>
           jit_memory (m_jit (snd (UpdateFunctionPointers r))) c = jit_memory (m_jit r) c"
proof -
  from assms have "\<not> resolvable (jit_symbols (m_jit r)) (n, s)" by (simp add: resolvable_def)
  with assms(1) have "\<not> list_all (resolvable (jit_symbols (m_jit r))) (m_fn_ptr_map r)"
    by (auto simp: list_all_iff)
  then show "fst (UpdateFunctionPointers r) \<noteq> None"
    by (simp add: UpdateFunctionPointers_def Update_loop_ok_iff)
  assume c: "jit_symbols (m_jit r) s = Some c" and sole: "sole_slot r n c"
  have "the (jit_symbols (m_jit r) (snd e)) \<noteq> c"
    if "e \<in> set (takeWhile (resolvable (jit_symbols (m_jit r))) (m_fn_ptr_map r))" for e
  proof
    assume eq: "the (jit_symbols (m_jit r) (snd e)) = c"
    from set_takeWhile_resolvable [OF that] have res: "resolvable (jit_symbols (m_jit r)) e"
      and mem: "e \<in> set (m_fn_ptr_map r)" by simp_all
    from res eq have "jit_symbols (m_jit r) (snd e) = Some c" by (auto simp: resolvable_def)
    with sole mem have "fst e = n" by (auto simp: sole_slot_def list_all_iff)
    with res assms(2) show False by (simp add: resolvable_def)
  qed
  then show "jit_memory (m_jit (snd (UpdateFunctionPointers r))) c = jit_memory (m_jit r) c"
    by (simp add: Update_fields fold_patch_untouched)
qed

lemma Update_populates:
  assumes "fst (UpdateFunctionPointers r) = None" "(n, s) \<in> set (m_fn_ptr_map r)"
    "jit_symbols (m_jit r) s = Some c" "sole_slot r n c"
  shows "jit_symbols (m_jit r) n \<noteq> None"
    and "jit_memory (m_jit (snd (UpdateFunctionPointers r))) c = jit_symbols (m_jit r) n"
proof -
  from assms(1) have all: "list_all (resolvable (jit_symbols (m_jit r))) (m_fn_ptr_map r)"
    by (simp add: UpdateFunctionPointers_def Update_loop_ok_iff)
  with assms(2) have "resolvable (jit_symbols (m_jit r)) (n, s)" by (auto simp: list_all_iff)
  then show bound: "jit_symbols (m_jit r) n \<noteq> None" by (simp add: resolvable_def)
  have ex: "\<exists>e \<in> set (m_fn_ptr_map r). the (jit_symbols (m_jit r) (snd e)) = c"
    using assms(2,3) by force
  have own: "\<forall>e \<in> set (m_fn_ptr_map r). the (jit_symbols (m_jit r) (snd e)) = c \<longrightarrow>
      jit_symbols (m_jit r) (fst e) = jit_symbols (m_jit r) n"
  proof (intro ballI impI)
    fix e assume e: "e \<in> set (m_fn_ptr_map r)" and eq: "the (jit_symbols (m_jit r) (snd e)) = c"
    from all e have "resolvable (jit_symbols (m_jit r)) e" by (auto simp: list_all_iff)
    with eq have "jit_symbols (m_jit r) (snd e) = Some c" by (auto simp: resolvable_def)
    with assms(4) e have "fst e = n" by (auto simp: sole_slot_def list_all_iff)
    then show "jit_symbols (m_jit r) (fst e) = jit_symbols (m_jit r) n" by simp
  qed
  from bound fold_patch_owner [OF ex own] all
  show "jit_memory (m_jit (snd (UpdateFunctionPointers r))) c = jit_symbols (m_jit r) n"
    by (auto simp: Update_fields takeWhile_all)
qed

lemma prepared_table_keeps_slot:
  assumes "map_of (m_fn_ptr_map r) f = Some s" "s \<noteq> []"
  shows "map_of (prepared_table m r) f = Some s"
proof -
  let ?t1 = "fold ensure_entry (external_names (mod_functions m)) (m_fn_ptr_map r)"
  from assms(1) have t1: "map_of ?t1 f = Some s" by (rule map_of_fold_ensure_entry_old)
  with assms(2) have "has_slot ?t1 f" by (simp add: has_slot_def)
  from AFP_loop_slot_kept [OF this] t1 show ?thesis
    by (simp add: prepared_table_def Remove_closed AddFunctionPointers_eq)
qed

lemma external_definitions_prepared:
  "external_definitions (prepared_module m r) =
     map (rewrite_function (prepared_table m r)) (external_definitions m)"
  by (simp add: external_definitions_def prepared_module_functions filter_map o_def)

lemma Remove_jit_frame:
  "jit_code (m_jit (RemoveRedeclarationsFromJIT m r)) = jit_code (m_jit r)"
  "jit_next (m_jit (RemoveRedeclarationsFromJIT m r)) = jit_next (m_jit r)"
  by (simp_all add: Remove_closed)





lemma update_new_key:
  "k \<notin> fst ` set al \<Longrightarrow> AList.update k v al = al @ [(k, v)]"
  by (induction al) auto

lemma table_ok_ensure_entry:
  assumes "table_ok A tbl"
  shows "table_ok (insert n A) (ensure_entry n tbl)"
proof (cases "map_of tbl n")
  case (Some s)
  then have "ensure_entry n tbl = tbl" by (simp add: ensure_entry_def)
  with assms show ?thesis by (auto simp: table_ok_def)
next
  case None
  then have new: "n \<notin> fst ` set tbl" by (simp add: map_of_eq_None_iff)
  from None have "ensure_entry n tbl = AList.update n [] tbl" by (simp add: ensure_entry_def)
  also have "\<dots> = tbl @ [(n, [])]" by (rule update_new_key [OF new])
  finally have ee: "ensure_entry n tbl = tbl @ [(n, [])]" .
  from assms new show ?thesis
    unfolding ee table_ok_def by auto
qed

lemma table_ok_fold_ensure_entry:
  "table_ok A tbl \<Longrightarrow> table_ok (A \<union> set ns) (fold ensure_entry ns tbl)"
proof (induction ns arbitrary: A tbl)
  case Nil
  then show ?case by simp
next
  case (Cons n ns)
  from table_ok_ensure_entry [OF Cons.prems, of n]
  have "table_ok (insert n A \<union> set ns) (fold ensure_entry ns (ensure_entry n tbl))"
    by (rule Cons.IH)
  then show ?case by simp
qed

lemma set_update_distinct:
  assumes "distinct (map fst al)" "e \<in> set (AList.update k v al)"
  shows "e = (k, v) \<or> (e \<in> set al \<and> fst e \<noteq> k)"
  using assms
proof (induction al)
  case Nil
  then show ?case by simp
next
  case (Cons p ps)
  show ?case
  proof (cases "fst p = k")
    case True
    with Cons.prems(2) have "e = (k, v) \<or> e \<in> set ps" by auto
    moreover have "\<forall>q \<in> set ps. fst q \<noteq> k"
    proof
      fix q assume "q \<in> set ps"
      then have "fst q \<in> fst ` set ps" by (rule imageI)
      moreover from Cons.prems(1) True have "k \<notin> fst ` set ps" by simp
      ultimately show "fst q \<noteq> k" by blast
    qed
    ultimately show ?thesis by auto
  next
    case False
    with Cons.prems(2) have "e = p \<or> e \<in> set (AList.update k v ps)" by auto
    then show ?thesis
    proof
      assume "e = p"
      with False show ?thesis by simp
    next
      assume "e \<in> set (AList.update k v ps)"
      with Cons.IH Cons.prems(1) have "e = (k, v) \<or> (e \<in> set ps \<and> fst e \<noteq> k)" by simp
      then show ?thesis by auto
    qed
  qed
qed

lemma table_ok_drop_pending:
  assumes ok: "table_ok (insert n A) tbl" and s: "map_of tbl n = Some s" "s \<noteq> []"
  shows "table_ok A tbl"
  unfolding table_ok_def
proof (intro conjI ballI)
  from ok show d: "distinct (map fst tbl)" by (simp add: table_ok_def)
  fix e assume e: "e \<in> set tbl"
  with ok have alt: "snd e = slot_name (fst e) \<or> (snd e = [] \<and> fst e \<in> insert n A)"
    unfolding table_ok_def by blast
  show "snd e = slot_name (fst e) \<or> (snd e = [] \<and> fst e \<in> A)"
  proof (cases "fst e = n")
    case True
    with e have "(n, snd e) \<in> set tbl" by (metis prod.collapse)
    with d have "map_of tbl n = Some (snd e)" by (rule map_of_is_SomeI)
    with s alt show ?thesis by auto
  next
    case False
    with alt show ?thesis by auto
  qed
qed

lemma table_ok_give_slot:
  assumes ok: "table_ok (insert n A) tbl"
  shows "table_ok A (AList.update n (slot_name n) tbl)"
  unfolding table_ok_def
proof (intro conjI ballI)
  from ok have d: "distinct (map fst tbl)" by (simp add: table_ok_def)
  then show "distinct (map fst (AList.update n (slot_name n) tbl))" by (simp add: distinct_update)
  fix e assume "e \<in> set (AList.update n (slot_name n) tbl)"
  from set_update_distinct [OF d this]
  have "e = (n, slot_name n) \<or> (e \<in> set tbl \<and> fst e \<noteq> n)" .
  then show "snd e = slot_name (fst e) \<or> (snd e = [] \<and> fst e \<in> A)"
  proof
    assume "e = (n, slot_name n)"
    then show ?thesis by simp
  next
    assume a: "e \<in> set tbl \<and> fst e \<noteq> n"
    with ok have "snd e = slot_name (fst e) \<or> (snd e = [] \<and> fst e \<in> insert n A)"
      unfolding table_ok_def by blast
    with a show ?thesis by auto
  qed
qed

lemma table_ok_AFP_loop:
  "table_ok (set (external_names fns)) tbl \<Longrightarrow>
     table_ok {} (snd (AddFunctionPointers_loop fns (gs, tbl)))"
proof (induction fns arbitrary: gs tbl)
  case Nil
  then show ?case by (simp add: external_names_def)
next
  case (Cons fn fns)
  let ?n = "getName fn"
  show ?case
  proof (cases "defines_external fn")
    case False
    with Cons.prems have "table_ok (set (external_names fns)) tbl"
      by (simp add: external_names_def)
    from Cons.IH [OF this] False show ?thesis by simp
  next
    case True
    then have names: "set (external_names (fn # fns)) = insert ?n (set (external_names fns))"
      by (simp add: external_names_def)
    show ?thesis
    proof (cases "has_slot tbl ?n")
      case hs: True
      then obtain s where s: "map_of tbl ?n = Some s" "s \<noteq> []"
        by (auto simp: has_slot_def split: option.splits)
      from Cons.prems have "table_ok (insert ?n (set (external_names fns))) tbl"
        by (simp only: names)
      from table_ok_drop_pending [OF this s] have "table_ok (set (external_names fns)) tbl" .
      from Cons.IH [OF this, of gs] hs True show ?thesis by simp
    next
      case hs: False
      from Cons.prems have "table_ok (insert ?n (set (external_names fns))) tbl"
        by (simp only: names)
      from table_ok_give_slot [OF this]
      have "table_ok (set (external_names fns)) (AList.update ?n (slot_name ?n) tbl)" .
      from Cons.IH [OF this, of "gs @ [slot_name ?n]"] hs True show ?thesis by simp
    qed
  qed
qed

lemma table_ok_prepared:
  assumes "table_ok {} (m_fn_ptr_map r)"
  shows "table_ok {} (prepared_table m r)"
proof -
  from table_ok_fold_ensure_entry [OF assms, of "external_names (mod_functions m)"]
  have "table_ok (set (external_names (mod_functions m)))
      (fold ensure_entry (external_names (mod_functions m)) (m_fn_ptr_map r))" by simp
  from table_ok_AFP_loop [OF this] show ?thesis
    by (simp add: prepared_table_def Remove_closed AddFunctionPointers_eq)
qed

lemma symbols_ok_bind:
  "symbols_ok tab a \<Longrightarrow> symbols_ok (bind_symbols ns a tab) (a + length ns)"
proof (induction ns a tab rule: bind_symbols.induct)
  case (1 a tab)
  then show ?case by simp
next
  case (2 n ns a tab)
  have "symbols_ok (tab(n \<mapsto> a)) (Suc a)"
    unfolding symbols_ok_def
  proof (intro conjI allI impI)
    show "inj_on (tab(n \<mapsto> a)) (dom (tab(n \<mapsto> a)))"
    proof (rule inj_onI)
      fix x y assume x: "x \<in> dom (tab(n \<mapsto> a))" and y: "y \<in> dom (tab(n \<mapsto> a))"
        and eq: "(tab(n \<mapsto> a)) x = (tab(n \<mapsto> a)) y"
      show "x = y"
      proof (cases "x = n")
        case True
        show ?thesis
        proof (rule ccontr)
          assume "x \<noteq> y"
          with True eq have "tab y = Some a" by (simp split: if_splits)
          with "2.prems" show False by (auto simp: symbols_ok_def)
        qed
      next
        case False
        show ?thesis
        proof (cases "y = n")
          case True
          with False eq have "tab x = Some a" by (simp split: if_splits)
          with "2.prems" show ?thesis by (auto simp: symbols_ok_def)
        next
          case ny: False
          with False x y eq have "x \<in> dom tab" "y \<in> dom tab" "tab x = tab y" by auto
          with "2.prems" show ?thesis by (auto simp: symbols_ok_def dest: inj_onD)
        qed
      qed
    qed
  next
    fix m b assume "(tab(n \<mapsto> a)) m = Some b"
    with "2.prems" show "b < Suc a"
      by (auto simp: symbols_ok_def less_Suc_eq split: if_splits)
  qed
  then have "symbols_ok (bind_symbols ns (Suc a) (tab(n \<mapsto> a))) (Suc a + length ns)"
    by (rule "2.IH")
  then show ?case unfolding bind_symbols.simps by (simp del: fun_upd_apply)
qed

lemma symbols_ok_restrict:
  assumes "symbols_ok tab a"
  shows "symbols_ok (\<lambda>n. if P n then None else tab n) a"
  unfolding symbols_ok_def
proof (intro conjI allI impI)
  show "inj_on (\<lambda>n. if P n then None else tab n) (dom (\<lambda>n. if P n then None else tab n))"
  proof (rule inj_onI)
    fix x y
    assume "x \<in> dom (\<lambda>n. if P n then None else tab n)" "y \<in> dom (\<lambda>n. if P n then None else tab n)"
      "(if P x then None else tab x) = (if P y then None else tab y)"
    then have "x \<in> dom tab" "y \<in> dom tab" "tab x = tab y"
      by (auto split: if_splits)
    with assms show "x = y" by (auto simp: symbols_ok_def dest: inj_onD)
  qed
next
  fix n b assume "(if P n then None else tab n) = Some b"
  with assms show "b < a" by (auto simp: symbols_ok_def split: if_splits)
qed

lemma symbols_ok_AddModule:
  assumes "symbols_ok (jit_symbols j) (jit_next j)"
  shows "symbols_ok (jit_symbols (JIT_AddModule m j)) (jit_next (JIT_AddModule m j))"
proof (cases "link_conflict m j")
  case True
  with assms show ?thesis by (simp add: JIT_AddModule_def)
next
  case False
  from symbols_ok_bind [OF assms, of "defined_symbols m"] show ?thesis
    by (simp add: AddModule_linked [OF False])
qed

lemma session_inv_alt:
  "session_inv r \<longleftrightarrow>
     table_ok {} (m_fn_ptr_map r) \<and> symbols_ok (jit_symbols (m_jit r)) (jit_next (m_jit r))
     \<and> code_ok (m_fn_ptr_map r) (m_jit r)"
  by (auto simp: session_inv_def table_ok_def symbols_ok_def code_ok_def list_all_iff)

lemma external_names_prepared_table:
  "set (external_names (mod_functions m)) \<subseteq> fst ` set (prepared_table m r)"
proof -
  let ?t1 = "fold ensure_entry (external_names (mod_functions m)) (m_fn_ptr_map r)"
  have a: "set (external_names (mod_functions m)) \<subseteq> fst ` set ?t1"
    unfolding keys_fold_ensure_entry by blast
  have b: "fst ` set ?t1 \<subseteq> fst ` set (snd (AddFunctionPointers_loop (mod_functions m) (mod_globals m, ?t1)))"
    by (rule AFP_loop_keys)
  have "prepared_table m r = snd (AddFunctionPointers_loop (mod_functions m) (mod_globals m, ?t1))"
    by (simp add: prepared_table_def Remove_closed AddFunctionPointers_eq)
  with subset_trans [OF a b] show ?thesis by simp
qed

lemma external_names_prepared:
  "map getName (external_definitions (prepared_module m r)) = external_names (mod_functions m)"
proof -
  have "map getName (external_definitions (prepared_module m r)) = map getName (external_definitions m)"
    unfolding external_definitions_prepared by (simp add: o_def)
  then show ?thesis by (simp add: external_names_def external_definitions_def)
qed

lemma code_ok_prepare_and_link:
  assumes s: "symbols_ok (jit_symbols (m_jit r)) (jit_next (m_jit r))"
    and c: "code_ok (m_fn_ptr_map r) (m_jit r)"
  shows "code_ok (prepared_table m r) (m_jit (prepare_and_link m r))"
proof -
  let ?jr = "m_jit (RemoveRedeclarationsFromJIT m r)"
  let ?pm = "prepared_module m r"
  let ?tbl = "prepared_table m r"
  let ?next = "jit_next (m_jit r)"
  have jr: "jit_code ?jr = jit_code (m_jit r)" "jit_next ?jr = ?next"
    by (simp_all add: Remove_closed)
  have sub: "jit_symbols (m_jit r) n = Some a" if "jit_symbols ?jr n = Some a" for n a
    using that by (simp add: symbols_after_Remove split: if_splits)
  from c have old5: "a < ?next" if "jit_code (m_jit r) a \<noteq> None" for a
    using that by (simp add: code_ok_def)
  from c have old6: "n \<in> fst ` set (m_fn_ptr_map r)"
    if "jit_symbols (m_jit r) n = Some a" "jit_code (m_jit r) a \<noteq> None" for n a
    using that unfolding code_ok_def by blast
  note keys = prepared_table_keys [of r m]
  show ?thesis
  proof (cases "link_conflict ?pm ?jr")
    case True
    then have same: "m_jit (prepare_and_link m r) = ?jr"
      by (simp add: prepare_and_link_fields JIT_AddModule_def)
    show ?thesis
      unfolding same code_ok_def jr
    proof (intro conjI allI impI)
      fix a assume "jit_code (m_jit r) a \<noteq> None"
      then show "a < ?next" by (rule old5)
    next
      fix n a assume "jit_symbols ?jr n = Some a \<and> jit_code (m_jit r) a \<noteq> None"
      then have "jit_symbols (m_jit r) n = Some a" "jit_code (m_jit r) a \<noteq> None"
        by (simp_all add: sub)
      from old6 [OF this] keys show "n \<in> fst ` set ?tbl" by blast
    qed
  next
    case False
    let ?ds = "defined_symbols ?pm"
    let ?ex = "external_definitions ?pm"
    let ?syms = "bind_symbols ?ds ?next (jit_symbols ?jr)"
    from False have d: "distinct ?ds" by (simp add: link_conflict_def)
    have lk: "jit_symbols (m_jit (prepare_and_link m r)) = ?syms"
      "jit_code (m_jit (prepare_and_link m r)) = place_code ?syms ?ex ?next (jit_code (m_jit r))"
      "jit_next (m_jit (prepare_and_link m r)) = ?next + length ?ds"
      using AddModule_linked [OF False] by (simp_all add: prepare_and_link_fields jr)
    have ds: "?ds = map getName ?ex @ mod_globals ?pm" by (simp add: defined_symbols_def)
    have names: "set (map getName ?ex) \<subseteq> fst ` set ?tbl"
      using external_names_prepared_table [of m r] by (simp only: external_names_prepared)
    have len: "length ?ex \<le> length ?ds" by (simp add: ds)
    have code: "place_code ?syms ?ex ?next (jit_code (m_jit r)) x \<noteq> None \<Longrightarrow>
        (?next \<le> x \<and> x < ?next + length ?ex) \<or> jit_code (m_jit r) x \<noteq> None" for x
      by (simp add: place_code_at split: if_splits)
    show ?thesis
      unfolding code_ok_def lk
    proof (intro conjI allI impI)
      fix a assume "place_code ?syms ?ex ?next (jit_code (m_jit r)) a \<noteq> None"
      from code [OF this] old5 [of a] len show "a < ?next + length ?ds" by auto
    next
      fix n a
      assume h: "?syms n = Some a \<and> place_code ?syms ?ex ?next (jit_code (m_jit r)) a \<noteq> None"
      then have b: "?syms n = Some a" and cd: "place_code ?syms ?ex ?next (jit_code (m_jit r)) a \<noteq> None"
        by simp_all
      show "n \<in> fst ` set ?tbl"
      proof (cases "n \<in> set ?ds")
        case True
        then obtain idx where idx: "idx < length ?ds" "?ds ! idx = n"
          by (auto simp: in_set_conv_nth)
        from bind_symbols_nth [OF d idx(1), of ?next "jit_symbols ?jr"] idx(2) b
        have a: "a = ?next + idx" by simp
        from code [OF cd] old5 [of a] a have "idx < length ?ex" by auto
        then have "?ds ! idx = map getName ?ex ! idx" "map getName ?ex ! idx \<in> set (map getName ?ex)"
          unfolding ds by (simp_all add: nth_append)
        with idx(2) names show ?thesis by auto
      next
        case False
        with b have "jit_symbols ?jr n = Some a" by (simp add: bind_symbols_other)
        then have o: "jit_symbols (m_jit r) n = Some a" by (rule sub)
        with s have "a < ?next" by (simp add: symbols_ok_def)
        with cd have "jit_code (m_jit r) a \<noteq> None" by (simp add: place_code_at)
        from old6 [OF o this] keys show ?thesis by blast
      qed
    qed
  qed
qed

lemma session_inv_prepare_and_link:
  assumes "session_inv r"
  shows "session_inv (prepare_and_link m r)"
proof -
  from assms have t: "table_ok {} (m_fn_ptr_map r)"
    and s: "symbols_ok (jit_symbols (m_jit r)) (jit_next (m_jit r))"
    and c: "code_ok (m_fn_ptr_map r) (m_jit r)"
    by (simp_all add: session_inv_alt)
  let ?j = "m_jit (RemoveRedeclarationsFromJIT m r)"
  have "symbols_ok (jit_symbols ?j) (jit_next ?j)"
    using symbols_ok_restrict [OF s]
    by (simp add: Remove_closed)
  from symbols_ok_AddModule [OF this] table_ok_prepared [OF t] code_ok_prepare_and_link [OF s c]
  show ?thesis
    by (simp add: session_inv_alt prepare_and_link_fields)
qed

lemma session_inv_Update:
  "session_inv r \<Longrightarrow> session_inv (snd (UpdateFunctionPointers r))"
  by (simp add: session_inv_def Update_fields)


lemma link_view_simps:
  "link_view (register_decl d r) = link_view r"
  "link_view (print s r) = link_view r"
  "link_view (Log_Error msg r) = link_view r"
  "link_view (record_event e r) = link_view r"
  "link_view (snd (frontend t r)) = link_view r"
  "link_view (r\<lparr>hadAnyError := b\<rparr>) = link_view r"
  "link_view (r\<lparr>m_curr_input_number := k\<rparr>) = link_view r"
  "link_view (r\<lparr>m_imports := is\<rparr>) = link_view r"
  by (simp_all add: link_view_def register_decl_frame print_def Log_Error_def record_event_def
      frontend_frame)

lemma fold_AddDylib:
  "jit_symbols (fold JIT_AddDylib ls j) = jit_symbols j"
  "jit_code (fold JIT_AddDylib ls j) = jit_code j"
  "jit_memory (fold JIT_AddDylib ls j) = jit_memory j"
  "jit_next (fold JIT_AddDylib ls j) = jit_next j"
  "jit_unremovable (fold JIT_AddDylib ls j) = jit_unremovable j"
  by (induction ls arbitrary: j) (simp_all add: JIT_AddDylib_def)

lemma link_view_invoke_entry: "link_view (snd (invoke_entry res r)) = link_view r"
  by (cases res; cases "jit_symbols (m_jit r) (the res)")
     (simp_all add: JIT_LookupSymbol_def link_view_simps)

lemma link_view_at_declarations: "link_view (at_declarations t r) = link_view r"
proof -
  let ?r0 = "r\<lparr>m_curr_input_number := m_curr_input_number r + 1, hadAnyError := False\<rparr>"
  obtain imps where li: "LoadImportedModules (map fst (decls t)) (snd (frontend t ?r0))
      = (snd (frontend t ?r0))\<lparr>m_imports := imps\<rparr>"
    using LoadImportedModules_frame by blast
  have "link_view (at_declarations t r) = link_view (snd (frontend t ?r0))"
    unfolding at_declarations_def Let_def li by (simp add: link_view_def fold_AddDylib)
  also have "\<dots> = link_view r" by (simp add: link_view_def frontend_frame)
  finally show ?thesis .
qed

lemma ExecuteSwift_unfold:
  assumes "\<not> IsExitString (line t)"
    and "fst (frontend t (r\<lparr>m_curr_input_number := m_curr_input_number r + 1, hadAnyError := False\<rparr>)) = None"
  shows "ExecuteSwift t r =
     (case ExecuteSwift_loop (line_module t r) (decls t) None (at_declarations t r) of
        (AssertionFailure, r') \<Rightarrow> (Aborted, r')
      | (ReturnedEarly b, r') \<Rightarrow> (Returned b, r')
      | (RanThrough res_fn, r') \<Rightarrow> (case invoke_entry res_fn r' of (b, r'') \<Rightarrow> (Returned b, r'')))"
proof -
  let ?r0 = "r\<lparr>m_curr_input_number := m_curr_input_number r + 1, hadAnyError := False\<rparr>"
  from assms(2) obtain r' where f: "frontend t ?r0 = (None, r')"
    by (cases "frontend t ?r0") simp
  show ?thesis
    unfolding ExecuteSwift_def at_declarations_def line_module_def Let_def f
    using assms(1) by (simp add: declare_and_run_def Let_def)
qed

lemma ExecuteSwift_early:
  assumes "IsExitString (line t)
     \<or> fst (frontend t (r\<lparr>m_curr_input_number := m_curr_input_number r + 1, hadAnyError := False\<rparr>)) \<noteq> None"
  shows "link_view (snd (ExecuteSwift t r)) = link_view r"
proof -
  let ?r0 = "r\<lparr>m_curr_input_number := m_curr_input_number r + 1, hadAnyError := False\<rparr>"
  have v: "link_view (snd (frontend t ?r0)) = link_view r"
    by (simp add: link_view_def frontend_frame)
  show ?thesis
  proof (cases "IsExitString (line t)")
    case True
    then show ?thesis by (simp add: ExecuteSwift_def link_view_def)
  next
    case False
    with assms obtain b where "fst (frontend t ?r0) = Some b" by auto
    then obtain r' where f: "frontend t ?r0 = (Some b, r')"
      by (cases "frontend t ?r0") simp
    from v have "link_view r' = link_view r" unfolding f by simp
    with False show ?thesis
      unfolding ExecuteSwift_def Let_def f by simp
  qed
qed

text \<open>Invariants of the link state: how they pass from one compile step to a whole line.\<close>

lemma Compile_preserves:
  assumes frame: "\<And>r r'. link_view r' = link_view r \<Longrightarrow> P r \<Longrightarrow> P r'"
    and step: "\<And>r. P r \<Longrightarrow> P (snd (UpdateFunctionPointers (prepare_and_link (ir_module cg) r)))"
    and p: "P r"
  shows "P (snd (CompileSourceFileToIRAndAddToJIT cg r))"
proof (cases "hadAnyError r \<or> diag_SILGeneration cg \<or> diag_SILDiagnosticPasses cg")
  case True
  have "link_view (r\<lparr>hadAnyError := True\<rparr>) = link_view r" by (rule link_view_simps)
  from frame [OF this p] True show ?thesis by (simp add: Compile_diag)
next
  case False
  then have c: "\<not> hadAnyError r" "\<not> diag_SILGeneration cg" "\<not> diag_SILDiagnosticPasses cg"
    by simp_all
  let ?u = "snd (UpdateFunctionPointers (prepare_and_link (ir_module cg) r))"
  from step [OF p] have u: "P ?u" .
  have "link_view (Log_Error ''Unable to update function pointers'' ?u) = link_view ?u"
    by (rule link_view_simps)
  from frame [OF this u] u show ?thesis
    by (simp add: Compile_clean_snd [OF c] Let_def)
qed

lemma loop_preserves:
  assumes frame: "\<And>r r'. link_view r' = link_view r \<Longrightarrow> P r \<Longrightarrow> P r'"
    and step: "\<And>r m. m \<in> M \<Longrightarrow> P r \<Longrightarrow> P (snd (UpdateFunctionPointers (prepare_and_link m r)))"
  shows "\<forall>dc \<in> set ds. ir_module (snd dc) \<in> M \<Longrightarrow> P r \<Longrightarrow>
     P (snd (ExecuteSwift_loop mn ds res r))"
proof (induction ds arbitrary: res r)
  case Nil
  then show ?case by simp
next
  case (Cons dc rest)
  let ?c = "CompileSourceFileToIRAndAddToJIT (snd dc) (register_decl (fst dc) r)"
  from Cons.prems(1) have m: "ir_module (snd dc) \<in> M" and rest: "\<forall>dc \<in> set rest. ir_module (snd dc) \<in> M"
    by simp_all
  have "link_view (register_decl (fst dc) r) = link_view r" by (rule link_view_simps)
  from frame [OF this Cons.prems(2)] have pr: "P (register_decl (fst dc) r)" .
  have pc: "P (snd ?c)"
  proof (rule Compile_preserves [where P = P])
    show "\<And>r r'. link_view r' = link_view r \<Longrightarrow> P r \<Longrightarrow> P r'" by (rule frame)
    show "\<And>r. P r \<Longrightarrow> P (snd (UpdateFunctionPointers (prepare_and_link (ir_module (snd dc)) r)))"
      by (rule step [OF m])
    show "P (register_decl (fst dc) r)" by (rule pr)
  qed
  have pp: "P (print s r)" for s
    by (rule frame [OF _ Cons.prems(2)]) (rule link_view_simps)
  from Cons.IH [OF rest Cons.prems(2)] Cons.IH [OF rest pc] pc pp Cons.prems(2)
  show ?case
    unfolding ExecuteSwift_loop_step
    by (simp add: PRINT_INVALID_REDECLARATION_def split: verdict.splits)
qed

lemma turn_preserves:
  assumes frame: "\<And>r r'. link_view r' = link_view r \<Longrightarrow> P r \<Longrightarrow> P r'"
    and step: "\<And>r m. m \<in> M \<Longrightarrow> P r \<Longrightarrow> P (snd (UpdateFunctionPointers (prepare_and_link m r)))"
    and units: "\<forall>dc \<in> set (decls t). ir_module (snd dc) \<in> M"
    and p: "P r"
  shows "P (snd (ExecuteSwift t r))"
proof -
  let ?r0 = "r\<lparr>m_curr_input_number := m_curr_input_number r + 1, hadAnyError := False\<rparr>"
  show ?thesis
  proof (cases "IsExitString (line t) \<or> fst (frontend t ?r0) \<noteq> None")
    case True
    from frame [OF ExecuteSwift_early [OF True] p] show ?thesis .
  next
    case False
    then have e: "\<not> IsExitString (line t)" and f: "fst (frontend t ?r0) = None" by simp_all
    let ?l = "ExecuteSwift_loop (line_module t r) (decls t) None (at_declarations t r)"
    from frame [OF link_view_at_declarations p] have pa: "P (at_declarations t r)" .
    have pl: "P (snd ?l)"
    proof (rule loop_preserves [where P = P and M = M])
      show "\<And>r r'. link_view r' = link_view r \<Longrightarrow> P r \<Longrightarrow> P r'" by (rule frame)
      show "\<And>r m. m \<in> M \<Longrightarrow> P r \<Longrightarrow> P (snd (UpdateFunctionPointers (prepare_and_link m r)))"
        by (rule step)
      show "\<forall>dc \<in> set (decls t). ir_module (snd dc) \<in> M" by (rule units)
      show "P (at_declarations t r)" by (rule pa)
    qed
    have pi: "P (snd (invoke_entry res (snd ?l)))" for res
      by (rule frame [OF link_view_invoke_entry pl])
    obtain le r' where l: "?l = (le, r')" by (cases ?l)
    have "snd (ExecuteSwift t r) =
        (case le of RanThrough res_fn \<Rightarrow> snd (invoke_entry res_fn r') | _ \<Rightarrow> r')"
      unfolding ExecuteSwift_unfold [OF e f] l by (cases le) (simp_all split: prod.splits)
    with pl pi l show ?thesis by (cases le) simp_all
  qed
qed

lemma run_preserves:
  assumes frame: "\<And>r r'. link_view r' = link_view r \<Longrightarrow> P r \<Longrightarrow> P r'"
    and step: "\<And>r m. m \<in> M \<Longrightarrow> P r \<Longrightarrow> P (snd (UpdateFunctionPointers (prepare_and_link m r)))"
  shows "\<forall>t \<in> set ts. \<forall>dc \<in> set (decls t). ir_module (snd dc) \<in> M \<Longrightarrow> P r \<Longrightarrow> P (run ts r)"
proof (induction ts arbitrary: r)
  case Nil
  then show ?case by (simp add: run_def)
next
  case (Cons t ts)
  from Cons.prems(1) have u: "\<forall>dc \<in> set (decls t). ir_module (snd dc) \<in> M"
    and rest: "\<forall>t \<in> set ts. \<forall>dc \<in> set (decls t). ir_module (snd dc) \<in> M" by simp_all
  have "P (snd (ExecuteSwift t r))"
  proof (rule turn_preserves [where P = P and M = M])
    show "\<And>r r'. link_view r' = link_view r \<Longrightarrow> P r \<Longrightarrow> P r'" by (rule frame)
    show "\<And>r m. m \<in> M \<Longrightarrow> P r \<Longrightarrow> P (snd (UpdateFunctionPointers (prepare_and_link m r)))"
      by (rule step)
    show "\<forall>dc \<in> set (decls t). ir_module (snd dc) \<in> M" by (rule u)
    show "P r" by (rule Cons.prems(2))
  qed
  from Cons.IH [OF rest this] show ?case by (simp add: run_def)
qed

lemma link_viewD:
  assumes "link_view r' = link_view r"
  shows "m_fn_ptr_map r' = m_fn_ptr_map r" "jit_symbols (m_jit r') = jit_symbols (m_jit r)"
    "jit_code (m_jit r') = jit_code (m_jit r)" "jit_memory (m_jit r') = jit_memory (m_jit r)"
    "jit_next (m_jit r') = jit_next (m_jit r)"
  using assms by (simp_all add: link_view_def)

lemma session_inv_frame:
  assumes v: "link_view r' = link_view r" and i: "session_inv r"
  shows "session_inv r'"
  using i unfolding session_inv_def link_viewD [OF v] .

lemma session_inv_step:
  "session_inv r \<Longrightarrow> session_inv (snd (UpdateFunctionPointers (prepare_and_link m r)))"
  by (rule session_inv_Update [OF session_inv_prepare_and_link])


lemma session_inv_loop:
  assumes "session_inv r"
  shows "session_inv (snd (ExecuteSwift_loop mn ds res r))"
proof (rule loop_preserves [where P = session_inv and M = UNIV])
  show "\<And>r r'. link_view r' = link_view r \<Longrightarrow> session_inv r \<Longrightarrow> session_inv r'"
    by (rule session_inv_frame)
  show "\<And>r m. m \<in> UNIV \<Longrightarrow> session_inv r \<Longrightarrow>
      session_inv (snd (UpdateFunctionPointers (prepare_and_link m r)))"
    by (rule session_inv_step)
  show "\<forall>dc \<in> set ds. ir_module (snd dc) \<in> UNIV" by simp
  show "session_inv r" by (rule assms)
qed

lemma session_inv_turn:
  assumes "session_inv r"
  shows "session_inv (snd (ExecuteSwift t r))"
proof (rule turn_preserves [where P = session_inv and M = UNIV])
  show "\<And>r r'. link_view r' = link_view r \<Longrightarrow> session_inv r \<Longrightarrow> session_inv r'"
    by (rule session_inv_frame)
  show "\<And>r m. m \<in> UNIV \<Longrightarrow> session_inv r \<Longrightarrow>
      session_inv (snd (UpdateFunctionPointers (prepare_and_link m r)))"
    by (rule session_inv_step)
  show "\<forall>dc \<in> set (decls t). ir_module (snd dc) \<in> UNIV" by simp
  show "session_inv r" by (rule assms)
qed

lemma session_inv_run:
  assumes "session_inv r"
  shows "session_inv (run ts r)"
proof (rule run_preserves [where P = session_inv and M = UNIV])
  show "\<And>r r'. link_view r' = link_view r \<Longrightarrow> session_inv r \<Longrightarrow> session_inv r'"
    by (rule session_inv_frame)
  show "\<And>r m. m \<in> UNIV \<Longrightarrow> session_inv r \<Longrightarrow>
      session_inv (snd (UpdateFunctionPointers (prepare_and_link m r)))"
    by (rule session_inv_step)
  show "\<forall>t \<in> set ts. \<forall>dc \<in> set (decls t). ir_module (snd dc) \<in> UNIV" by simp
  show "session_inv r" by (rule assms)
qed

lemma session_inv_Create: "session_inv (REPL_Create p)"
  by (simp add: session_inv_def REPL_Create_def JIT_Create_def)


lemma defined_symbols_prepared:
  "set (defined_symbols (prepared_module m r)) \<subseteq> set (unit_symbols m)"
proof -
  from prepared_module_symbols [of m r] obtain new where
    "defined_symbols (prepared_module m r) = external_names (mod_functions m) @ mod_globals m @ map slot_name new"
    "set new \<subseteq> set (external_names (mod_functions m))" by blast
  then show ?thesis by (auto simp: unit_symbols_def)
qed

lemma step_symbols:
  "jit_symbols (m_jit (snd (UpdateFunctionPointers (prepare_and_link m r)))) =
     jit_symbols (JIT_AddModule (prepared_module m r) (m_jit (RemoveRedeclarationsFromJIT m r)))"
  by (simp add: Update_fields prepare_and_link_fields)

lemma step_symbols_other:
  assumes "n \<notin> set (unit_symbols m)"
  shows "jit_symbols (m_jit (snd (UpdateFunctionPointers (prepare_and_link m r)))) n
           = jit_symbols (m_jit r) n"
proof -
  from assms defined_symbols_prepared [of m r]
  have a: "n \<notin> set (defined_symbols (prepared_module m r))" by blast
  from assms have b: "n \<notin> set (external_names (mod_functions m))"
    by (simp add: unit_symbols_def)
  show ?thesis
    unfolding step_symbols by (simp add: AddModule_symbols_other [OF a] symbols_after_Remove b)
qed


lemma AddModule_code_old:
  "a < jit_next j \<Longrightarrow> jit_code (JIT_AddModule m j) a = jit_code j a"
  by (simp add: JIT_AddModule_def Let_def place_code_at)

lemma AddModule_next: "jit_next j \<le> jit_next (JIT_AddModule m j)"
  by (simp add: JIT_AddModule_def Let_def)

lemma step_code_old:
  assumes "a < jit_next (m_jit r)"
  shows "jit_code (m_jit (snd (UpdateFunctionPointers (prepare_and_link m r)))) a
           = jit_code (m_jit r) a"
  using assms
  by (simp add: Update_fields prepare_and_link_fields AddModule_code_old Remove_jit_frame)

lemma step_next:
  "jit_next (m_jit r) \<le> jit_next (m_jit (snd (UpdateFunctionPointers (prepare_and_link m r))))"
  using AddModule_next [of "m_jit (RemoveRedeclarationsFromJIT m r)" "prepared_module m r"]
  by (simp add: Update_fields prepare_and_link_fields Remove_jit_frame)

lemma step_table_slot:
  assumes "map_of (m_fn_ptr_map r) f = Some s" "s \<noteq> []"
  shows "map_of (m_fn_ptr_map (snd (UpdateFunctionPointers (prepare_and_link m r)))) f = Some s"
  using prepared_table_keeps_slot [OF assms]
  by (simp add: Update_fields prepare_and_link_fields)




text \<open>The same over a whole line.\<close>

lemma turn_symbols_other:
  assumes "n \<notin> set (turn_symbols t)"
  shows "jit_symbols (m_jit (snd (ExecuteSwift t r))) n = jit_symbols (m_jit r) n"
proof (rule turn_preserves [where P = "\<lambda>r'. jit_symbols (m_jit r') n = jit_symbols (m_jit r) n"
      and M = "{m. n \<notin> set (unit_symbols m)}"])
  show "\<forall>dc \<in> set (decls t). ir_module (snd dc) \<in> {m. n \<notin> set (unit_symbols m)}"
    using assms by (auto simp: turn_symbols_def)
  show "jit_symbols (m_jit r) n = jit_symbols (m_jit r) n" by simp
next
  fix r1 r2 :: repl
  assume v: "link_view r2 = link_view r1" and h: "jit_symbols (m_jit r1) n = jit_symbols (m_jit r) n"
  from h show "jit_symbols (m_jit r2) n = jit_symbols (m_jit r) n" by (simp add: link_viewD [OF v])
next
  fix r1 :: repl and m :: llvm_module
  assume "m \<in> {m. n \<notin> set (unit_symbols m)}" "jit_symbols (m_jit r1) n = jit_symbols (m_jit r) n"
  then show "jit_symbols (m_jit (snd (UpdateFunctionPointers (prepare_and_link m r1)))) n
      = jit_symbols (m_jit r) n"
    by (simp add: step_symbols_other)
qed

lemma turn_code_old:
  "jit_next (m_jit r) \<le> jit_next (m_jit (snd (ExecuteSwift t r)))
   \<and> (\<forall>a < jit_next (m_jit r). jit_code (m_jit (snd (ExecuteSwift t r))) a = jit_code (m_jit r) a)"
proof (rule turn_preserves [where P = "\<lambda>r'. jit_next (m_jit r) \<le> jit_next (m_jit r')
      \<and> (\<forall>a < jit_next (m_jit r). jit_code (m_jit r') a = jit_code (m_jit r) a)" and M = UNIV])
  show "\<forall>dc \<in> set (decls t). ir_module (snd dc) \<in> UNIV" by simp
  show "jit_next (m_jit r) \<le> jit_next (m_jit r)
      \<and> (\<forall>a < jit_next (m_jit r). jit_code (m_jit r) a = jit_code (m_jit r) a)" by simp
next
  fix r1 r2 :: repl
  assume v: "link_view r2 = link_view r1" and h: "jit_next (m_jit r) \<le> jit_next (m_jit r1)
      \<and> (\<forall>a < jit_next (m_jit r). jit_code (m_jit r1) a = jit_code (m_jit r) a)"
  from h show "jit_next (m_jit r) \<le> jit_next (m_jit r2)
      \<and> (\<forall>a < jit_next (m_jit r). jit_code (m_jit r2) a = jit_code (m_jit r) a)"
    by (simp add: link_viewD [OF v])
next
  fix r1 :: repl and m :: llvm_module
  assume h: "jit_next (m_jit r) \<le> jit_next (m_jit r1)
      \<and> (\<forall>a < jit_next (m_jit r). jit_code (m_jit r1) a = jit_code (m_jit r) a)"
  let ?s = "snd (UpdateFunctionPointers (prepare_and_link m r1))"
  from h step_next [of r1 m] have n: "jit_next (m_jit r) \<le> jit_next (m_jit ?s)" by simp
  have "jit_code (m_jit ?s) a = jit_code (m_jit r) a" if "a < jit_next (m_jit r)" for a
  proof -
    from that h have "a < jit_next (m_jit r1)" by simp
    from step_code_old [OF this, of m] h that show ?thesis by simp
  qed
  with n show "jit_next (m_jit r) \<le> jit_next (m_jit ?s)
      \<and> (\<forall>a < jit_next (m_jit r). jit_code (m_jit ?s) a = jit_code (m_jit r) a)"
    by simp
qed

lemma turn_table_slot:
  assumes "map_of (m_fn_ptr_map r) f = Some s" "s \<noteq> []"
  shows "map_of (m_fn_ptr_map (snd (ExecuteSwift t r))) f = Some s"
proof (rule turn_preserves [where P = "\<lambda>r'. map_of (m_fn_ptr_map r') f = Some s" and M = UNIV])
  show "map_of (m_fn_ptr_map r) f = Some s" by (rule assms(1))
  show "\<forall>dc \<in> set (decls t). ir_module (snd dc) \<in> UNIV" by simp
next
  fix r1 r2 :: repl
  assume v: "link_view r2 = link_view r1" and h: "map_of (m_fn_ptr_map r1) f = Some s"
  from h show "map_of (m_fn_ptr_map r2) f = Some s" by (simp add: link_viewD [OF v])
next
  fix r1 :: repl and m :: llvm_module
  assume "map_of (m_fn_ptr_map r1) f = Some s"
  then show "map_of (m_fn_ptr_map (snd (UpdateFunctionPointers (prepare_and_link m r1)))) f = Some s"
    using assms(2) by (rule step_table_slot)
qed

lemma fold_apply_patch:
  "fold apply_patch (map (patch_event syms) es) mem = fold (patch_memory syms) es mem"
  by (induction es arbitrary: mem) (simp_all add: patch_event_def patch_memory_def)

lemma patches_of_prefix:
  "list_all (patch_of syms tbl) (map (patch_event syms) (takeWhile (resolvable syms) tbl))"
proof -
  have "patch_of syms tbl (patch_event syms e)" if "e \<in> set (takeWhile (resolvable syms) tbl)" for e
    using set_takeWhile_resolvable [OF that] by (auto simp: patch_of_def list_ex_iff)
  then show ?thesis by (simp add: list_all_iff)
qed

lemma removal_leaves:
  "jit_symbols (m_jit (RemoveRedeclarationsFromJIT m r)) n =
     (if n \<in> set (external_names (mod_functions m)) \<and> \<not> refused (m_jit r) n then None
      else jit_symbols (m_jit r) n)"
  by (auto simp: symbols_after_Remove refused_def)

lemma frontend_passes:
  assumes "\<not> frontend_diagnostic t" "\<not> src_file_is_null t" "\<not> hadAnyError r"
  shows "fst (frontend t r) = None"
proof -
  from assms(3) have same: "r\<lparr>hadAnyError := False\<rparr> = r" by simp
  from assms show ?thesis
    by (auto simp: frontend_def frontend_diagnostic_def diagnose_def Let_def
        parseIntoSourceFile_flag same)
qed

lemma at_declarations_registry:
  "m_decl_map (at_declarations t r) = m_decl_map r" "src_files (at_declarations t r) = src_files r"
  "m_curr_input_number (at_declarations t r) = m_curr_input_number r + 1"
proof -
  let ?r0 = "r\<lparr>m_curr_input_number := m_curr_input_number r + 1, hadAnyError := False\<rparr>"
  obtain imps where li: "LoadImportedModules (map fst (decls t)) (snd (frontend t ?r0))
      = (snd (frontend t ?r0))\<lparr>m_imports := imps\<rparr>"
    using LoadImportedModules_frame by blast
  show "m_decl_map (at_declarations t r) = m_decl_map r"
    "src_files (at_declarations t r) = src_files r"
    "m_curr_input_number (at_declarations t r) = m_curr_input_number r + 1"
    unfolding at_declarations_def Let_def li by (simp_all add: frontend_frame)
qed

lemma invoke_entry_result:
  "fst (invoke_entry (Some n) r) = (jit_symbols (m_jit r) n \<noteq> None)"
  by (cases "jit_symbols (m_jit r) n") (simp_all add: JIT_LookupSymbol_def)

lemma ExecuteSwift_frame:
  assumes "registry_ok r"
  shows "(\<exists>b. fst (ExecuteSwift t r) = Returned b)"
    and "registry_ok (snd (ExecuteSwift t r))"
    and "dom (m_decl_map r) \<subseteq> dom (m_decl_map (snd (ExecuteSwift t r)))"
    and "fst ` set (m_fn_ptr_map r) \<subseteq> fst ` set (m_fn_ptr_map (snd (ExecuteSwift t r)))"
    and "m_curr_input_number (snd (ExecuteSwift t r)) = m_curr_input_number r + 1"
proof -
  let ?r0 = "r\<lparr>m_curr_input_number := m_curr_input_number r + 1, hadAnyError := False\<rparr>"
  from assms have ok0: "registry_ok ?r0" by (simp add: registry_ok_def)
  have "(\<exists>b. fst (ExecuteSwift t r) = Returned b)
    \<and> registry_ok (snd (ExecuteSwift t r))
    \<and> dom (m_decl_map r) \<subseteq> dom (m_decl_map (snd (ExecuteSwift t r)))
    \<and> fst ` set (m_fn_ptr_map r) \<subseteq> fst ` set (m_fn_ptr_map (snd (ExecuteSwift t r)))
    \<and> m_curr_input_number (snd (ExecuteSwift t r)) = m_curr_input_number r + 1"
  proof (cases "IsExitString (line t)")
    case True
    with ok0 show ?thesis by (auto simp: ExecuteSwift_def)
  next
    case False
    obtain b r' where f: "frontend t ?r0 = (b, r')" by (cases "frontend t ?r0")
    from frontend_frame [of t ?r0] f have fr: "m_decl_map r' = m_decl_map r"
      "src_files r' = src_files r" "m_fn_ptr_map r' = m_fn_ptr_map r"
      "m_curr_input_number r' = m_curr_input_number r + 1" by simp_all
    with assms have ok': "registry_ok r'" by (simp add: registry_ok_def)
    show ?thesis
    proof (cases b)
      case (Some v)
      with False f fr ok' show ?thesis by (auto simp: ExecuteSwift_def)
    next
      case None
      with False f have e: "ExecuteSwift t r = declare_and_run t r'" by (simp add: ExecuteSwift_def)
      from declare_and_run_local [OF ok', of t] fr show ?thesis unfolding e by simp
    qed
  qed
  then show "(\<exists>b. fst (ExecuteSwift t r) = Returned b)"
    and "registry_ok (snd (ExecuteSwift t r))"
    and "dom (m_decl_map r) \<subseteq> dom (m_decl_map (snd (ExecuteSwift t r)))"
    and "fst ` set (m_fn_ptr_map r) \<subseteq> fst ` set (m_fn_ptr_map (snd (ExecuteSwift t r)))"
    and "m_curr_input_number (snd (ExecuteSwift t r)) = m_curr_input_number r + 1"
    by blast+
qed















section \<open>The exit tokens\<close>

text \<open>
  C9, as stated: processing an exit token leaves the turn counter unchanged. It does not:
  \<^verbatim>\<open>ExecuteSwift\<close> increments \<open>m_curr_input_number\<close> (line 145) before it looks at the line
  (line 148). At the line \<^verbatim>\<open>exit\<close> in a fresh session the counter goes from 1 to 2.
\<close>

theorem exit_line_counter_counterexample:
  "m_curr_input_number (snd (ExecuteSwift exit_line (REPL_Create False)))
     \<noteq> m_curr_input_number (REPL_Create False)"
  by (simp add: ExecuteSwift_def exit_line_def accepted_line_def IsExitString_def REPL_Create_def)

text \<open>
  C9, amended: at an exit token \<^verbatim>\<open>ExecuteSwift\<close> returns \<^verbatim>\<open>false\<close> and the loop ends with the
  rest of the input unread; nothing is compiled; the registry, the source files behind
  it, the indirection table, the JIT session, the output and the trace are as before; the
  counter has grown by one and the diagnostic flag is reset.
\<close>

theorem exit_line_ends_loop:
  assumes "IsExitString (line t)"
  shows "ExecuteSwift t r =
           (Returned False, r\<lparr>m_curr_input_number := m_curr_input_number r + 1, hadAnyError := False\<rparr>)
         \<and> (\<forall>input r0 ts. GetLine input r0 = (Some (t, ts), r) \<longrightarrow>
               runLoop input r0 =
                 (Exited ts, r\<lparr>m_curr_input_number := m_curr_input_number r + 1, hadAnyError := False\<rparr>))"
proof -
  have ex: "ExecuteSwift t r =
      (Returned False, r\<lparr>m_curr_input_number := m_curr_input_number r + 1, hadAnyError := False\<rparr>)"
    using assms by (simp add: ExecuteSwift_def)
  have "runLoop input r0 =
      (Exited ts, r\<lparr>m_curr_input_number := m_curr_input_number r + 1, hadAnyError := False\<rparr>)"
    if "GetLine input r0 = (Some (t, ts), r)" for input r0 ts
    using that ex assms by (subst runLoop.simps) simp
  with ex show ?thesis by blast
qed

theorem exit_line_ends_loop_witness:
  "IsExitString (line exit_line)
   \<and> fst (ExecuteSwift exit_line (REPL_Create True)) = Returned False
   \<and> m_curr_input_number (snd (ExecuteSwift exit_line (REPL_Create True))) = 2
   \<and> m_decl_map (snd (ExecuteSwift exit_line (REPL_Create True))) = m_decl_map (REPL_Create True)
   \<and> m_fn_ptr_map (snd (ExecuteSwift exit_line (REPL_Create True))) = []
   \<and> m_jit (snd (ExecuteSwift exit_line (REPL_Create True))) = JIT_Create"
proof -
  have e: "IsExitString (line exit_line)"
    by (simp add: exit_line_def accepted_line_def IsExitString_def)
  from exit_line_ends_loop [OF e, of "REPL_Create True"] e show ?thesis
    by (simp add: REPL_Create_def)
qed

section \<open>Frontend diagnostics\<close>

text \<open>
  C7: when the frontend raises a diagnostic at any stage (creating the module, adding the
  file, parsing, name binding, type checking, checking external definitions), the line is
  given up at once: \<^verbatim>\<open>ExecuteSwift\<close> returns \<^verbatim>\<open>true\<close> with only the counter and the diagnostic
  flag changed, so the Declaration Registry, the source files behind it, the Indirection
  Table and the JIT session are exactly as before the line, and no linker operation was
  performed. (When the source file cannot even be created and no diagnostic came before,
  the function returns at line 168 instead; the state components are untouched there
  too.)
\<close>

theorem frontend_diagnostic_commits_nothing:
  assumes "frontend_diagnostic t" and "\<not> IsExitString (line t)"
  shows "(let r' = snd (ExecuteSwift t r) in
           m_decl_map r' = m_decl_map r \<and> src_files r' = src_files r
           \<and> m_fn_ptr_map r' = m_fn_ptr_map r \<and> m_jit r' = m_jit r \<and> trace r' = trace r)
         \<and> (src_file_is_null t \<and> \<not> diag_ModuleDecl_create t
            \<or> ExecuteSwift t r =
                 (Returned True,
                  r\<lparr>m_curr_input_number := m_curr_input_number r + 1, hadAnyError := True\<rparr>))"
proof -
  let ?r0 = "r\<lparr>m_curr_input_number := m_curr_input_number r + 1, hadAnyError := False\<rparr>"
  have "\<not> hadAnyError ?r0" by simp
  from frontend_diagnosed [OF assms(1) this] assms(2) show ?thesis
    by (simp add: ExecuteSwift_def Let_def Log_Error_def)
qed

theorem frontend_diagnostic_commits_nothing_witness:
  "frontend_diagnostic ill_typed_line \<and> \<not> IsExitString (line ill_typed_line)
   \<and> fst (ExecuteSwift ill_typed_line (snd (ExecuteSwift function_line (REPL_Create False))))
       = Returned True
   \<and> m_decl_map (snd (ExecuteSwift ill_typed_line (snd (ExecuteSwift function_line (REPL_Create False)))))
       = m_decl_map (snd (ExecuteSwift function_line (REPL_Create False)))
   \<and> m_fn_ptr_map (snd (ExecuteSwift ill_typed_line (snd (ExecuteSwift function_line (REPL_Create False)))))
       = [(''$f'', ''$f_ptr'')]
   \<and> m_jit (snd (ExecuteSwift ill_typed_line (snd (ExecuteSwift function_line (REPL_Create False)))))
       = m_jit (snd (ExecuteSwift function_line (REPL_Create False)))"
proof -
  have d: "frontend_diagnostic ill_typed_line"
    by (simp add: frontend_diagnostic_def ill_typed_line_def accepted_line_def)
  have e: "\<not> IsExitString (line ill_typed_line)"
    by (simp add: IsExitString_def ill_typed_line_def accepted_line_def)
  have n: "\<not> src_file_is_null ill_typed_line"
    by (simp add: ill_typed_line_def accepted_line_def)
  have tbl: "m_fn_ptr_map (snd (ExecuteSwift function_line (REPL_Create False))) = [(''$f'', ''$f_ptr'')]"
    by (simp add: run_defs function_line_def)
  from frontend_diagnostic_commits_nothing
         [OF d e, of "snd (ExecuteSwift function_line (REPL_Create False))"] d e n tbl
  show ?thesis by (simp add: Let_def)
qed

section \<open>Rejected redeclarations\<close>

text \<open>
  C2, as stated: after a rejection the turn goes on with the remaining declarations. It
  does not: \<^verbatim>\<open>PRINT_INVALID_REDECLARATION\<close> (line 141) prints and returns from
  \<^verbatim>\<open>ExecuteSwift\<close>. After \<^verbatim>\<open>var x = 1\<close>, the line \<^verbatim>\<open>var x = 2; func h() {}\<close> has its first
  declaration rejected; the function \<^verbatim>\<open>h\<close> after it, which the checks accept, is neither
  registered nor linked.
\<close>

theorem rejection_skips_rest_counterexample:
  "validate (snd (ExecuteSwift variable_line (REPL_Create False))) (ValueDecl ''x'')
     = InvalidRedeclaration ''x''
   \<and> validate (snd (ExecuteSwift variable_line (REPL_Create False))) (FuncDecl ''h'' ''$h'')
     = Accepted
   \<and> m_decl_map (snd (ExecuteSwift redeclaring_line
        (snd (ExecuteSwift variable_line (REPL_Create False))))) ''h'' = None
   \<and> jit_symbols (m_jit (snd (ExecuteSwift redeclaring_line
        (snd (ExecuteSwift variable_line (REPL_Create False)))))) ''$h'' = None"
  by (simp add: run_defs variable_line_def redeclaring_line_def)

text \<open>
  C2, amended: when the checks reject a declaration of a line, the message
  \<^verbatim>\<open>Invalid redeclaration of <name>\<close> is printed and \<^verbatim>\<open>ExecuteSwift\<close> returns \<^verbatim>\<open>true\<close> at that
  declaration: the state is the one the earlier declarations of the line left, plus the
  message, whatever declarations follow (they are all skipped, and the entry function of
  the line is not called).
\<close>

theorem rejected_declaration_ends_turn:
  assumes "ExecuteSwift_loop mn pre res r = (RanThrough res', r1)"
    and "validate r1 d = InvalidRedeclaration n"
  shows "ExecuteSwift_loop mn (pre @ (d, cg) # rest) res r =
           (ReturnedEarly True, print (''Invalid redeclaration of '' @ n @ [CHR 0x0A]) r1)
         \<and> n = unmangled_name_of d"
  using assms validate_rejects_values [OF assms(2)]
  by (simp add: ExecuteSwift_loop_append PRINT_INVALID_REDECLARATION_def)

theorem rejected_declaration_ends_turn_witness:
  "ExecuteSwift_loop ''__repl_3'' [] None (snd (ExecuteSwift variable_line (REPL_Create False)))
     = (RanThrough None, snd (ExecuteSwift variable_line (REPL_Create False)))
   \<and> validate (snd (ExecuteSwift variable_line (REPL_Create False))) (ValueDecl ''x'')
       = InvalidRedeclaration ''x''
   \<and> ExecuteSwift_loop ''__repl_3'' (decls redeclaring_line) None
         (snd (ExecuteSwift variable_line (REPL_Create False)))
       = (ReturnedEarly True,
          print (''Invalid redeclaration of x'' @ [CHR 0x0A])
            (snd (ExecuteSwift variable_line (REPL_Create False))))"
proof -
  let ?r1 = "snd (ExecuteSwift variable_line (REPL_Create False))"
  have a: "ExecuteSwift_loop ''__repl_3'' [] None ?r1 = (RanThrough None, ?r1)" by simp
  have v: "validate ?r1 (ValueDecl ''x'') = InvalidRedeclaration ''x''"
    by (simp add: run_defs variable_line_def)
  have ds: "decls redeclaring_line =
      [] @ (ValueDecl ''x'', unit_of []) #
        [(FuncDecl ''h'' ''$h'', unit_of [defined_function ''$h'' [Opaque 0]])]"
    by (simp add: redeclaring_line_def accepted_line_def)
  from rejected_declaration_ends_turn [OF a v, of "unit_of []"
      "[(FuncDecl ''h'' ''$h'', unit_of [defined_function ''$h'' [Opaque 0]])]"] a v
  show ?thesis unfolding ds by simp
qed

section \<open>The redeclaration checks\<close>

text \<open>
  C3, as stated: an unknown name is accepted. In a playground it is not when the
  declaration is a function whose mangled symbol is registered already: the playground
  test of line 244 looks at the mangled symbol alone. After the line
  \<^verbatim>\<open>var $s8__REPL__1fyyF = 0\<close> in a playground, a function \<^verbatim>\<open>f\<close> with that link symbol is
  rejected although the name \<^verbatim>\<open>f\<close> is unknown.
\<close>

theorem unknown_name_rejected_counterexample:
  "m_is_playground (snd (ExecuteSwift dollar_variable_line (REPL_Create True)))
   \<and> m_decl_map (snd (ExecuteSwift dollar_variable_line (REPL_Create True))) ''f'' = None
   \<and> validate (snd (ExecuteSwift dollar_variable_line (REPL_Create True)))
         (FuncDecl ''f'' ''$s8__REPL__1fyyF'') = InvalidRedeclaration ''f''"
  by (simp add: run_defs dollar_variable_line_def)

text \<open>
  C3, amended. For a declaration checked against the registry:
  \<^item> a function whose unmangled name is unknown is accepted, unless the session is a
    playground and the function's mangled symbol is registered;
  \<^item> any other value declaration whose name is unknown is accepted;
  \<^item> a function whose unmangled name is registered for a declaration that is not a
    function is rejected;
  \<^item> any other value declaration whose name is registered is rejected, whether the
    registered declaration is a function or not;
  \<^item> a function whose unmangled name is registered for a function is accepted, unless the
    session is a playground and the function's mangled symbol is registered;
  \<^item> in a playground every value declaration whose symbol (the mangled name of a function,
    the name of anything else) is registered is rejected.
\<close>

theorem validate_rules:
  "(m_decl_map r u = None \<longrightarrow>
      validate r (FuncDecl u m) =
        (if m_is_playground r \<and> m_decl_map r m \<noteq> None then InvalidRedeclaration u else Accepted))
   \<and> (m_decl_map r n = None \<longrightarrow> validate r (ValueDecl n) = Accepted)
   \<and> (m_decl_map r u = Some h \<and> src_files r h = [d0] \<and> \<not> isa_FuncDecl d0 \<longrightarrow>
        validate r (FuncDecl u m) = InvalidRedeclaration u)
   \<and> (m_decl_map r n \<noteq> None \<longrightarrow> validate r (ValueDecl n) = InvalidRedeclaration n)
   \<and> (m_decl_map r u = Some h \<and> src_files r h = [d0] \<and> isa_FuncDecl d0 \<longrightarrow>
        validate r (FuncDecl u m) =
          (if m_is_playground r \<and> m_decl_map r m \<noteq> None then InvalidRedeclaration u else Accepted))
   \<and> (registry_ok r \<and> m_is_playground r \<and> isa_ValueDecl d \<and> m_decl_map r (name_of d) \<noteq> None \<longrightarrow>
        validate r d = InvalidRedeclaration (unmangled_name_of d))"
proof -
  have playground: "validate r d = InvalidRedeclaration (unmangled_name_of d)"
    if "registry_ok r" "m_is_playground r" "isa_ValueDecl d" "m_decl_map r (name_of d) \<noteq> None"
  proof (cases d)
    case (FuncDecl u' m')
    show ?thesis
    proof (cases "m_decl_map r u'")
      case None
      with that FuncDecl show ?thesis by (simp add: validate_def)
    next
      case (Some h')
      with that(1) have "length (src_files r h') = 1" by (simp add: registry_ok_def)
      then obtain d1 where "src_files r h' = [d1]"
        by (cases "src_files r h'") auto
      with that FuncDecl Some show ?thesis by (simp add: validate_def)
    qed
  next
    case (ValueDecl n')
    with that show ?thesis by (auto simp add: validate_def)
  qed (use that in simp_all)
  show ?thesis
    using playground by (auto simp: validate_def)
qed

theorem validate_rules_witness:
  "m_decl_map (snd (ExecuteSwift function_line (REPL_Create True))) ''g'' = None
   \<and> validate (snd (ExecuteSwift function_line (REPL_Create True))) (FuncDecl ''g'' ''$g'') = Accepted
   \<and> validate (snd (ExecuteSwift function_line (REPL_Create True))) (ValueDecl ''g'') = Accepted
   \<and> m_decl_map (snd (ExecuteSwift function_line (REPL_Create True))) ''f'' = Some 0
   \<and> src_files (snd (ExecuteSwift function_line (REPL_Create True))) 0 = [FuncDecl ''f'' ''$f'']
   \<and> validate (snd (ExecuteSwift function_line (REPL_Create True))) (ValueDecl ''f'')
       = InvalidRedeclaration ''f''
   \<and> validate (snd (ExecuteSwift function_line (REPL_Create True))) (FuncDecl ''f'' ''$f2'') = Accepted
   \<and> registry_ok (snd (ExecuteSwift function_line (REPL_Create True)))
   \<and> m_is_playground (snd (ExecuteSwift function_line (REPL_Create True)))
   \<and> validate (snd (ExecuteSwift function_line (REPL_Create True))) (FuncDecl ''f'' ''$f'')
       = InvalidRedeclaration ''f''
   \<and> m_decl_map (snd (ExecuteSwift variable_line (REPL_Create False))) ''x'' = Some 0
   \<and> src_files (snd (ExecuteSwift variable_line (REPL_Create False))) 0 = [ValueDecl ''x'']
   \<and> validate (snd (ExecuteSwift variable_line (REPL_Create False))) (FuncDecl ''x'' ''$x'')
       = InvalidRedeclaration ''x''"
proof -
  let ?rf = "snd (ExecuteSwift function_line (REPL_Create True))"
  let ?rv = "snd (ExecuteSwift variable_line (REPL_Create False))"
  have f: "m_decl_map ?rf = [''f'' \<mapsto> 0, ''$f'' \<mapsto> 0]" "src_files ?rf 0 = [FuncDecl ''f'' ''$f'']"
    "m_is_playground ?rf"
    by (simp_all add: run_defs function_line_def)
  have v: "m_decl_map ?rv ''x'' = Some 0" "src_files ?rv 0 = [ValueDecl ''x'']"
    by (simp_all add: run_defs variable_line_def)
  have ok: "registry_ok ?rf"
    unfolding registry_ok_def f(1) using f(2) by (auto split: if_splits)
  from validate_rules [of ?rf "''g''" "''$g''" "''f''" 0 "FuncDecl ''f'' ''$f''" "FuncDecl ''f'' ''$f''"]
    validate_rules [of ?rf "''f''" "''$f2''" "''g''" 0 "FuncDecl ''f'' ''$f''" "FuncDecl ''f'' ''$f''"]
    validate_rules [of ?rv "''x''" "''$x''" "''x''" 0 "ValueDecl ''x''" "ValueDecl ''x''"]
    f v ok
  show ?thesis by simp
qed

section \<open>The patching pass\<close>



section \<open>Failed removals\<close>

text \<open>
  C5, as stated: a removal failure other than "not found" is fatal to the turn. It is not:
  the handler of \<^verbatim>\<open>SymbolsCouldNotBeRemoved\<close> (lines 51 to 54) logs a message and the loop
  goes on. In a session whose linker refuses to remove \<^verbatim>\<open>$f\<close>, the line that declares \<^verbatim>\<open>f\<close>
  again runs to its end: the refusal is logged, the unit is handed to the linker all the
  same, the next unit of the line is linked and the entry function of the line is
  called.
\<close>

theorem refused_removal_counterexample:
  "fst (JIT_RemoveSymbol ''$f'' (m_jit (snd (ExecuteSwift function_line pinned_session))))
     = Some SymbolsCouldNotBeRemoved
   \<and> fst (ExecuteSwift redefining_line (snd (ExecuteSwift function_line pinned_session)))
     = Returned True
   \<and> error_log (snd (ExecuteSwift redefining_line (snd (ExecuteSwift function_line pinned_session))))
     = [''Could not remove symbol$f'']
   \<and> trace (snd (ExecuteSwift redefining_line (snd (ExecuteSwift function_line pinned_session))))
     = trace (snd (ExecuteSwift function_line pinned_session))
       @ [EvRemoveSymbol ''$f'', EvAddModule [''$f''], EvPatch ''$f'' 1 0,
          EvRemoveSymbol ''$r3'', EvAddModule [''$r3'', ''$r3_ptr''],
          EvPatch ''$f'' 1 0, EvPatch ''$r3'' 3 2, EvInvoke ''$r3'' 2]"
  by code_simp

text \<open>
  C5, amended. While a unit is prepared (its code generation having raised no
  diagnostic):
  \<^item> a removal request for a symbol that is not bound answers \<^verbatim>\<open>SymbolsNotFound\<close> and leaves
    the linker as it was; when none of the unit's functions is bound, the whole removal
    loop changes nothing in the linker and logs nothing;
  \<^item> the only trace a refused removal leaves is the logged message
    \<^verbatim>\<open>Could not remove symbol<name>\<close>, one per refused symbol;
  \<^item> whatever the requests answered, all of them are made and the unit is then handed to
    \<^verbatim>\<open>AddModule\<close>; whether the compile step succeeds depends on the patching pass alone;
  \<^item> when the linker reports no conflict for the unit, every symbol the unit defines is
    bound afterwards: a failed removal of an unbound symbol blocks nothing.
\<close>

theorem removal_failures_do_not_abort:
  assumes "\<not> hadAnyError r" "\<not> diag_SILGeneration cg" "\<not> diag_SILDiagnosticPasses cg"
  shows
    "(let names = external_names (mod_functions (ir_module cg));
          r3 = RemoveRedeclarationsFromJIT (ir_module cg) r;
          m = prepared_module (ir_module cg) r;
          r' = snd (CompileSourceFileToIRAndAddToJIT cg r)
      in (\<forall>n. jit_symbols (m_jit r) n = None \<longrightarrow>
            JIT_RemoveSymbol n (m_jit r) = (Some SymbolsNotFound, m_jit r))
         \<and> ((\<forall>n \<in> set names. jit_symbols (m_jit r) n = None) \<longrightarrow>
              m_jit r3 = m_jit r \<and> error_log r3 = error_log r)
         \<and> error_log r3 =
             error_log r @ map (\<lambda>n. ''Could not remove symbol'' @ n) (filter (refused (m_jit r)) names)
         \<and> (\<exists>patches. trace r' =
               trace r @ map EvRemoveSymbol names @ EvAddModule (defined_symbols m) # patches)
         \<and> fst (CompileSourceFileToIRAndAddToJIT cg r) =
             (fst (UpdateFunctionPointers (prepare_and_link (ir_module cg) r)) = None)
         \<and> (\<not> link_conflict m (m_jit r3) \<longrightarrow>
              (\<forall>n \<in> set (defined_symbols m). jit_symbols (m_jit r') n \<noteq> None)))"
proof -
  let ?names = "external_names (mod_functions (ir_module cg))"
  let ?r3 = "RemoveRedeclarationsFromJIT (ir_module cg) r"
  let ?m = "prepared_module (ir_module cg) r"
  let ?r' = "snd (CompileSourceFileToIRAndAddToJIT cg r)"
  have a: "JIT_RemoveSymbol n (m_jit r) = (Some SymbolsNotFound, m_jit r)"
    if "jit_symbols (m_jit r) n = None" for n
    using that by (simp add: JIT_RemoveSymbol_def)
  have b: "m_jit ?r3 = m_jit r \<and> error_log ?r3 = error_log r"
    if "\<forall>n \<in> set ?names. jit_symbols (m_jit r) n = None"
  proof -
    have "(\<lambda>n. if n \<in> set ?names \<and> n \<notin> set (jit_unremovable (m_jit r)) then None
              else jit_symbols (m_jit r) n) = jit_symbols (m_jit r)"
      using that by (auto simp: fun_eq_iff)
    moreover have "filter (refused (m_jit r)) ?names = []"
      using that by (auto simp: filter_empty_conv refused_def)
    ultimately show ?thesis by (simp add: Remove_closed)
  qed
  have c: "error_log ?r3 =
      error_log r @ map (\<lambda>n. ''Could not remove symbol'' @ n) (filter (refused (m_jit r)) ?names)"
    by (simp add: Remove_closed)
  have d: "\<exists>patches. trace ?r' =
      trace r @ map EvRemoveSymbol ?names @ EvAddModule (defined_symbols ?m) # patches"
    unfolding Compile_trace_clean [OF assms] by simp
  have e: "fst (CompileSourceFileToIRAndAddToJIT cg r) =
      (fst (UpdateFunctionPointers (prepare_and_link (ir_module cg) r)) = None)"
    by (rule Compile_clean_fst [OF assms])
  have f: "jit_symbols (m_jit ?r') n \<noteq> None"
    if "\<not> link_conflict ?m (m_jit ?r3)" "n \<in> set (defined_symbols ?m)" for n
    using that
    by (simp add: Compile_symbols_clean [OF assms] prepare_and_link_fields AddModule_linked
        bind_symbols_bound)
  from a b c d e f show ?thesis unfolding Let_def by blast
qed

theorem removal_failures_do_not_abort_witness:
  "\<not> hadAnyError (REPL_Create False)
   \<and> \<not> diag_SILGeneration function_unit \<and> \<not> diag_SILDiagnosticPasses function_unit
   \<and> jit_symbols (m_jit (REPL_Create False)) ''$f'' = None
   \<and> JIT_RemoveSymbol ''$f'' (m_jit (REPL_Create False)) = (Some SymbolsNotFound, m_jit (REPL_Create False))
   \<and> m_jit (RemoveRedeclarationsFromJIT (ir_module function_unit) (REPL_Create False))
       = m_jit (REPL_Create False)
   \<and> \<not> link_conflict (prepared_module (ir_module function_unit) (REPL_Create False))
         (m_jit (RemoveRedeclarationsFromJIT (ir_module function_unit) (REPL_Create False)))
   \<and> jit_symbols (m_jit (snd (CompileSourceFileToIRAndAddToJIT function_unit (REPL_Create False)))) ''$f''
       \<noteq> None
   \<and> refused (m_jit (snd (ExecuteSwift function_line pinned_session))) ''$f''
   \<and> error_log (RemoveRedeclarationsFromJIT (ir_module redefining_unit)
         (snd (ExecuteSwift function_line pinned_session))) = [''Could not remove symbol$f'']
   \<and> fst (CompileSourceFileToIRAndAddToJIT redefining_unit
         (snd (ExecuteSwift function_line pinned_session)))"
proof -
  let ?r = "REPL_Create False"
  let ?p = "snd (ExecuteSwift function_line pinned_session)"
  have h: "\<not> hadAnyError ?r" "\<not> diag_SILGeneration function_unit"
    "\<not> diag_SILDiagnosticPasses function_unit"
    "\<not> hadAnyError ?p" "\<not> diag_SILGeneration redefining_unit"
    "\<not> diag_SILDiagnosticPasses redefining_unit"
    by code_simp+
  have names: "external_names (mod_functions (ir_module function_unit)) = [''$f'']"
    "external_names (mod_functions (ir_module redefining_unit)) = [''$f'']"
    "defined_symbols (prepared_module (ir_module function_unit) ?r) = [''$f'', ''$f_ptr'']"
    by code_simp+
  have u: "jit_symbols (m_jit ?r) ''$f'' = None"
    "\<not> link_conflict (prepared_module (ir_module function_unit) ?r)
         (m_jit (RemoveRedeclarationsFromJIT (ir_module function_unit) ?r))"
    by code_simp+
  have p: "refused (m_jit ?p) ''$f''" "error_log ?p = []"
    "fst (UpdateFunctionPointers (prepare_and_link (ir_module redefining_unit) ?p)) = None"
    by code_simp+
  from removal_failures_do_not_abort [OF h(1-3)] names u
  have a: "JIT_RemoveSymbol ''$f'' (m_jit ?r) = (Some SymbolsNotFound, m_jit ?r)"
    "m_jit (RemoveRedeclarationsFromJIT (ir_module function_unit) ?r) = m_jit ?r"
    "jit_symbols (m_jit (snd (CompileSourceFileToIRAndAddToJIT function_unit ?r))) ''$f'' \<noteq> None"
    by (simp_all add: Let_def)
  from removal_failures_do_not_abort [OF h(4-6)] names p
  have b: "error_log (RemoveRedeclarationsFromJIT (ir_module redefining_unit) ?p)
      = [''Could not remove symbol$f'']"
    "fst (CompileSourceFileToIRAndAddToJIT redefining_unit ?p)"
    by (simp_all add: Let_def)
  from h u p a b show ?thesis by simp
qed

section \<open>Unresolved slot targets\<close>

text \<open>
  C6, as stated: the slot of a target that cannot be resolved is left unset. It is left as
  it was, and it was set when an earlier line had linked the target: no code ever clears
  a slot. In a session whose linker refuses to remove \<^verbatim>\<open>$h\<close>, a first line links \<^verbatim>\<open>$f\<close> and
  \<^verbatim>\<open>$h\<close> and patches both slots; a second line defines both again: \<^verbatim>\<open>$f\<close> is removed, the
  removal of \<^verbatim>\<open>$h\<close> is refused, the linker reports the duplicate and links nothing, and the
  lookup of \<^verbatim>\<open>$f\<close> in the patching pass fails. The slot of \<^verbatim>\<open>$f\<close> still holds the address
  that the first line's \<^verbatim>\<open>$f\<close> had.
\<close>

theorem stale_slot_counterexample:
  "jit_symbols (m_jit (snd (ExecuteSwift (pair_line 1) stubborn_session))) ''$f'' = Some 0
   \<and> jit_symbols (m_jit (snd (ExecuteSwift (pair_line 2)
         (snd (ExecuteSwift (pair_line 1) stubborn_session))))) ''$f'' = None
   \<and> last (error_log (snd (ExecuteSwift (pair_line 2)
         (snd (ExecuteSwift (pair_line 1) stubborn_session))))) = ''Unable to update function pointers''
   \<and> map_of (m_fn_ptr_map (snd (ExecuteSwift (pair_line 2)
         (snd (ExecuteSwift (pair_line 1) stubborn_session))))) ''$f'' = Some ''$f_ptr''
   \<and> jit_symbols (m_jit (snd (ExecuteSwift (pair_line 2)
         (snd (ExecuteSwift (pair_line 1) stubborn_session))))) ''$f_ptr'' = Some 2
   \<and> jit_memory (m_jit (snd (ExecuteSwift (pair_line 2)
         (snd (ExecuteSwift (pair_line 1) stubborn_session))))) 2 = Some 0"
  by code_simp

text \<open>
  C6, amended. For a unit whose code generation raises no diagnostic:
  \<^item> if, after the unit is handed to the linker, the function symbol of a table entry does
    not resolve, the patching pass returns a lookup error, the compile step fails and
    logs \<^verbatim>\<open>Unable to update function pointers\<close>, and the entry's slot is not written: its
    cell holds what it held before the compile step (nothing, if it was never patched;
    the address patched last, otherwise);
  \<^item> if the compile step succeeds, the cell of every entry's slot holds the address to
    which the entry's function symbol resolves, so a later successful redefinition of
    the target populates the slot.
  The cell is the slot's own: no entry of another symbol has its slot there.
\<close>

theorem unresolved_target_leaves_slot:
  assumes "\<not> hadAnyError r" "\<not> diag_SILGeneration cg" "\<not> diag_SILDiagnosticPasses cg"
  shows
    "((n, s) \<in> set (m_fn_ptr_map (prepare_and_link (ir_module cg) r))
       \<and> jit_symbols (m_jit (prepare_and_link (ir_module cg) r)) n = None \<longrightarrow>
         fst (UpdateFunctionPointers (prepare_and_link (ir_module cg) r)) \<noteq> None
         \<and> fst (CompileSourceFileToIRAndAddToJIT cg r) = False
         \<and> error_log (snd (CompileSourceFileToIRAndAddToJIT cg r)) =
             error_log (prepare_and_link (ir_module cg) r) @ [''Unable to update function pointers'']
         \<and> (jit_symbols (m_jit (prepare_and_link (ir_module cg) r)) s = Some c
              \<and> sole_slot (prepare_and_link (ir_module cg) r) n c \<longrightarrow>
             jit_memory (m_jit (snd (CompileSourceFileToIRAndAddToJIT cg r))) c = jit_memory (m_jit r) c))
     \<and> (fst (CompileSourceFileToIRAndAddToJIT cg r)
         \<and> (n, s) \<in> set (m_fn_ptr_map (snd (CompileSourceFileToIRAndAddToJIT cg r)))
         \<and> jit_symbols (m_jit (snd (CompileSourceFileToIRAndAddToJIT cg r))) s = Some c
         \<and> sole_slot (snd (CompileSourceFileToIRAndAddToJIT cg r)) n c \<longrightarrow>
           jit_symbols (m_jit (snd (CompileSourceFileToIRAndAddToJIT cg r))) n \<noteq> None
           \<and> jit_memory (m_jit (snd (CompileSourceFileToIRAndAddToJIT cg r))) c
               = jit_symbols (m_jit (snd (CompileSourceFileToIRAndAddToJIT cg r))) n)"
proof -
  let ?linked = "prepare_and_link (ir_module cg) r"
  let ?c = "CompileSourceFileToIRAndAddToJIT cg r"
  note fst_c = Compile_clean_fst [OF assms]
  note snd_c = Compile_clean_snd [OF assms]
  have fails: "fst (UpdateFunctionPointers ?linked) \<noteq> None \<and> fst ?c = False
      \<and> error_log (snd ?c) = error_log ?linked @ [''Unable to update function pointers'']
      \<and> (jit_symbols (m_jit ?linked) s = Some c \<and> sole_slot ?linked n c \<longrightarrow>
           jit_memory (m_jit (snd ?c)) c = jit_memory (m_jit r) c)"
    if u: "(n, s) \<in> set (m_fn_ptr_map ?linked)" "jit_symbols (m_jit ?linked) n = None"
  proof -
    from Update_unresolved(1) [OF u] have f: "fst (UpdateFunctionPointers ?linked) \<noteq> None" .
    then have s: "snd ?c = Log_Error ''Unable to update function pointers''
        (snd (UpdateFunctionPointers ?linked))"
      unfolding snd_c by (auto simp: Let_def)
    have "jit_memory (m_jit (snd ?c)) c = jit_memory (m_jit r) c"
      if "jit_symbols (m_jit ?linked) s = Some c" "sole_slot ?linked n c"
      using Update_unresolved(2) [OF u that]
      by (simp add: s Log_Error_def prepare_and_link_memory)
    with f show ?thesis
      by (simp add: fst_c s Log_Error_def Update_fields)
  qed
  have succeeds: "jit_symbols (m_jit (snd ?c)) n \<noteq> None
      \<and> jit_memory (m_jit (snd ?c)) c = jit_symbols (m_jit (snd ?c)) n"
    if ok: "fst ?c" and e: "(n, s) \<in> set (m_fn_ptr_map (snd ?c))"
      "jit_symbols (m_jit (snd ?c)) s = Some c" "sole_slot (snd ?c) n c"
  proof -
    from ok have f: "fst (UpdateFunctionPointers ?linked) = None" by (simp add: fst_c)
    then have s: "snd ?c = snd (UpdateFunctionPointers ?linked)"
      unfolding snd_c by (simp add: Let_def)
    from e have e': "(n, s) \<in> set (m_fn_ptr_map ?linked)" "jit_symbols (m_jit ?linked) s = Some c"
      "sole_slot ?linked n c"
      by (simp_all add: s Update_fields sole_slot_def)
    from Update_populates [OF f e'] show ?thesis by (simp add: s Update_fields)
  qed
  from fails succeeds show ?thesis by blast
qed

theorem unresolved_target_leaves_slot_witness:
  "\<not> hadAnyError (snd (ExecuteSwift (pair_line 1) stubborn_session))
   \<and> \<not> diag_SILGeneration (pair_unit 2) \<and> \<not> diag_SILDiagnosticPasses (pair_unit 2)
   \<and> (''$f'', ''$f_ptr'') \<in> set (m_fn_ptr_map (prepare_and_link (ir_module (pair_unit 2))
         (snd (ExecuteSwift (pair_line 1) stubborn_session))))
   \<and> jit_symbols (m_jit (prepare_and_link (ir_module (pair_unit 2))
         (snd (ExecuteSwift (pair_line 1) stubborn_session)))) ''$f'' = None
   \<and> jit_symbols (m_jit (prepare_and_link (ir_module (pair_unit 2))
         (snd (ExecuteSwift (pair_line 1) stubborn_session)))) ''$f_ptr'' = Some 2
   \<and> sole_slot (prepare_and_link (ir_module (pair_unit 2))
         (snd (ExecuteSwift (pair_line 1) stubborn_session))) ''$f'' 2
   \<and> fst (CompileSourceFileToIRAndAddToJIT (pair_unit 2)
         (snd (ExecuteSwift (pair_line 1) stubborn_session))) = False
   \<and> jit_memory (m_jit (snd (CompileSourceFileToIRAndAddToJIT (pair_unit 2)
         (snd (ExecuteSwift (pair_line 1) stubborn_session))))) 2 = Some 0
   \<and> \<not> hadAnyError (snd (ExecuteSwift (pair_line 2) (snd (ExecuteSwift (pair_line 1) stubborn_session))))
   \<and> \<not> diag_SILGeneration redefining_unit \<and> \<not> diag_SILDiagnosticPasses redefining_unit
   \<and> fst (CompileSourceFileToIRAndAddToJIT redefining_unit
         (snd (ExecuteSwift (pair_line 2) (snd (ExecuteSwift (pair_line 1) stubborn_session)))))
   \<and> jit_symbols (m_jit (snd (CompileSourceFileToIRAndAddToJIT redefining_unit
         (snd (ExecuteSwift (pair_line 2) (snd (ExecuteSwift (pair_line 1) stubborn_session))))))) ''$f''
       = Some 4
   \<and> jit_memory (m_jit (snd (CompileSourceFileToIRAndAddToJIT redefining_unit
         (snd (ExecuteSwift (pair_line 2) (snd (ExecuteSwift (pair_line 1) stubborn_session))))))) 2
       = Some 4"
proof -
  let ?r1 = "snd (ExecuteSwift (pair_line 1) stubborn_session)"
  let ?r2 = "snd (ExecuteSwift (pair_line 2) ?r1)"
  let ?l1 = "prepare_and_link (ir_module (pair_unit 2)) ?r1"
  let ?c2 = "snd (CompileSourceFileToIRAndAddToJIT redefining_unit ?r2)"
  have h1: "\<not> hadAnyError ?r1" "\<not> diag_SILGeneration (pair_unit 2)"
    "\<not> diag_SILDiagnosticPasses (pair_unit 2)"
    by code_simp+
  have e1: "(''$f'', ''$f_ptr'') \<in> set (m_fn_ptr_map ?l1)" "jit_symbols (m_jit ?l1) ''$f'' = None"
    "jit_symbols (m_jit ?l1) ''$f_ptr'' = Some 2" "sole_slot ?l1 ''$f'' 2"
    "jit_memory (m_jit ?r1) 2 = Some 0"
    by code_simp+
  have h2: "\<not> hadAnyError ?r2" "\<not> diag_SILGeneration redefining_unit"
    "\<not> diag_SILDiagnosticPasses redefining_unit"
    by code_simp+
  have e2: "fst (CompileSourceFileToIRAndAddToJIT redefining_unit ?r2)"
    "(''$f'', ''$f_ptr'') \<in> set (m_fn_ptr_map ?c2)" "jit_symbols (m_jit ?c2) ''$f_ptr'' = Some 2"
    "sole_slot ?c2 ''$f'' 2" "jit_symbols (m_jit ?c2) ''$f'' = Some 4"
    by code_simp+
  from unresolved_target_leaves_slot [OF h1, of "''$f''" "''$f_ptr''" 2] e1
  have a: "fst (CompileSourceFileToIRAndAddToJIT (pair_unit 2) ?r1) = False"
    "jit_memory (m_jit (snd (CompileSourceFileToIRAndAddToJIT (pair_unit 2) ?r1))) 2 = Some 0"
    by simp_all
  from unresolved_target_leaves_slot [OF h2, of "''$f''" "''$f_ptr''" 2] e2
  have b: "jit_memory (m_jit ?c2) 2 = Some 4" by simp
  from h1 e1 a h2 e2 b show ?thesis by simp
qed

section \<open>The order of the linker operations\<close>

text \<open>
  C4, as stated: before a unit is linked, every symbol of the unit that is already bound
  is removed. Two kinds of bound symbol are still bound when the unit is handed to
  \<^verbatim>\<open>AddModule\<close>. A function whose removal the linker refuses: the handler of lines 51 to 54
  logs the refusal and the compile step goes on; in a session whose linker refuses to
  remove \<^verbatim>\<open>$f\<close>, the unit that defines \<^verbatim>\<open>f\<close> again is added while \<^verbatim>\<open>$f\<close> is bound, and the slot
  is patched with the address of the old \<^verbatim>\<open>$f\<close>. And a symbol that is not a function: the
  loop of line 41 goes over the functions of the module only; the global \<^verbatim>\<open>$n\<close> that a
  first unit has defined is bound when a second unit that defines it is added, in a
  session whose linker refuses nothing.
\<close>

theorem bound_symbol_at_add_counterexample:
  "jit_symbols (m_jit (snd (ExecuteSwift function_line pinned_session))) ''$f'' = Some 0
   \<and> defined_symbols (prepared_module (ir_module redefining_unit)
         (snd (ExecuteSwift function_line pinned_session))) = [''$f'']
   \<and> jit_symbols (m_jit (RemoveRedeclarationsFromJIT (ir_module redefining_unit)
         (snd (ExecuteSwift function_line pinned_session)))) ''$f'' = Some 0
   \<and> trace (snd (CompileSourceFileToIRAndAddToJIT redefining_unit
         (snd (ExecuteSwift function_line pinned_session))))
       = trace (snd (ExecuteSwift function_line pinned_session))
           @ [EvRemoveSymbol ''$f'', EvAddModule [''$f''], EvPatch ''$f'' 1 0]
   \<and> jit_symbols (m_jit (snd (ExecuteSwift (static_line 1) (REPL_Create False)))) ''$n'' = Some 1
   \<and> defined_symbols (prepared_module (ir_module (static_unit 2))
         (snd (ExecuteSwift (static_line 1) (REPL_Create False)))) = [''$f'', ''$n'']
   \<and> jit_symbols (m_jit (RemoveRedeclarationsFromJIT (ir_module (static_unit 2))
         (snd (ExecuteSwift (static_line 1) (REPL_Create False))))) ''$n'' = Some 1
   \<and> trace (snd (CompileSourceFileToIRAndAddToJIT (static_unit 2)
         (snd (ExecuteSwift (static_line 1) (REPL_Create False)))))
       = trace (snd (ExecuteSwift (static_line 1) (REPL_Create False)))
           @ [EvRemoveSymbol ''$f'', EvAddModule [''$f'', ''$n'']]"
  by code_simp

text \<open>
  C4, amended. For a unit whose code generation raises no diagnostic, the operations on
  the linker are, in this order:
  \<^item> a removal request for every function the unit defines with external linkage, and for
    nothing else: when the requests are done, each of these functions is unbound unless
    the linker has refused its removal, and every other symbol is bound as before;
  \<^item> the one call of \<^verbatim>\<open>AddModule\<close>, on the linker state the requests have left;
  \<^item> the slot patches: each is the patch of an entry of the table whose function symbol
    and slot symbol resolve in the linker state after the \<^verbatim>\<open>AddModule\<close>, and it stores the
    address of the function in the cell of the slot; the memory after the compile step
    is the memory before it with these stores made; when the compile step succeeds every
    entry of the table has been patched; the bindings are still those the \<^verbatim>\<open>AddModule\<close>
    left.
  A unit with a diagnostic performs no operation. Over a whole input line the trace grows
  by one such block per linked unit (in a block no removal request follows the
  \<^verbatim>\<open>AddModule\<close>), and the call of the line's entry function, if there is one, is the last
  event, after every block.
\<close>

theorem link_operations_in_order:
  "(\<not> hadAnyError r \<and> \<not> diag_SILGeneration cg \<and> \<not> diag_SILDiagnosticPasses cg \<longrightarrow>
      (let names = external_names (mod_functions (ir_module cg));
           removed = RemoveRedeclarationsFromJIT (ir_module cg) r;
           m = prepared_module (ir_module cg) r;
           linked = prepare_and_link (ir_module cg) r;
           r' = snd (CompileSourceFileToIRAndAddToJIT cg r)
       in (\<forall>n. jit_symbols (m_jit removed) n =
                 (if n \<in> set names \<and> \<not> refused (m_jit r) n then None else jit_symbols (m_jit r) n))
          \<and> m_jit linked = JIT_AddModule m (m_jit removed)
          \<and> (\<exists>patches.
                trace r' = trace r @ map EvRemoveSymbol names @ [EvAddModule (defined_symbols m)] @ patches
                \<and> list_all (patch_of (jit_symbols (m_jit linked)) (m_fn_ptr_map linked)) patches
                \<and> jit_memory (m_jit r') = fold apply_patch patches (jit_memory (m_jit r))
                \<and> (fst (CompileSourceFileToIRAndAddToJIT cg r) \<longrightarrow>
                     patches = map (patch_event (jit_symbols (m_jit linked))) (m_fn_ptr_map linked)))
          \<and> jit_symbols (m_jit r') = jit_symbols (m_jit linked)))
   \<and> (hadAnyError r \<or> diag_SILGeneration cg \<or> diag_SILDiagnosticPasses cg \<longrightarrow>
        trace (snd (CompileSourceFileToIRAndAddToJIT cg r)) = trace r
        \<and> m_jit (snd (CompileSourceFileToIRAndAddToJIT cg r)) = m_jit r)
   \<and> (\<exists>units tail.
        trace (snd (ExecuteSwift t r0)) = trace r0 @ concat units @ tail
        \<and> list_all unit_shaped units
        \<and> (tail = [] \<or> (\<exists>n a. tail = [EvInvoke n a]
              \<and> jit_symbols (m_jit (snd (ExecuteSwift t r0))) n = Some a)))"
proof -
  let ?names = "external_names (mod_functions (ir_module cg))"
  let ?removed = "RemoveRedeclarationsFromJIT (ir_module cg) r"
  let ?m = "prepared_module (ir_module cg) r"
  let ?linked = "prepare_and_link (ir_module cg) r"
  let ?r' = "snd (CompileSourceFileToIRAndAddToJIT cg r)"
  let ?syms = "jit_symbols (m_jit ?linked)"
  let ?done = "takeWhile (resolvable ?syms) (m_fn_ptr_map ?linked)"
  have rem: "\<forall>n. jit_symbols (m_jit ?removed) n =
      (if n \<in> set ?names \<and> \<not> refused (m_jit r) n then None else jit_symbols (m_jit r) n)"
    by (simp add: removal_leaves)
  have add: "m_jit ?linked = JIT_AddModule ?m (m_jit ?removed)"
    by (simp add: prepare_and_link_fields)
  have clean: "(\<exists>patches.
        trace ?r' = trace r @ map EvRemoveSymbol ?names @ [EvAddModule (defined_symbols ?m)] @ patches
        \<and> list_all (patch_of ?syms (m_fn_ptr_map ?linked)) patches
        \<and> jit_memory (m_jit ?r') = fold apply_patch patches (jit_memory (m_jit r))
        \<and> (fst (CompileSourceFileToIRAndAddToJIT cg r) \<longrightarrow>
             patches = map (patch_event ?syms) (m_fn_ptr_map ?linked)))
      \<and> jit_symbols (m_jit ?r') = ?syms"
    if c: "\<not> hadAnyError r" "\<not> diag_SILGeneration cg" "\<not> diag_SILDiagnosticPasses cg"
  proof -
    have tr: "trace ?r' = trace r @ map EvRemoveSymbol ?names @ [EvAddModule (defined_symbols ?m)]
        @ map (patch_event ?syms) ?done"
      by (rule Compile_trace_clean [OF c])
    have mem: "jit_memory (m_jit ?r') = fold apply_patch (map (patch_event ?syms) ?done) (jit_memory (m_jit r))"
      unfolding fold_apply_patch
      by (simp add: Compile_clean_snd [OF c] Let_def Log_Error_def Update_fields prepare_and_link_memory)
    have all: "map (patch_event ?syms) ?done = map (patch_event ?syms) (m_fn_ptr_map ?linked)"
      if "fst (CompileSourceFileToIRAndAddToJIT cg r)"
    proof -
      from that have "fst (UpdateFunctionPointers ?linked) = None"
        by (simp add: Compile_clean_fst [OF c])
      then have "list_all (resolvable ?syms) (m_fn_ptr_map ?linked)"
        by (simp add: UpdateFunctionPointers_def Update_loop_ok_iff)
      then show ?thesis by (simp add: takeWhile_all)
    qed
    from tr patches_of_prefix [of ?syms "m_fn_ptr_map ?linked"] mem all
    have "\<exists>patches.
        trace ?r' = trace r @ map EvRemoveSymbol ?names @ [EvAddModule (defined_symbols ?m)] @ patches
        \<and> list_all (patch_of ?syms (m_fn_ptr_map ?linked)) patches
        \<and> jit_memory (m_jit ?r') = fold apply_patch patches (jit_memory (m_jit r))
        \<and> (fst (CompileSourceFileToIRAndAddToJIT cg r) \<longrightarrow>
             patches = map (patch_event ?syms) (m_fn_ptr_map ?linked))"
      by (intro exI [of _ "map (patch_event ?syms) ?done"]) simp
    with Compile_symbols_clean [OF c] show ?thesis by simp
  qed
  have diag: "trace ?r' = trace r \<and> m_jit ?r' = m_jit r"
    if "hadAnyError r \<or> diag_SILGeneration cg \<or> diag_SILDiagnosticPasses cg"
    using that by (simp add: Compile_diag)
  from rem add clean diag ExecuteSwift_trace [of t r0] show ?thesis
    unfolding Let_def by blast
qed

theorem link_operations_in_order_witness:
  "\<not> hadAnyError (snd (ExecuteSwift function_line (REPL_Create False)))
   \<and> \<not> diag_SILGeneration calling_unit \<and> \<not> diag_SILDiagnosticPasses calling_unit
   \<and> fst (CompileSourceFileToIRAndAddToJIT calling_unit
         (snd (ExecuteSwift function_line (REPL_Create False))))
   \<and> jit_symbols (m_jit (RemoveRedeclarationsFromJIT (ir_module calling_unit)
         (snd (ExecuteSwift function_line (REPL_Create False))))) ''$r3'' = None
   \<and> trace (snd (CompileSourceFileToIRAndAddToJIT calling_unit
         (snd (ExecuteSwift function_line (REPL_Create False))))) =
       trace (snd (ExecuteSwift function_line (REPL_Create False)))
         @ [EvRemoveSymbol ''$r3'', EvAddModule [''$r3'', ''$r3_ptr''],
            EvPatch ''$f'' 1 0, EvPatch ''$r3'' 3 2]
   \<and> jit_memory (m_jit (snd (CompileSourceFileToIRAndAddToJIT calling_unit
         (snd (ExecuteSwift function_line (REPL_Create False)))))) 3 = Some 2
   \<and> jit_symbols (m_jit (snd (CompileSourceFileToIRAndAddToJIT calling_unit
         (snd (ExecuteSwift function_line (REPL_Create False)))))) ''$r3'' = Some 2
   \<and> \<not> hadAnyError (snd (ExecuteSwift function_line pinned_session))
   \<and> \<not> diag_SILGeneration redefining_unit \<and> \<not> diag_SILDiagnosticPasses redefining_unit
   \<and> refused (m_jit (snd (ExecuteSwift function_line pinned_session))) ''$f''
   \<and> jit_symbols (m_jit (RemoveRedeclarationsFromJIT (ir_module redefining_unit)
         (snd (ExecuteSwift function_line pinned_session)))) ''$f'' = Some 0"
proof -
  let ?r1 = "snd (ExecuteSwift function_line (REPL_Create False))"
  let ?p = "snd (ExecuteSwift function_line pinned_session)"
  let ?m = "prepared_module (ir_module calling_unit) ?r1"
  let ?linked = "prepare_and_link (ir_module calling_unit) ?r1"
  let ?c = "CompileSourceFileToIRAndAddToJIT calling_unit ?r1"
  have h: "\<not> hadAnyError ?r1" "\<not> diag_SILGeneration calling_unit"
    "\<not> diag_SILDiagnosticPasses calling_unit" "fst ?c"
    by code_simp+
  have e: "external_names (mod_functions (ir_module calling_unit)) = [''$r3'']"
    "defined_symbols ?m = [''$r3'', ''$r3_ptr'']"
    "map (patch_event (jit_symbols (m_jit ?linked))) (m_fn_ptr_map ?linked)
       = [EvPatch ''$f'' 1 0, EvPatch ''$r3'' 3 2]"
    "jit_symbols (m_jit ?linked) ''$r3'' = Some 2"
    "\<not> refused (m_jit ?r1) ''$r3''"
    by code_simp+
  have hp: "\<not> hadAnyError ?p" "\<not> diag_SILGeneration redefining_unit"
    "\<not> diag_SILDiagnosticPasses redefining_unit" "refused (m_jit ?p) ''$f''"
    "jit_symbols (m_jit ?p) ''$f'' = Some 0"
    by code_simp+
  from link_operations_in_order [of ?r1 calling_unit calling_line ?r1] h
  obtain patches where
    a: "jit_symbols (m_jit (RemoveRedeclarationsFromJIT (ir_module calling_unit) ?r1)) ''$r3'' =
          (if ''$r3'' \<in> set (external_names (mod_functions (ir_module calling_unit)))
              \<and> \<not> refused (m_jit ?r1) ''$r3'' then None else jit_symbols (m_jit ?r1) ''$r3'')"
    and b: "trace (snd ?c) = trace ?r1
        @ map EvRemoveSymbol (external_names (mod_functions (ir_module calling_unit)))
        @ [EvAddModule (defined_symbols ?m)] @ patches"
      "jit_memory (m_jit (snd ?c)) = fold apply_patch patches (jit_memory (m_jit ?r1))"
      "patches = map (patch_event (jit_symbols (m_jit ?linked))) (m_fn_ptr_map ?linked)"
    and s: "jit_symbols (m_jit (snd ?c)) = jit_symbols (m_jit ?linked)"
    unfolding Let_def by blast
  from a e have a': "jit_symbols (m_jit (RemoveRedeclarationsFromJIT (ir_module calling_unit) ?r1)) ''$r3'' = None"
    by simp
  from b e have b': "trace (snd ?c) = trace ?r1
        @ [EvRemoveSymbol ''$r3'', EvAddModule [''$r3'', ''$r3_ptr''], EvPatch ''$f'' 1 0, EvPatch ''$r3'' 3 2]"
    "jit_memory (m_jit (snd ?c)) 3 = Some 2"
    by simp_all
  from s e have s': "jit_symbols (m_jit (snd ?c)) ''$r3'' = Some 2" by simp
  from link_operations_in_order [of ?p redefining_unit calling_line ?p] hp
  have "jit_symbols (m_jit (RemoveRedeclarationsFromJIT (ir_module redefining_unit) ?p)) ''$f'' =
      (if ''$f'' \<in> set (external_names (mod_functions (ir_module redefining_unit)))
          \<and> \<not> refused (m_jit ?p) ''$f'' then None else jit_symbols (m_jit ?p) ''$f'')"
    unfolding Let_def by blast
  with hp have p': "jit_symbols (m_jit (RemoveRedeclarationsFromJIT (ir_module redefining_unit) ?p)) ''$f'' = Some 0"
    by simp
  from h a' b' s' hp p' show ?thesis by simp
qed

section \<open>Failures and the loop\<close>

text \<open>
  C8, as stated: every failure is local to its turn, and nothing that earlier successful
  turns have set up is undone. A failed link is not local. The symbols a unit defines are
  removed from the linker before the unit is linked (line 377), and nothing binds them
  again when the link fails. A first line links \<^verbatim>\<open>$f\<close> and the global \<^verbatim>\<open>$n\<close>; an unrelated
  line would then be linked and patched without an error. A second line defines both
  again: \<^verbatim>\<open>$f\<close> is removed, the linker reports the duplicate \<^verbatim>\<open>$n\<close>, and the patching pass
  fails. Now \<^verbatim>\<open>$f\<close> is bound to nothing, neither to the code of the first line nor to that
  of the second, and the unrelated line, which defines neither symbol, fails in its
  patching pass as well.
\<close>

theorem failed_link_unbinds_counterexample:
  "fst (ExecuteSwift (static_line 1) (REPL_Create False)) = Returned True
   \<and> error_log (snd (ExecuteSwift (static_line 1) (REPL_Create False))) = []
   \<and> jit_symbols (m_jit (snd (ExecuteSwift (static_line 1) (REPL_Create False)))) ''$f'' = Some 0
   \<and> error_log (snd (ExecuteSwift other_function_line
         (snd (ExecuteSwift (static_line 1) (REPL_Create False))))) = []
   \<and> error_log (snd (ExecuteSwift (static_line 2)
         (snd (ExecuteSwift (static_line 1) (REPL_Create False)))))
       = [''Unable to update function pointers'']
   \<and> jit_symbols (m_jit (snd (ExecuteSwift (static_line 2)
         (snd (ExecuteSwift (static_line 1) (REPL_Create False)))))) ''$f'' = None
   \<and> ''$f'' \<notin> set (turn_symbols other_function_line)
   \<and> ''$n'' \<notin> set (turn_symbols other_function_line)
   \<and> error_log (snd (ExecuteSwift other_function_line
         (snd (ExecuteSwift (static_line 2)
           (snd (ExecuteSwift (static_line 1) (REPL_Create False)))))))
       = [''Unable to update function pointers'', ''Unable to update function pointers'']"
  by code_simp

text \<open>
  C8, amended. For every input line, from a state whose registered files hold one
  declaration each:
  \<^item> \<^verbatim>\<open>ExecuteSwift\<close> returns a value (the assertion of line 239 never fails), and the state
    it leaves is again such a state;
  \<^item> after a frontend diagnostic it returns \<^verbatim>\<open>true\<close>; when the frontend has passed, it
    returns \<^verbatim>\<open>true\<close> if the loop over the declarations is left early, which is what a
    rejected redeclaration and a failed compile step do, and otherwise the value of the
    lookup of the entry function: \<^verbatim>\<open>false\<close> when the lookup fails;
  \<^item> whatever it returns, only an exit token ends the loop of the Turn Controller;
  \<^item> nothing recorded is withdrawn: no name leaves the registry, every symbol of the
    indirection table keeps its entry and its slot, the counter has grown by one, the
    code linked before is where it was, and every symbol that no unit of the line
    defines is bound as before.
  The bindings of the symbols that the units of the line define are not among the things
  kept: they are removed before the link and stay removed when the link fails.
\<close>

theorem failures_stay_local:
  assumes "registry_ok r"
  shows "(\<exists>b. fst (ExecuteSwift t r) = Returned b)
    \<and> registry_ok (snd (ExecuteSwift t r))
    \<and> (frontend_diagnostic t \<and> \<not> IsExitString (line t)
         \<and> (src_file_is_null t \<longrightarrow> diag_ModuleDecl_create t) \<longrightarrow>
          fst (ExecuteSwift t r) = Returned True)
    \<and> (\<not> frontend_diagnostic t \<and> \<not> IsExitString (line t) \<and> \<not> src_file_is_null t \<longrightarrow>
          (case ExecuteSwift_loop (line_module t r) (decls t) None (at_declarations t r) of
             (ReturnedEarly b, r') \<Rightarrow> ExecuteSwift t r = (Returned True, r')
           | (RanThrough None, r') \<Rightarrow> ExecuteSwift t r = (Returned True, r')
           | (RanThrough (Some n), r') \<Rightarrow>
               fst (ExecuteSwift t r) = Returned (jit_symbols (m_jit r') n \<noteq> None)
           | (AssertionFailure, r') \<Rightarrow> False))
    \<and> (isa_ValueDecl d \<and> validate rd d = InvalidRedeclaration nm \<longrightarrow>
          fst (ExecuteSwift_loop mn ((d, cg) # rest) res rd) = ReturnedEarly True)
    \<and> (isa_ValueDecl d \<and> validate rd d = Accepted
         \<and> \<not> fst (CompileSourceFileToIRAndAddToJIT cg (register_decl d rd)) \<longrightarrow>
          fst (ExecuteSwift_loop mn ((d, cg) # rest) res rd) = ReturnedEarly True)
    \<and> (\<forall>input r0 ts. GetLine input r0 = (Some (t, ts), r) \<longrightarrow>
          runLoop input r0 =
            (if IsExitString (line t) then (Exited ts, snd (ExecuteSwift t r))
             else runLoop ts (snd (ExecuteSwift t r))))
    \<and> dom (m_decl_map r) \<subseteq> dom (m_decl_map (snd (ExecuteSwift t r)))
    \<and> (\<forall>f s. map_of (m_fn_ptr_map r) f = Some s \<and> s \<noteq> [] \<longrightarrow>
          map_of (m_fn_ptr_map (snd (ExecuteSwift t r))) f = Some s)
    \<and> fst ` set (m_fn_ptr_map r) \<subseteq> fst ` set (m_fn_ptr_map (snd (ExecuteSwift t r)))
    \<and> m_curr_input_number (snd (ExecuteSwift t r)) = m_curr_input_number r + 1
    \<and> jit_next (m_jit r) \<le> jit_next (m_jit (snd (ExecuteSwift t r)))
    \<and> (\<forall>a < jit_next (m_jit r). jit_code (m_jit (snd (ExecuteSwift t r))) a = jit_code (m_jit r) a)
    \<and> (\<forall>n. n \<notin> set (turn_symbols t) \<longrightarrow>
          jit_symbols (m_jit (snd (ExecuteSwift t r))) n = jit_symbols (m_jit r) n)"
proof -
  let ?r0 = "r\<lparr>m_curr_input_number := m_curr_input_number r + 1, hadAnyError := False\<rparr>"
  let ?l = "ExecuteSwift_loop (line_module t r) (decls t) None (at_declarations t r)"
  note fr = ExecuteSwift_frame [OF assms, of t]
  have diag: "fst (ExecuteSwift t r) = Returned True"
    if "frontend_diagnostic t" "\<not> IsExitString (line t)" "src_file_is_null t \<longrightarrow> diag_ModuleDecl_create t"
  proof -
    have "\<not> hadAnyError ?r0" by simp
    from frontend_diagnosed [OF that(1) this] that(2,3) show ?thesis
      by (simp add: ExecuteSwift_def Let_def)
  qed
  have passed: "(case ?l of
             (ReturnedEarly b, r') \<Rightarrow> ExecuteSwift t r = (Returned True, r')
           | (RanThrough None, r') \<Rightarrow> ExecuteSwift t r = (Returned True, r')
           | (RanThrough (Some n), r') \<Rightarrow>
               fst (ExecuteSwift t r) = Returned (jit_symbols (m_jit r') n \<noteq> None)
           | (AssertionFailure, r') \<Rightarrow> False)"
    if "\<not> frontend_diagnostic t" "\<not> IsExitString (line t)" "\<not> src_file_is_null t"
  proof -
    have "\<not> hadAnyError ?r0" by simp
    from frontend_passes [OF that(1,3) this] have f: "fst (frontend t ?r0) = None" .
    note e = ExecuteSwift_unfold [OF that(2) f]
    from assms have "registry_ok (at_declarations t r)"
      by (simp add: registry_ok_def at_declarations_registry)
    from ExecuteSwift_loop_local [OF this, of "line_module t r" "decls t" None]
    have loc: "fst ?l \<noteq> AssertionFailure" "fst ?l \<noteq> ReturnedEarly False" by simp_all
    obtain le r' where l: "?l = (le, r')" by (cases ?l)
    show ?thesis
    proof (cases le)
      case (RanThrough res)
      show ?thesis
      proof (cases res)
        case None
        with RanThrough show ?thesis unfolding e l by simp
      next
        case (Some n)
        obtain b r'' where i: "invoke_entry (Some n) r' = (b, r'')"
          by (cases "invoke_entry (Some n) r'")
        from invoke_entry_result [of n r'] have "b = (jit_symbols (m_jit r') n \<noteq> None)"
          unfolding i by simp
        then show ?thesis
          unfolding e l RanThrough Some by (simp del: invoke_entry.simps add: i)
      qed
    next
      case (ReturnedEarly b)
      with loc l have "b" by (cases b) simp_all
      with ReturnedEarly show ?thesis unfolding e l by simp
    next
      case AssertionFailure
      with loc l show ?thesis by simp
    qed
  qed
  have rejected: "fst (ExecuteSwift_loop mn ((d, cg) # rest) res rd) = ReturnedEarly True"
    if "isa_ValueDecl d" "validate rd d = InvalidRedeclaration nm"
    using that by (simp add: PRINT_INVALID_REDECLARATION_def)
  have failed: "fst (ExecuteSwift_loop mn ((d, cg) # rest) res rd) = ReturnedEarly True"
    if "isa_ValueDecl d" "validate rd d = Accepted"
      "\<not> fst (CompileSourceFileToIRAndAddToJIT cg (register_decl d rd))"
    using that unfolding ExecuteSwift_loop_step by simp
  have loop: "runLoop input r0 =
            (if IsExitString (line t) then (Exited ts, snd (ExecuteSwift t r))
             else runLoop ts (snd (ExecuteSwift t r)))"
    if g: "GetLine input r0 = (Some (t, ts), r)" for input r0 ts
  proof -
    from fr(1) obtain b where "fst (ExecuteSwift t r) = Returned b" by blast
    then obtain r' where e: "ExecuteSwift t r = (Returned b, r')"
      by (cases "ExecuteSwift t r") simp
    show ?thesis
      unfolding e using g e by (subst runLoop.simps) simp
  qed
  have slots: "map_of (m_fn_ptr_map (snd (ExecuteSwift t r))) f = Some s"
    if "map_of (m_fn_ptr_map r) f = Some s" "s \<noteq> []" for f s
    using that by (rule turn_table_slot)
  have other: "jit_symbols (m_jit (snd (ExecuteSwift t r))) n = jit_symbols (m_jit r) n"
    if "n \<notin> set (turn_symbols t)" for n
    using that by (rule turn_symbols_other)
  note code = turn_code_old [of r t]
  show ?thesis
  proof (intro conjI)
    show "\<exists>b. fst (ExecuteSwift t r) = Returned b" by (rule fr(1))
    show "registry_ok (snd (ExecuteSwift t r))" by (rule fr(2))
    show "frontend_diagnostic t \<and> \<not> IsExitString (line t)
         \<and> (src_file_is_null t \<longrightarrow> diag_ModuleDecl_create t) \<longrightarrow>
          fst (ExecuteSwift t r) = Returned True"
      using diag by blast
    show "\<not> frontend_diagnostic t \<and> \<not> IsExitString (line t) \<and> \<not> src_file_is_null t \<longrightarrow>
          (case ?l of
             (ReturnedEarly b, r') \<Rightarrow> ExecuteSwift t r = (Returned True, r')
           | (RanThrough None, r') \<Rightarrow> ExecuteSwift t r = (Returned True, r')
           | (RanThrough (Some n), r') \<Rightarrow>
               fst (ExecuteSwift t r) = Returned (jit_symbols (m_jit r') n \<noteq> None)
           | (AssertionFailure, r') \<Rightarrow> False)"
    proof (intro impI)
      assume "\<not> frontend_diagnostic t \<and> \<not> IsExitString (line t) \<and> \<not> src_file_is_null t"
      then have a: "\<not> frontend_diagnostic t" "\<not> IsExitString (line t)" "\<not> src_file_is_null t"
        by simp_all
      show "case ?l of
             (ReturnedEarly b, r') \<Rightarrow> ExecuteSwift t r = (Returned True, r')
           | (RanThrough None, r') \<Rightarrow> ExecuteSwift t r = (Returned True, r')
           | (RanThrough (Some n), r') \<Rightarrow>
               fst (ExecuteSwift t r) = Returned (jit_symbols (m_jit r') n \<noteq> None)
           | (AssertionFailure, r') \<Rightarrow> False"
        by (rule passed [OF a])
    qed
    show "isa_ValueDecl d \<and> validate rd d = InvalidRedeclaration nm \<longrightarrow>
          fst (ExecuteSwift_loop mn ((d, cg) # rest) res rd) = ReturnedEarly True"
      using rejected by blast
    show "isa_ValueDecl d \<and> validate rd d = Accepted
         \<and> \<not> fst (CompileSourceFileToIRAndAddToJIT cg (register_decl d rd)) \<longrightarrow>
          fst (ExecuteSwift_loop mn ((d, cg) # rest) res rd) = ReturnedEarly True"
      using failed by blast
    show "\<forall>input r0 ts. GetLine input r0 = (Some (t, ts), r) \<longrightarrow>
          runLoop input r0 =
            (if IsExitString (line t) then (Exited ts, snd (ExecuteSwift t r))
             else runLoop ts (snd (ExecuteSwift t r)))"
      using loop by blast
    show "dom (m_decl_map r) \<subseteq> dom (m_decl_map (snd (ExecuteSwift t r)))" by (rule fr(3))
    show "\<forall>f s. map_of (m_fn_ptr_map r) f = Some s \<and> s \<noteq> [] \<longrightarrow>
          map_of (m_fn_ptr_map (snd (ExecuteSwift t r))) f = Some s"
      using slots by blast
    show "fst ` set (m_fn_ptr_map r) \<subseteq> fst ` set (m_fn_ptr_map (snd (ExecuteSwift t r)))"
      by (rule fr(4))
    show "m_curr_input_number (snd (ExecuteSwift t r)) = m_curr_input_number r + 1" by (rule fr(5))
    show "jit_next (m_jit r) \<le> jit_next (m_jit (snd (ExecuteSwift t r)))"
      using code by (rule conjunct1)
    show "\<forall>a < jit_next (m_jit r). jit_code (m_jit (snd (ExecuteSwift t r))) a = jit_code (m_jit r) a"
      using code by (rule conjunct2)
    show "\<forall>n. n \<notin> set (turn_symbols t) \<longrightarrow>
          jit_symbols (m_jit (snd (ExecuteSwift t r))) n = jit_symbols (m_jit r) n"
      using other by blast
  qed
qed

theorem failures_stay_local_witness:
  "registry_ok (snd (GetLine [ill_typed_line, function_line] (REPL_Create False)))
   \<and> fst (GetLine [ill_typed_line, function_line] (REPL_Create False))
       = Some (ill_typed_line, [function_line])
   \<and> frontend_diagnostic ill_typed_line \<and> \<not> IsExitString (line ill_typed_line)
   \<and> \<not> src_file_is_null ill_typed_line
   \<and> fst (ExecuteSwift ill_typed_line (snd (GetLine [ill_typed_line, function_line] (REPL_Create False))))
       = Returned True
   \<and> runLoop [ill_typed_line, function_line] (REPL_Create False)
       = runLoop [function_line]
           (snd (ExecuteSwift ill_typed_line (snd (GetLine [ill_typed_line, function_line] (REPL_Create False)))))
   \<and> validate (snd (ExecuteSwift variable_line (REPL_Create False))) (ValueDecl ''x'')
       = InvalidRedeclaration ''x''
   \<and> fst (ExecuteSwift_loop ''__repl_3'' (decls redeclaring_line) None
         (snd (ExecuteSwift variable_line (REPL_Create False)))) = ReturnedEarly True
   \<and> registry_ok (REPL_Create False)
   \<and> \<not> frontend_diagnostic uninitialised_line \<and> \<not> IsExitString (line uninitialised_line)
   \<and> \<not> src_file_is_null uninitialised_line
   \<and> fst (ExecuteSwift_loop (line_module uninitialised_line (REPL_Create False))
         (decls uninitialised_line) None (at_declarations uninitialised_line (REPL_Create False)))
       = RanThrough (Some ''$r2'')
   \<and> fst (ExecuteSwift uninitialised_line (REPL_Create False)) = Returned False
   \<and> registry_ok (snd (ExecuteSwift (static_line 2) (snd (ExecuteSwift (static_line 1) (REPL_Create False)))))
   \<and> \<not> fst (CompileSourceFileToIRAndAddToJIT (unit_of [defined_function ''$k'' [Opaque 3]])
         (register_decl (FuncDecl ''k'' ''$k'')
           (snd (ExecuteSwift (static_line 2) (snd (ExecuteSwift (static_line 1) (REPL_Create False)))))))
   \<and> fst (ExecuteSwift other_function_line
         (snd (ExecuteSwift (static_line 2) (snd (ExecuteSwift (static_line 1) (REPL_Create False))))))
       = Returned True
   \<and> jit_symbols (m_jit (snd (ExecuteSwift other_function_line
         (snd (ExecuteSwift (static_line 2) (snd (ExecuteSwift (static_line 1) (REPL_Create False)))))))) ''$n''
       = Some 1
   \<and> jit_code (m_jit (snd (ExecuteSwift other_function_line
         (snd (ExecuteSwift (static_line 2) (snd (ExecuteSwift (static_line 1) (REPL_Create False)))))))) 0
       = Some [Plain 1]"
proof -
  let ?input = "[ill_typed_line, function_line]"
  let ?rg = "snd (GetLine ?input (REPL_Create False))"
  let ?r0 = "REPL_Create False"
  let ?rv = "snd (ExecuteSwift variable_line ?r0)"
  let ?r1 = "snd (ExecuteSwift (static_line 1) ?r0)"
  let ?r2 = "snd (ExecuteSwift (static_line 2) ?r1)"
  let ?dk = "FuncDecl ''k'' ''$k''"
  let ?ck = "unit_of [defined_function ''$k'' [Opaque 3]]"
  let ?dx = "ValueDecl ''x''"
  let ?cx = "unit_of []"
  let ?rest = "[(FuncDecl ''h'' ''$h'', unit_of [defined_function ''$h'' [Opaque 0]])]"
  let ?lu = "ExecuteSwift_loop (line_module uninitialised_line ?r0) (decls uninitialised_line) None
      (at_declarations uninitialised_line ?r0)"
  let ?lk = "ExecuteSwift_loop (line_module other_function_line ?r2) (decls other_function_line) None
      (at_declarations other_function_line ?r2)"
  note T = failures_stay_local [where d = ?dx and rd = ?rv and nm = "''x''" and mn = "''__repl_3''"
      and cg = ?cx and rest = ?rest and res = None]
  note K = failures_stay_local [where d = ?dk and rd = ?r2 and nm = "''k''" and mn = "''__repl_4''"
      and cg = ?ck and rest = "[]" and res = None]
  have ok0: "registry_ok ?r0"
    by (simp add: registry_ok_def REPL_Create_def)
  have "m_decl_map ?rg = m_decl_map ?r0"
    by (simp add: GetLine_def prompt_def print_def ill_typed_line_def accepted_line_def)
  then have okg: "registry_ok ?rg"
    by (simp add: registry_ok_def REPL_Create_def)
  have g: "fst (GetLine ?input ?r0) = Some (ill_typed_line, [function_line])"
    by (simp add: GetLine_def ill_typed_line_def accepted_line_def)
  then have g': "GetLine ?input ?r0 = (Some (ill_typed_line, [function_line]), ?rg)"
    by (cases "GetLine ?input ?r0") simp
  have i: "frontend_diagnostic ill_typed_line" "\<not> IsExitString (line ill_typed_line)"
    "\<not> src_file_is_null ill_typed_line"
    by code_simp+
  have x: "isa_ValueDecl ?dx" "validate ?rv ?dx = InvalidRedeclaration ''x''"
    by code_simp+
  have dx: "decls redeclaring_line = (?dx, ?cx) # ?rest"
    by (simp add: redeclaring_line_def accepted_line_def)
  have u: "\<not> frontend_diagnostic uninitialised_line" "\<not> IsExitString (line uninitialised_line)"
    "\<not> src_file_is_null uninitialised_line"
    by code_simp+
  have lu: "fst ?lu = RanThrough (Some ''$r2'')" "jit_symbols (m_jit (snd ?lu)) ''$r2'' = None"
    by code_simp+
  have k: "\<not> frontend_diagnostic other_function_line" "\<not> IsExitString (line other_function_line)"
    "\<not> src_file_is_null other_function_line"
    "''$n'' \<notin> set (turn_symbols other_function_line)"
    "isa_ValueDecl ?dk" "validate ?r2 ?dk = Accepted"
    "\<not> fst (CompileSourceFileToIRAndAddToJIT ?ck (register_decl ?dk ?r2))"
    by code_simp+
  have lk: "fst ?lk = ReturnedEarly True"
    by code_simp
  have r2: "jit_symbols (m_jit ?r2) ''$n'' = Some 1" "jit_code (m_jit ?r2) 0 = Some [Plain 1]"
    "0 < jit_next (m_jit ?r2)"
    by code_simp+
  from T [OF okg, where t = ill_typed_line] i g' x
  have a: "fst (ExecuteSwift ill_typed_line ?rg) = Returned True"
    "runLoop ?input ?r0 = runLoop [function_line] (snd (ExecuteSwift ill_typed_line ?rg))"
    "fst (ExecuteSwift_loop ''__repl_3'' (decls redeclaring_line) None ?rv) = ReturnedEarly True"
    unfolding dx by (simp_all del: ExecuteSwift_loop.simps)
  obtain ru where eu: "?lu = (RanThrough (Some ''$r2''), ru)"
    using lu(1) by (cases ?lu) simp
  with lu(2) have "jit_symbols (m_jit ru) ''$r2'' = None" by simp
  with T [OF ok0, where t = uninitialised_line] u
  have b: "fst (ExecuteSwift uninitialised_line ?r0) = Returned False"
    unfolding eu by simp
  from T [OF ok0, where t = "static_line 1"]
  have ok1: "registry_ok ?r1" by simp
  from T [OF ok1, where t = "static_line 2"]
  have ok2: "registry_ok ?r2" by simp
  obtain rk where ek: "?lk = (ReturnedEarly True, rk)"
    using lk by (cases ?lk) simp
  from K [OF ok2, where t = other_function_line] k
  have c1: "fst (ExecuteSwift other_function_line ?r2) = Returned True"
    unfolding ek by (simp del: ExecuteSwift_loop.simps)
  from K [OF ok2, where t = other_function_line]
  have c2: "\<forall>a < jit_next (m_jit ?r2).
      jit_code (m_jit (snd (ExecuteSwift other_function_line ?r2))) a = jit_code (m_jit ?r2) a"
    by (elim conjE)
  from K [OF ok2, where t = other_function_line]
  have c3: "\<forall>n. n \<notin> set (turn_symbols other_function_line) \<longrightarrow>
      jit_symbols (m_jit (snd (ExecuteSwift other_function_line ?r2))) n = jit_symbols (m_jit ?r2) n"
    by (elim conjE)
  from c2 c3 k(4) r2 c1
  have c: "fst (ExecuteSwift other_function_line ?r2) = Returned True"
    "jit_symbols (m_jit (snd (ExecuteSwift other_function_line ?r2))) ''$n'' = Some 1"
    "jit_code (m_jit (snd (ExecuteSwift other_function_line ?r2))) 0 = Some [Plain 1]"
    by auto
  from okg g i a x ok0 u lu(1) b ok2 k c show ?thesis by simp
qed

section \<open>Redefinition through the indirection slots\<close>




end
